theory Spec2Isabelle
  imports Main "HOL-Library.Product_Lexorder" "HOL-Library.Multiset"
begin

section \<open>Errors\<close>

text \<open>
  A storage driver error is a \<open>*pq.Error\<close> or a \<open>*pgconn.PgError\<close> carrying an SQLSTATE
  code, or any other error value (lost connection, cancelled context).

  Modelled from the spec: the package of typed errors (\<open>ThrowInternal\<close>,
  \<open>ThrowAlreadyExists\<close>, \<open>ThrowInvalidArgumentf\<close>, \<open>ThrowNotFound\<close>, \<open>CaosError\<close>) is declared
  elsewhere in the repository. The spec's taxonomy has the kinds used here; a typed error
  wraps its parent error and carries an id and a message, and \<open>errors.Is\<close> against
  \<open>CaosError\<close> recognises every typed error. A typed error unwraps to its parent.

  The transaction library wraps an error it gives up on (an ambiguous commit, a failed
  restart, the retry limit); such an error unwraps to its cause.
\<close>

datatype db_error = PqError string | PgError string | OtherDBError string

datatype error_kind = Internal | AlreadyExists | InvalidArgument | NotFound

datatype tx_error_kind = AmbiguousCommitError | TxnRestartError | MaxRetriesExceededError

datatype go_error =
    DBError db_error
  | MarshalError string
  | CaosError error_kind "go_error option" string string
  | TxError tx_error_kind go_error

definition ThrowInternal :: "go_error \<Rightarrow> string \<Rightarrow> string \<Rightarrow> go_error" where
  "ThrowInternal parent ident msg = CaosError Internal (Some parent) ident msg"

definition ThrowAlreadyExists :: "go_error \<Rightarrow> string \<Rightarrow> string \<Rightarrow> go_error" where
  "ThrowAlreadyExists parent ident msg = CaosError AlreadyExists (Some parent) ident msg"

text \<open>
  \<open>fmt.Sprintf\<close> for a format whose one verb is \<open>%s\<close>, applied to a string; the space
  flag (\<open>% s\<close>) does not change how a string is printed.
\<close>

fun Sprintf :: "string \<Rightarrow> string \<Rightarrow> string" where
  "Sprintf [] a = []"
| "Sprintf (c # cs) a =
     (if c = CHR ''%'' \<and> take 1 cs = ''s'' then a @ drop 1 cs
      else if c = CHR ''%'' \<and> take 2 cs = '' s'' then a @ drop 2 cs
      else c # Sprintf cs a)"

definition ThrowInvalidArgumentf :: "string \<Rightarrow> string \<Rightarrow> string \<Rightarrow> go_error" where
  "ThrowInvalidArgumentf ident format a = CaosError InvalidArgument None ident (Sprintf format a)"

definition ThrowNotFound :: "go_error \<Rightarrow> string \<Rightarrow> string \<Rightarrow> go_error" where
  "ThrowNotFound parent ident msg = CaosError NotFound (Some parent) ident msg"

text \<open>\<open>errors.Is(err, &caos_errs.CaosError{})\<close>: some error of the chain is a typed error.\<close>

fun is_caos :: "go_error \<Rightarrow> bool" where
  "is_caos (CaosError k p i m) = True"
| "is_caos (TxError k e) = is_caos e"
| "is_caos (DBError e) = False"
| "is_caos (MarshalError s) = False"

text \<open>
  The library's \<open>errorCause\<close> and \<open>errIsRetryable\<close>: the error at the end of the chain
  of wrapped errors, and whether it is a driver error with SQLSTATE 40001 (a
  serialization conflict) or with the code CR000 of older servers.
\<close>

fun errorCause :: "go_error \<Rightarrow> go_error" where
  "errorCause (CaosError k None i m) = CaosError k None i m"
| "errorCause (CaosError k (Some p) i m) = errorCause p"
| "errorCause (TxError k e) = errorCause e"
| "errorCause (DBError e) = DBError e"
| "errorCause (MarshalError s) = MarshalError s"

definition errIsRetryable :: "go_error \<Rightarrow> bool" where
  "errIsRetryable err =
     (case errorCause err of
        DBError (PqError code) \<Rightarrow> code = ''CR000'' \<or> code = ''40001''
      | DBError (PgError code) \<Rightarrow> code = ''CR000'' \<or> code = ''40001''
      | _ \<Rightarrow> False)"

text \<open>
  A call either returns an error value or panics (a nil pointer is dereferenced); both
  leave the function early.
\<close>

datatype failure = Error go_error | NilDereference

section \<open>Commands, events and the store\<close>

record Aggregate =
  agg_ID :: string
  agg_Type :: string
  agg_ResourceOwner :: string
  agg_InstanceID :: string
  agg_Version :: string

datatype UniqueConstraintAction =
    UniqueConstraintAdd
  | UniqueConstraintRemove
  | UniqueConstraintInstanceRemove
  | UniqueConstraintOther

record UniqueConstraint =
  UniqueType :: string
  UniqueField :: string
  Action :: UniqueConstraintAction
  ErrorMessage :: string

text \<open>
  A payload is any Go value; what Push does with it is \<open>json.Marshal\<close>, which yields the
  encoding or an error.
\<close>

datatype payload = Payload string | Unmarshalable string

fun Marshal :: "payload \<Rightarrow> go_error + string" where
  "Marshal (Payload s) = Inr s"
| "Marshal (Unmarshalable msg) = Inl (MarshalError msg)"

text \<open>
  A command has no sequence: it carries the aggregate, the creator, the event type, an
  optional payload and its unique constraints (pointers, which may be nil).
\<close>

record Command =
  cmd_Aggregate :: Aggregate
  cmd_Creator :: string
  cmd_Type :: string
  cmd_Payload :: "payload option"
  cmd_UniqueConstraints :: "UniqueConstraint option list"

text \<open>A row of \<open>eventstore.events\<close>; the columns of the insert statement and the commit timestamp.\<close>

record event_row =
  row_id :: string
  event_type :: string
  aggregate_type :: string
  aggregate_id :: string
  aggregate_version :: string
  creation_date :: nat
  event_data :: "string option"
  editor_user :: string
  editor_service :: string
  resource_owner :: string
  instance_id :: string
  event_sequence :: nat
  previous_aggregate_sequence :: "nat option"
  previous_aggregate_type_sequence :: "nat option"
  mvcc_timestamp :: nat

text \<open>\<open>repository.Event\<close>, the value Push hands back.\<close>

record Event =
  ID :: string
  Seq :: nat
  PreviousAggregateSequence :: nat
  PreviousAggregateTypeSequence :: nat
  CreationDate :: nat
  Typ :: string
  Data :: "string option"
  EditorService :: string
  EditorUser :: string
  Version :: string
  AggregateID :: string
  AggregateType :: string
  ResourceOwner :: "string option"
  InstanceID :: string

record store =
  events :: "event_row list"
  unique_constraints :: "(string \<times> string \<times> string) list"

text \<open>
  What the database contributes to one statement: whether it fails for a reason of its
  own, the statement timestamp, and the generated row id. A transaction sees one such
  value per statement, a commit timestamp, and possibly a failing commit or a failing
  return to the savepoint from which the library restarts the transaction.
\<close>

record stmt_env =
  fault :: "db_error option"
  now :: nat
  new_id :: string

record tx_env =
  stmts :: "nat \<Rightarrow> stmt_env"
  commit_ts :: nat
  commit_fault :: "db_error option"
  restart_fault :: "db_error option"

section \<open>The insert statement\<close>

text \<open>
  \<open>ORDER BY event_sequence DESC LIMIT 1\<close> and \<open>MAX(event_sequence)\<close>: the row with the
  greatest sequence, none on an empty selection.
\<close>

fun max_seq_row :: "event_row list \<Rightarrow> event_row option" where
  "max_seq_row [] = None"
| "max_seq_row (r # rs) =
     (case max_seq_row rs of
        None \<Rightarrow> Some r
      | Some m \<Rightarrow> if event_sequence m \<le> event_sequence r then Some r else Some m)"

definition of_aggregate_type :: "string \<Rightarrow> string \<Rightarrow> event_row \<Rightarrow> bool" where
  "of_aggregate_type typ inst r \<longleftrightarrow> aggregate_type r = typ \<and> instance_id r = inst"

definition of_aggregate :: "string \<Rightarrow> string \<Rightarrow> string \<Rightarrow> event_row \<Rightarrow> bool" where
  "of_aggregate typ aid inst r \<longleftrightarrow>
     aggregate_type r = typ \<and> aggregate_id r = aid \<and> instance_id r = inst"

text \<open>
  \<open>previous_data\<close>: the maximal sequence of the aggregate type, left-joined with sequence
  and resource owner of the latest event of the aggregate; always exactly one row.
\<close>

definition previous_data ::
  "event_row list \<Rightarrow> string \<Rightarrow> string \<Rightarrow> string \<Rightarrow> nat option \<times> nat option \<times> string option" where
  "previous_data rows typ aid inst =
     (let agg_type = max_seq_row (filter (of_aggregate_type typ inst) rows);
          agg = max_seq_row (filter (of_aggregate typ aid inst) rows)
      in (map_option event_sequence agg_type,
          map_option event_sequence agg,
          map_option resource_owner agg))"

definition COALESCE :: "'a option \<Rightarrow> 'a \<Rightarrow> 'a" where
  "COALESCE v d = (case v of None \<Rightarrow> d | Some x \<Rightarrow> x)"

definition max_bigint :: nat where
  "max_bigint = 9223372036854775807"

record insert_params =
  p1_event_type :: string
  p2_aggregate_type :: string
  p3_aggregate_id :: string
  p4_aggregate_version :: string
  p5_event_data :: "string option"
  p6_editor_user :: string
  p7_editor_service :: string
  p8_resource_owner :: string
  p9_instance_id :: string

text \<open>
  \<open>crdbInsert\<close>: one row is inserted and returned. The statement fails when the database
  fails, or when the new sequence leaves the range of BIGINT (SQLSTATE 22003).
\<close>

definition crdbInsert ::
  "stmt_env \<Rightarrow> nat \<Rightarrow> event_row list \<Rightarrow> insert_params \<Rightarrow> db_error + (event_row list \<times> event_row)" where
  "crdbInsert env ts rows p =
     (case fault env of
        Some err \<Rightarrow> Inl err
      | None \<Rightarrow>
         (case previous_data rows (p2_aggregate_type p) (p3_aggregate_id p) (p9_instance_id p) of
            (aggregate_type_sequence, aggregate_sequence, prev_resource_owner) \<Rightarrow>
              if COALESCE aggregate_sequence 0 + 1 > max_bigint then Inl (PgError ''22003'')
              else
                (let r = \<lparr> row_id = new_id env,
                           event_type = p1_event_type p,
                           aggregate_type = p2_aggregate_type p,
                           aggregate_id = p3_aggregate_id p,
                           aggregate_version = p4_aggregate_version p,
                           creation_date = now env,
                           event_data = p5_event_data p,
                           editor_user = p6_editor_user p,
                           editor_service = p7_editor_service p,
                           resource_owner = COALESCE prev_resource_owner (p8_resource_owner p),
                           instance_id = p9_instance_id p,
                           event_sequence = COALESCE aggregate_sequence 0 + 1,
                           previous_aggregate_sequence = aggregate_sequence,
                           previous_aggregate_type_sequence = aggregate_type_sequence,
                           mvcc_timestamp = ts \<rparr>
                 in Inr (rows @ [r], r))))"

section \<open>Unique constraints\<close>

text \<open>
  \<open>strings.ToLower\<close>: a string of ASCII bytes has its letters A to Z lowered; any other
  string is mapped rune by rune with the Unicode tables of the standard library. That
  mapping of a string is the parameter \<open>unicodeLower\<close>.
\<close>

definition lower_char :: "char \<Rightarrow> char" where
  "lower_char c =
     (case map_of (zip ''ABCDEFGHIJKLMNOPQRSTUVWXYZ'' ''abcdefghijklmnopqrstuvwxyz'') c of
        None \<Rightarrow> c
      | Some l \<Rightarrow> l)"

definition ToLower :: "(string \<Rightarrow> string) \<Rightarrow> string \<Rightarrow> string" where
  "ToLower unicodeLower s =
     (if list_all (\<lambda>c. (of_char c :: nat) < 128) s then map lower_char s else unicodeLower s)"

definition isUniqueViolationError :: "db_error \<Rightarrow> bool" where
  "isUniqueViolationError err =
     (case err of
        PqError code \<Rightarrow> code = ''23505''
      | PgError code \<Rightarrow> code = ''23505''
      | OtherDBError s \<Rightarrow> False)"

text \<open>
  Modelled from the spec: the table \<open>eventstore.unique_constraints\<close> is created by a
  statement elsewhere in the repository. The spec keys it by
  \<open>(uniqueType, uniqueField, instanceID)\<close> and has the storage-level uniqueness index
  refuse a second row with the same key (SQLSTATE 23505).
\<close>

definition uniqueInsert ::
  "stmt_env \<Rightarrow> (string \<times> string \<times> string) list \<Rightarrow> string \<Rightarrow> string \<Rightarrow> string
     \<Rightarrow> db_error + (string \<times> string \<times> string) list" where
  "uniqueInsert env tab utype ufield inst =
     (case fault env of
        Some err \<Rightarrow> Inl err
      | None \<Rightarrow>
          if (utype, ufield, inst) \<in> set tab then Inl (PgError ''23505'')
          else Inr (tab @ [(utype, ufield, inst)]))"

definition uniqueDelete ::
  "stmt_env \<Rightarrow> (string \<times> string \<times> string) list \<Rightarrow> string \<Rightarrow> string \<Rightarrow> string
     \<Rightarrow> db_error + (string \<times> string \<times> string) list" where
  "uniqueDelete env tab utype ufield inst =
     (case fault env of
        Some err \<Rightarrow> Inl err
      | None \<Rightarrow> Inr (filter (\<lambda>k. k \<noteq> (utype, ufield, inst)) tab))"

definition uniqueDeleteInstance ::
  "stmt_env \<Rightarrow> (string \<times> string \<times> string) list \<Rightarrow> string
     \<Rightarrow> db_error + (string \<times> string \<times> string) list" where
  "uniqueDeleteInstance env tab inst =
     (case fault env of
        Some err \<Rightarrow> Inl err
      | None \<Rightarrow> Inr (filter (\<lambda>(t, f, i). i \<noteq> inst) tab))"

text \<open>The calling context: the instance \<open>authz.GetInstance(ctx).InstanceID()\<close>.\<close>

record call_context =
  ctx_InstanceID :: string

text \<open>One round of the loop of \<open>handleUniqueConstraints\<close>.\<close>

definition handleUniqueConstraint ::
  "(string \<Rightarrow> string) \<Rightarrow> call_context \<Rightarrow> stmt_env \<Rightarrow> UniqueConstraint option \<Rightarrow> (string \<times> string \<times> string) list
     \<Rightarrow> failure + (string \<times> string \<times> string) list" where
  "handleUniqueConstraint unicodeLower ctx env uc tab =
     (case uc of
        None \<Rightarrow> Inl NilDereference
      | Some c \<Rightarrow>
         (let field = ToLower unicodeLower (UniqueField c) in
          case Action c of
            UniqueConstraintAdd \<Rightarrow>
              (case uniqueInsert env tab (UniqueType c) field (ctx_InstanceID ctx) of
                 Inl err \<Rightarrow>
                   if isUniqueViolationError err
                   then Inl (Error (ThrowAlreadyExists (DBError err) ''SQL-M0dsf'' (ErrorMessage c)))
                   else Inl (Error (ThrowInternal (DBError err) ''SQL-dM9ds''
                                      ''unable to create unique constraint''))
               | Inr tab' \<Rightarrow> Inr tab')
          | UniqueConstraintRemove \<Rightarrow>
              (case uniqueDelete env tab (UniqueType c) field (ctx_InstanceID ctx) of
                 Inl err \<Rightarrow> Inl (Error (ThrowInternal (DBError err) ''SQL-6n88i''
                                      ''unable to remove unique constraint''))
               | Inr tab' \<Rightarrow> Inr tab')
          | UniqueConstraintInstanceRemove \<Rightarrow>
              (case uniqueDeleteInstance env tab (ctx_InstanceID ctx) of
                 Inl err \<Rightarrow> Inl (Error (ThrowInternal (DBError err) ''SQL-6n88i''
                                      ''unable to remove unique constraints of instance''))
               | Inr tab' \<Rightarrow> Inr tab')
          | UniqueConstraintOther \<Rightarrow> Inr tab))"

fun handleUniqueConstraints_loop ::
  "(string \<Rightarrow> string) \<Rightarrow> call_context \<Rightarrow> (nat \<Rightarrow> stmt_env) \<Rightarrow> nat \<Rightarrow> UniqueConstraint option list
     \<Rightarrow> (string \<times> string \<times> string) list \<Rightarrow> failure + (string \<times> string \<times> string) list" where
  "handleUniqueConstraints_loop unicodeLower ctx env k [] tab = Inr tab"
| "handleUniqueConstraints_loop unicodeLower ctx env k (uc # ucs) tab =
     (case handleUniqueConstraint unicodeLower ctx (env k) uc tab of
        Inl f \<Rightarrow> Inl f
      | Inr tab' \<Rightarrow> handleUniqueConstraints_loop unicodeLower ctx env (Suc k) ucs tab')"

definition handleUniqueConstraints ::
  "(string \<Rightarrow> string) \<Rightarrow> call_context \<Rightarrow> (nat \<Rightarrow> stmt_env) \<Rightarrow> nat \<Rightarrow> UniqueConstraint option list
     \<Rightarrow> (string \<times> string \<times> string) list \<Rightarrow> failure + (string \<times> string \<times> string) list" where
  "handleUniqueConstraints unicodeLower ctx env k ucs tab =
     (if length ucs = 0 \<or> (length ucs = 1 \<and> ucs ! 0 = None) then Inr tab
      else handleUniqueConstraints_loop unicodeLower ctx env k ucs tab)"

section \<open>Push\<close>

text \<open>
  The instance of the command, taken from the context when the command has none (the
  assignment to \<open>command.Aggregate().InstanceID\<close>).
\<close>

definition resolve_InstanceID :: "call_context \<Rightarrow> Command \<Rightarrow> string" where
  "resolve_InstanceID ctx command =
     (if agg_InstanceID (cmd_Aggregate command) = [] then ctx_InstanceID ctx
      else agg_InstanceID (cmd_Aggregate command))"

text \<open>
  Modelled from the spec: the type \<open>Sequence\<close> into which the previous sequences are
  scanned is declared elsewhere in the repository. The spec has them hold the counters'
  values before the event: 0 when the column is NULL because there was no event.
\<close>

definition scan_Sequence :: "nat option \<Rightarrow> nat" where
  "scan_Sequence v = (case v of None \<Rightarrow> 0 | Some n \<Rightarrow> n)"

text \<open>The body of the loop of Push for one command: the new table and the event.\<close>

definition push_command ::
  "call_context \<Rightarrow> stmt_env \<Rightarrow> nat \<Rightarrow> Command \<Rightarrow> event_row list \<Rightarrow> failure + (event_row list \<times> Event)" where
  "push_command ctx env ts command rows =
     (let inst = resolve_InstanceID ctx command in
      case (case cmd_Payload command of
              None \<Rightarrow> Inr None
            | Some pl \<Rightarrow> (case Marshal pl of Inl err \<Rightarrow> Inl err | Inr d \<Rightarrow> Inr (Some d))) of
        Inl err \<Rightarrow> Inl (Error err)
      | Inr data \<Rightarrow>
         (let e = \<lparr> ID = [], Seq = 0,
                    PreviousAggregateSequence = 0, PreviousAggregateTypeSequence = 0,
                    CreationDate = 0,
                    Typ = cmd_Type command,
                    Data = data,
                    EditorService = ''eventstore.v2'',
                    EditorUser = cmd_Creator command,
                    Version = agg_Version (cmd_Aggregate command),
                    AggregateID = agg_ID (cmd_Aggregate command),
                    AggregateType = agg_Type (cmd_Aggregate command),
                    ResourceOwner =
                      (if agg_ResourceOwner (cmd_Aggregate command) \<noteq> []
                       then Some (agg_ResourceOwner (cmd_Aggregate command)) else None),
                    InstanceID = inst \<rparr>
          in case crdbInsert env ts rows
                    \<lparr> p1_event_type = Typ e,
                      p2_aggregate_type = AggregateType e,
                      p3_aggregate_id = AggregateID e,
                      p4_aggregate_version = Version e,
                      p5_event_data = data,
                      p6_editor_user = EditorUser e,
                      p7_editor_service = ''zitadel'',
                      p8_resource_owner = (case ResourceOwner e of None \<Rightarrow> [] | Some ro \<Rightarrow> ro),
                      p9_instance_id = InstanceID e \<rparr> of
               Inl err \<Rightarrow>
                 Inl (Error (ThrowInternal (DBError err) ''SQL-SBP37'' ''unable to create event''))
             | Inr (rows', r) \<Rightarrow>
                 Inr (rows',
                      e\<lparr> ID := row_id r,
                         Seq := event_sequence r,
                         PreviousAggregateSequence := scan_Sequence (previous_aggregate_sequence r),
                         PreviousAggregateTypeSequence :=
                           scan_Sequence (previous_aggregate_type_sequence r),
                         CreationDate := creation_date r,
                         ResourceOwner := Some (resource_owner r),
                         InstanceID := instance_id r \<rparr>)))"

text \<open>
  The loop over the commands: statement \<open>k\<close> of the transaction serves the command at
  index \<open>k\<close>; the events are stored at the command's index and the constraints collected
  in order.
\<close>

fun push_commands ::
  "call_context \<Rightarrow> (nat \<Rightarrow> stmt_env) \<Rightarrow> nat \<Rightarrow> nat \<Rightarrow> Command list \<Rightarrow> event_row list
     \<Rightarrow> failure + (event_row list \<times> Event list \<times> UniqueConstraint option list)" where
  "push_commands ctx env ts k [] rows = Inr (rows, [], [])"
| "push_commands ctx env ts k (command # commands) rows =
     (case push_command ctx (env k) ts command rows of
        Inl f \<Rightarrow> Inl f
      | Inr (rows', e) \<Rightarrow>
         (case push_commands ctx env ts (Suc k) commands rows' of
            Inl f \<Rightarrow> Inl f
          | Inr (rows'', es, ucs) \<Rightarrow> Inr (rows'', e # es, cmd_UniqueConstraints command @ ucs)))"

text \<open>The function Push runs in the transaction.\<close>

definition push_tx ::
  "(string \<Rightarrow> string) \<Rightarrow> call_context \<Rightarrow> Command list \<Rightarrow> tx_env \<Rightarrow> store
     \<Rightarrow> failure + (store \<times> Event list)" where
  "push_tx unicodeLower ctx commands env st =
     (case push_commands ctx (stmts env) (commit_ts env) 0 commands (events st) of
        Inl f \<Rightarrow> Inl f
      | Inr (rows', es, ucs) \<Rightarrow>
         (case handleUniqueConstraints unicodeLower ctx (stmts env) (length commands) ucs
                 (unique_constraints st) of
            Inl f \<Rightarrow> Inl f
          | Inr tab' \<Rightarrow> Inr (\<lparr> events = rows', unique_constraints = tab' \<rparr>, es)))"

text \<open>
  \<open>crdb.ExecuteTx\<close> (a library) runs the function in a transaction. One execution of the
  function ends in one of three ways:
  \<^item> the function returns no error and the commit goes through: the transaction is
    committed;
  \<^item> the function panics, or the function or the commit fails with an error that is not
    retryable, or the return to the savepoint fails: the transaction is rolled back and
    the error returned (the panic goes on);
  \<^item> the function or the commit fails with a retryable error: the transaction returns
    to its savepoint, which undoes what the function did, and the function is executed
    again.
  The database presents an environment of its own to every execution; the list holds
  those of the re-executions up to the library's retry limit, past which the library
  returns the error. The transaction is taken to begin and to set its savepoint, and a
  commit that fails is taken to leave the store as it was.
\<close>

datatype 'a attempt = Committed store 'a | Failed failure | Retry go_error

definition run_attempt ::
  "tx_env \<Rightarrow> (tx_env \<Rightarrow> store \<Rightarrow> failure + (store \<times> 'a)) \<Rightarrow> store \<Rightarrow> 'a attempt" where
  "run_attempt env fn st =
     (let after_error = (\<lambda>err released.
            if \<not> errIsRetryable err
            then Failed (Error (if released then TxError AmbiguousCommitError err else err))
            else (case restart_fault env of
                    Some rerr \<Rightarrow> Failed (Error (TxError TxnRestartError (DBError rerr)))
                  | None \<Rightarrow> Retry err))
      in case fn env st of
           Inl NilDereference \<Rightarrow> Failed NilDereference
         | Inl (Error err) \<Rightarrow> after_error err False
         | Inr (st', x) \<Rightarrow>
             (case commit_fault env of
                None \<Rightarrow> Committed st' x
              | Some cerr \<Rightarrow> after_error (DBError cerr) True))"

fun ExecuteTx ::
  "tx_env \<Rightarrow> tx_env list \<Rightarrow> (tx_env \<Rightarrow> store \<Rightarrow> failure + (store \<times> 'a)) \<Rightarrow> store
     \<Rightarrow> store \<times> (failure + 'a)" where
  "ExecuteTx env [] fn st =
     (case run_attempt env fn st of
        Committed st' x \<Rightarrow> (st', Inr x)
      | Failed f \<Rightarrow> (st, Inl f)
      | Retry err \<Rightarrow> (st, Inl (Error (TxError MaxRetriesExceededError err))))"
| "ExecuteTx env (env' # retries) fn st =
     (case run_attempt env fn st of
        Committed st' x \<Rightarrow> (st', Inr x)
      | Failed f \<Rightarrow> (st, Inl f)
      | Retry err \<Rightarrow> ExecuteTx env' retries fn st)"

text \<open>
  Push: the store after the call and what the call returns. On an error the Go function
  also returns the partly filled slice, which no caller reads; the model returns the
  error alone.
\<close>

definition Push ::
  "(string \<Rightarrow> string) \<Rightarrow> call_context \<Rightarrow> tx_env \<Rightarrow> tx_env list \<Rightarrow> Command list \<Rightarrow> store
     \<Rightarrow> store \<times> (failure + Event list)" where
  "Push unicodeLower ctx env retries commands st =
     (case ExecuteTx env retries (push_tx unicodeLower ctx commands) st of
        (st', Inl (Error err)) \<Rightarrow>
          (st', Inl (Error (if \<not> is_caos err
                            then ThrowInternal err ''SQL-DjgtG'' ''unable to store events''
                            else err)))
      | (st', Inl NilDereference) \<Rightarrow> (st', Inl NilDereference)
      | (st', Inr es) \<Rightarrow> (st', Inr es))"

definition next_sequence :: "event_row list \<Rightarrow> string \<Rightarrow> string \<Rightarrow> string \<Rightarrow> nat" where
  "next_sequence rows typ aid inst =
     (let S = event_sequence ` {r \<in> set rows. of_aggregate typ aid inst r}
      in if S = {} then 1 else Max S + 1)"

definition marshal_payload :: "Command \<Rightarrow> string option" where
  "marshal_payload c = (case cmd_Payload c of Some (Payload s) \<Rightarrow> Some s | _ \<Rightarrow> None)"

text \<open>The nine arguments Push passes to the insert statement for a command.\<close>

definition insert_params_of :: "call_context \<Rightarrow> Command \<Rightarrow> insert_params" where
  "insert_params_of ctx c =
     \<lparr> p1_event_type = cmd_Type c,
       p2_aggregate_type = agg_Type (cmd_Aggregate c),
       p3_aggregate_id = agg_ID (cmd_Aggregate c),
       p4_aggregate_version = agg_Version (cmd_Aggregate c),
       p5_event_data = marshal_payload c,
       p6_editor_user = cmd_Creator c,
       p7_editor_service = ''zitadel'',
       p8_resource_owner = agg_ResourceOwner (cmd_Aggregate c),
       p9_instance_id = resolve_InstanceID ctx c \<rparr>"

definition aggregate_sequences :: "event_row list \<Rightarrow> string \<Rightarrow> string \<Rightarrow> string \<Rightarrow> nat list" where
  "aggregate_sequences rows typ aid inst = map event_sequence (filter (of_aggregate typ aid inst) rows)"

definition gapless :: "event_row list \<Rightarrow> bool" where
  "gapless rows \<longleftrightarrow>
     (\<forall>r\<in>set rows.
        aggregate_sequences rows (aggregate_type r) (aggregate_id r) (instance_id r)
          = [1..<Suc (length (aggregate_sequences rows (aggregate_type r) (aggregate_id r) (instance_id r)))])"

definition inserted_rows :: "store \<Rightarrow> store \<Rightarrow> event_row list" where
  "inserted_rows st st' = drop (length (events st)) (events st')"

text \<open>A store with no events and no constraints, and a call that pushes two commands of one organisation.\<close>

definition empty_store :: store where
  "empty_store = \<lparr> events = [], unique_constraints = [] \<rparr>"

definition example_ctx :: call_context where
  "example_ctx = \<lparr> ctx_InstanceID = ''i1'' \<rparr>"

definition example_env :: tx_env where
  "example_env =
     \<lparr> stmts = (\<lambda>k. \<lparr> fault = None, now = 100 + k, new_id = replicate (Suc k) (CHR ''r'') \<rparr>),
       commit_ts = 200, commit_fault = None, restart_fault = None \<rparr>"

definition org_aggregate :: Aggregate where
  "org_aggregate =
     \<lparr> agg_ID = ''o1'', agg_Type = ''org'', agg_ResourceOwner = ''o1'',
       agg_InstanceID = [], agg_Version = ''v1'' \<rparr>"

definition org_name_constraint :: UniqueConstraint where
  "org_name_constraint =
     \<lparr> UniqueType = ''org_name'', UniqueField = ''ACME'', Action = UniqueConstraintAdd,
       ErrorMessage = ''Errors.Org.AlreadyExists'' \<rparr>"

definition example_commands :: "Command list" where
  "example_commands =
     [\<lparr> cmd_Aggregate = org_aggregate, cmd_Creator = ''u1'', cmd_Type = ''org.added'',
        cmd_Payload = Some (Payload ''{}''), cmd_UniqueConstraints = [Some org_name_constraint] \<rparr>,
      \<lparr> cmd_Aggregate = org_aggregate\<lparr>agg_ResourceOwner := ''o2''\<rparr>, cmd_Creator = ''u1'',
        cmd_Type = ''org.changed'', cmd_Payload = None, cmd_UniqueConstraints = [] \<rparr>]"



text \<open>The same call when the insert of the unique constraint meets the conflict.\<close>

definition constraint_conflict_env :: tx_env where
  "constraint_conflict_env =
     \<lparr> stmts = (\<lambda>k. \<lparr> fault = (if k = 2 then Some (PgError ''40001'') else None),
                        now = 50 + k, new_id = replicate (Suc k) (CHR ''q'') \<rparr>),
       commit_ts = 60, commit_fault = None, restart_fault = None \<rparr>"

fun example_unicodeLower :: "string \<Rightarrow> string" where
  "example_unicodeLower [] = []"
| "example_unicodeLower [c] = [lower_char c]"
| "example_unicodeLower (c # d # cs) =
     (if c = CHR 0xC3 \<and> d = CHR 0x84 then CHR 0xC3 # CHR 0xA4 # example_unicodeLower cs
      else lower_char c # example_unicodeLower (d # cs))"

definition umlaut_constraint :: UniqueConstraint where
  "umlaut_constraint =
     \<lparr> UniqueType = ''org_name'', UniqueField = [CHR 0xC3, CHR 0x84] @ ''CME'',
       Action = UniqueConstraintAdd, ErrorMessage = ''Errors.Org.AlreadyExists'' \<rparr>"

definition umlaut_commands :: "Command list" where
  "umlaut_commands =
     [\<lparr> cmd_Aggregate = org_aggregate, cmd_Creator = ''u1'', cmd_Type = ''org.added'',
        cmd_Payload = None, cmd_UniqueConstraints = [Some umlaut_constraint] \<rparr>]"

definition umlaut_store :: store where
  "umlaut_store =
     \<lparr> events = [],
       unique_constraints = [(''org_name'', [CHR 0xC3, CHR 0xA4] @ ''cme'', ''i1'')] \<rparr>"

definition taken_store :: store where
  "taken_store = \<lparr> events = [], unique_constraints = [(''org_name'', ''acme'', ''i1'')] \<rparr>"

text \<open>What Push makes of an error that \<open>crdb.ExecuteTx\<close> returns.\<close>

definition wrap_failure :: "failure \<Rightarrow> failure" where
  "wrap_failure f =
     (case f of
        Error err \<Rightarrow> Error (if \<not> is_caos err
                             then ThrowInternal err ''SQL-DjgtG'' ''unable to store events''
                             else err)
      | NilDereference \<Rightarrow> NilDereference)"


text \<open>
  A constraint removes a key of the table: a Remove of that key, or an InstanceRemove
  (keys are stored under the instance of the context).
\<close>

definition removes_key ::
  "(string \<Rightarrow> string) \<Rightarrow> string \<times> string \<Rightarrow> UniqueConstraint option \<Rightarrow> bool" where
  "removes_key unicodeLower key uc =
     (case uc of
        None \<Rightarrow> False
      | Some d \<Rightarrow>
          (Action d = UniqueConstraintRemove
             \<and> (UniqueType d, ToLower unicodeLower (UniqueField d)) = key)
          \<or> Action d = UniqueConstraintInstanceRemove)"

text \<open>
  What becomes of the call when the function fails with \<open>f\<close> in the execution under
  \<open>env\<close>: the call fails and the store is the store before the call, or the whole
  batch is executed again on the store before the call.
\<close>

definition after_failed_attempt ::
  "(string \<Rightarrow> string) \<Rightarrow> call_context \<Rightarrow> tx_env \<Rightarrow> tx_env list \<Rightarrow> Command list \<Rightarrow> store
     \<Rightarrow> failure \<Rightarrow> store \<times> (failure + Event list)" where
  "after_failed_attempt unicodeLower ctx env retries commands st f =
     (case f of
        NilDereference \<Rightarrow> (st, Inl NilDereference)
      | Error err \<Rightarrow>
          if \<not> errIsRetryable err then (st, Inl (wrap_failure (Error err)))
          else (case restart_fault env of
                  Some rerr \<Rightarrow>
                    (st, Inl (wrap_failure (Error (TxError TxnRestartError (DBError rerr)))))
                | None \<Rightarrow>
                    (case retries of
                       [] \<Rightarrow> (st, Inl (wrap_failure (Error (TxError MaxRetriesExceededError err))))
                     | env' # rest \<Rightarrow> Push unicodeLower ctx env' rest commands st)))"

section \<open>Filter\<close>

text \<open>
  The ORDER BY clause of the event query, as the list of its sort keys:
  \<open>orderByEventSequence\<close> returns
  \<open>ORDER BY crdb_internal_mvcc_timestamp DESC, event_sequence DESC\<close> when \<open>desc\<close> is set
  and \<open>ORDER BY crdb_internal_mvcc_timestamp, event_sequence\<close> otherwise.
\<close>

datatype sort_column = crdb_internal_mvcc_timestamp | event_sequence_column

datatype sort_direction = ASC | DESC

definition orderByEventSequence :: "bool \<Rightarrow> (sort_column \<times> sort_direction) list" where
  "orderByEventSequence desc =
     (if desc then [(crdb_internal_mvcc_timestamp, DESC), (event_sequence_column, DESC)]
      else [(crdb_internal_mvcc_timestamp, ASC), (event_sequence_column, ASC)])"

fun sort_column_value :: "sort_column \<Rightarrow> event_row \<Rightarrow> nat" where
  "sort_column_value crdb_internal_mvcc_timestamp r = mvcc_timestamp r"
| "sort_column_value event_sequence_column r = event_sequence r"

text \<open>
  SQL's ORDER BY: a row comes no later than another when the first sort key on which
  they differ puts it first.
\<close>

fun order_le :: "(sort_column \<times> sort_direction) list \<Rightarrow> event_row \<Rightarrow> event_row \<Rightarrow> bool" where
  "order_le [] a b = True"
| "order_le ((c, d) # ks) a b =
     (if sort_column_value c a = sort_column_value c b then order_le ks a b
      else (case d of
              ASC \<Rightarrow> sort_column_value c a < sort_column_value c b
            | DESC \<Rightarrow> sort_column_value c b < sort_column_value c a))"

fun order_insert ::
  "(sort_column \<times> sort_direction) list \<Rightarrow> event_row \<Rightarrow> event_row list \<Rightarrow> event_row list" where
  "order_insert ks x [] = [x]"
| "order_insert ks x (y # ys) =
     (if order_le ks x y then x # y # ys else y # order_insert ks x ys)"

definition sql_order_by ::
  "(sort_column \<times> sort_direction) list \<Rightarrow> event_row list \<Rightarrow> event_row list" where
  "sql_order_by ks rows = foldr (order_insert ks) rows []"

text \<open>
  Modelled from the spec: the search query builder and the function \<open>query\<close> that Filter
  calls are declared elsewhere in the repository. Per the spec a query is a set of
  predicates on the event (here the predicate they denote), an ordering flag and a
  result limit; the events that match are read in the order of \<open>orderByEventSequence\<close>,
  cut at the limit when one is set, and a storage error is returned as an error of the
  internal kind (id and message are not given by the spec).
\<close>

record SearchQueryBuilder =
  sq_matches :: "event_row \<Rightarrow> bool"
  sq_Desc :: bool
  sq_Limit :: nat

definition query ::
  "stmt_env \<Rightarrow> SearchQueryBuilder \<Rightarrow> event_row list \<Rightarrow> go_error + event_row list" where
  "query env searchQuery rows =
     (case fault env of
        Some err \<Rightarrow> Inl (CaosError Internal (Some (DBError err)) [] [])
      | None \<Rightarrow>
          (let ordered = sql_order_by (orderByEventSequence (sq_Desc searchQuery))
                           (filter (sq_matches searchQuery) rows)
           in Inr (if sq_Limit searchQuery > 0 then take (sq_Limit searchQuery) ordered
                   else ordered)))"

definition Filter ::
  "stmt_env \<Rightarrow> SearchQueryBuilder \<Rightarrow> event_row list \<Rightarrow> go_error + event_row list" where
  "Filter env searchQuery rows =
     (case query env searchQuery rows of
        Inl err \<Rightarrow> Inl err
      | Inr evs \<Rightarrow> Inr evs)"

text \<open>Commit order: the commit timestamp first, then the sequence.\<close>

definition commit_key :: "event_row \<Rightarrow> nat \<times> nat" where
  "commit_key r = (mvcc_timestamp r, event_sequence r)"

text \<open>
  Two events of different aggregates: the one with the smaller sequence was committed
  later.
\<close>

definition example_event :: "string \<Rightarrow> nat \<Rightarrow> nat \<Rightarrow> event_row" where
  "example_event aid sq ts =
     \<lparr> row_id = aid, event_type = ''org.added'', aggregate_type = ''org'', aggregate_id = aid,
       aggregate_version = ''v1'', creation_date = ts, event_data = None, editor_user = ''u1'',
       editor_service = ''zitadel'', resource_owner = aid, instance_id = ''i1'',
       event_sequence = sq, previous_aggregate_sequence = None,
       previous_aggregate_type_sequence = None, mvcc_timestamp = ts \<rparr>"

definition example_log :: "event_row list" where
  "example_log = [example_event ''o1'' 5 10, example_event ''o2'' 1 20, example_event ''o3'' 1 10]"

definition no_fault :: stmt_env where
  "no_fault = \<lparr> fault = None, now = 0, new_id = [] \<rparr>"

section \<open>Projections\<close>

text \<open>
  An event as a reducer receives it: the interface \<open>eventstore.Event\<close> holding a value of
  one of the concrete event types, or nil. Every event has an aggregate, a creation date
  and a sequence; the concrete types add their payload.
\<close>

record BaseEvent =
  be_Aggregate :: Aggregate
  be_CreationDate :: nat
  be_Sequence :: nat

datatype event =
    NilEvent
  | ExecSetEvent BaseEvent "string list" "string list"
  | ExecRemovedEvent BaseEvent
  | SessionAddedEvent BaseEvent string
  | SessionUserCheckedEvent BaseEvent string nat
  | SessionPasswordCheckedEvent BaseEvent nat
  | SessionIntentCheckedEvent BaseEvent nat
  | SessionWebAuthNCheckedEvent BaseEvent nat bool
  | SessionTOTPCheckedEvent BaseEvent nat
  | SessionTokenSetEvent BaseEvent string
  | SessionMetadataSetEvent BaseEvent string
  | SessionTerminateEvent BaseEvent
  | HumanPasswordChangedEvent BaseEvent
  | InstanceRemovedEvent BaseEvent
  | OtherEvent BaseEvent

datatype go_type =
    exec_SetEvent
  | exec_RemovedEvent
  | session_AddedEvent
  | session_UserCheckedEvent
  | session_PasswordCheckedEvent
  | session_IntentCheckedEvent
  | session_WebAuthNCheckedEvent
  | session_TOTPCheckedEvent
  | session_TokenSetEvent
  | session_MetadataSetEvent
  | session_TerminateEvent
  | user_HumanPasswordChangedEvent
  | instance_InstanceRemovedEvent
  | other_type

text \<open>The dynamic type of the value in the interface; nil has none.\<close>

fun dynamic_type :: "event \<Rightarrow> go_type option" where
  "dynamic_type NilEvent = None"
| "dynamic_type (ExecSetEvent e targets includes) = Some exec_SetEvent"
| "dynamic_type (ExecRemovedEvent e) = Some exec_RemovedEvent"
| "dynamic_type (SessionAddedEvent e user) = Some session_AddedEvent"
| "dynamic_type (SessionUserCheckedEvent e userID checkedAt) = Some session_UserCheckedEvent"
| "dynamic_type (SessionPasswordCheckedEvent e checkedAt) = Some session_PasswordCheckedEvent"
| "dynamic_type (SessionIntentCheckedEvent e checkedAt) = Some session_IntentCheckedEvent"
| "dynamic_type (SessionWebAuthNCheckedEvent e checkedAt userVerified) = Some session_WebAuthNCheckedEvent"
| "dynamic_type (SessionTOTPCheckedEvent e checkedAt) = Some session_TOTPCheckedEvent"
| "dynamic_type (SessionTokenSetEvent e tokenID) = Some session_TokenSetEvent"
| "dynamic_type (SessionMetadataSetEvent e metadata) = Some session_MetadataSetEvent"
| "dynamic_type (SessionTerminateEvent e) = Some session_TerminateEvent"
| "dynamic_type (HumanPasswordChangedEvent e) = Some user_HumanPasswordChangedEvent"
| "dynamic_type (InstanceRemovedEvent e) = Some instance_InstanceRemovedEvent"
| "dynamic_type (OtherEvent e) = Some other_type"

subsection \<open>Statements\<close>

datatype sql_value =
    Null
  | Text string
  | Timestamp nat
  | BigInt nat
  | Boolean bool
  | TextArray "string list"
  | EnumValue nat
  | JSONB string

text \<open>
  A column of a statement is a name with a value; \<open>OnlySetValueOnInsert\<close> marks a value
  that is written when the row is inserted and not when it is updated.
\<close>

datatype col_value = Value sql_value | OnlySetValueOnInsert string sql_value

type_synonym Column = "string \<times> col_value"

definition NewCol :: "string \<Rightarrow> col_value \<Rightarrow> Column" where
  "NewCol name v = (name, v)"

datatype Condition = NewCond string sql_value | NewLessThanCond string sql_value

datatype Statement =
    NewCreateStatement BaseEvent "Column list"
  | NewUpsertStatement BaseEvent "Column list" "Column list"
  | NewUpdateStatement BaseEvent "Column list" "Condition list"
  | NewDeleteStatement BaseEvent "Condition list"

subsection \<open>The execution projection\<close>

definition ExecutionTable :: string where "ExecutionTable = ''projections.executions''"
definition ExecutionIDCol :: string where "ExecutionIDCol = ''id''"
definition ExecutionCreationDateCol :: string where "ExecutionCreationDateCol = ''creation_date''"
definition ExecutionChangeDateCol :: string where "ExecutionChangeDateCol = ''change_date''"
definition ExecutionResourceOwnerCol :: string where "ExecutionResourceOwnerCol = ''resource_owner''"
definition ExecutionInstanceIDCol :: string where "ExecutionInstanceIDCol = ''instance_id''"
definition ExecutionSequenceCol :: string where "ExecutionSequenceCol = ''sequence''"
definition ExecutionTargetsCol :: string where "ExecutionTargetsCol = ''targets''"
definition ExecutionIncludesCol :: string where "ExecutionIncludesCol = ''includes''"

text \<open>The primary key declared by \<open>Init\<close>.\<close>

definition execution_primary_key :: "string list" where
  "execution_primary_key = [ExecutionInstanceIDCol, ExecutionResourceOwnerCol, ExecutionIDCol]"

text \<open>
  The names of the aggregate types and event types the projections refer to. They are
  constants of the packages \<open>exec\<close>, \<open>instance\<close>, \<open>session\<close> and \<open>user\<close>, declared
  elsewhere in the repository, and are taken as a parameter.
\<close>

record type_names =
  exec_AggregateType :: string
  exec_SetEventType :: string
  exec_RemovedEventType :: string
  instance_AggregateType :: string
  instance_InstanceRemovedEventType :: string
  session_AggregateType :: string
  session_AddedType :: string
  session_UserCheckedType :: string
  session_PasswordCheckedType :: string
  session_IntentCheckedType :: string
  session_WebAuthNCheckedType :: string
  session_TOTPCheckedType :: string
  session_TokenSetType :: string
  session_MetadataSetType :: string
  session_TerminateType :: string
  user_AggregateType :: string
  user_HumanPasswordChangedType :: string

definition reduceExecutionSet :: "type_names \<Rightarrow> event \<Rightarrow> go_error + Statement" where
  "reduceExecutionSet tn ev =
     (case ev of
        ExecSetEvent e targets includes \<Rightarrow>
          (let columns =
                 [NewCol ExecutionInstanceIDCol (Value (Text (agg_InstanceID (be_Aggregate e)))),
                  NewCol ExecutionResourceOwnerCol (Value (Text (agg_ResourceOwner (be_Aggregate e)))),
                  NewCol ExecutionIDCol (Value (Text (agg_ID (be_Aggregate e)))),
                  NewCol ExecutionCreationDateCol
                    (OnlySetValueOnInsert ExecutionTable (Timestamp (be_CreationDate e))),
                  NewCol ExecutionChangeDateCol (Value (Timestamp (be_CreationDate e))),
                  NewCol ExecutionSequenceCol (Value (BigInt (be_Sequence e))),
                  NewCol ExecutionTargetsCol (Value (TextArray targets)),
                  NewCol ExecutionIncludesCol (Value (TextArray includes))]
           in Inr (NewUpsertStatement e (take 3 columns) columns))
      | _ \<Rightarrow> Inl (ThrowInvalidArgumentf ''HANDL-jiozfjitr5'' ''reduce.wrong.event.type% s''
                 (exec_SetEventType tn)))"

definition reduceExecutionRemoved :: "type_names \<Rightarrow> event \<Rightarrow> go_error + Statement" where
  "reduceExecutionRemoved tn ev =
     (case ev of
        ExecRemovedEvent e \<Rightarrow>
          Inr (NewDeleteStatement e
                 [NewCond ExecutionInstanceIDCol (Text (agg_InstanceID (be_Aggregate e))),
                  NewCond ExecutionResourceOwnerCol (Text (agg_ResourceOwner (be_Aggregate e))),
                  NewCond ExecutionIDCol (Text (agg_ID (be_Aggregate e)))])
      | _ \<Rightarrow> Inl (ThrowInvalidArgumentf ''HANDL-t51ipx55r2'' ''reduce.wrong.event.type %s''
                 (exec_RemovedEventType tn)))"

text \<open>
  Modelled from the spec: \<open>reduceInstanceRemovedHelper\<close> is declared elsewhere in the
  repository. Per the spec the reducer of an instance removal deletes by the instance ID
  alone, and a reducer given an event of another runtime type reports an error of the
  invalid-argument kind. The spec gives no identifier for that error; it is left empty, and
  the message is formed as the reducers of the sources form theirs.
\<close>

definition reduceInstanceRemovedHelper :: "type_names \<Rightarrow> string \<Rightarrow> event \<Rightarrow> go_error + Statement" where
  "reduceInstanceRemovedHelper tn instanceIDCol ev =
     (case ev of
        InstanceRemovedEvent e \<Rightarrow>
          Inr (NewDeleteStatement e [NewCond instanceIDCol (Text (agg_InstanceID (be_Aggregate e)))])
      | _ \<Rightarrow> Inl (ThrowInvalidArgumentf [] ''reduce.wrong.event.type %s''
                 (instance_InstanceRemovedEventType tn)))"

text \<open>
  The registrations of \<open>Reducers\<close>: per aggregate type the event types and their
  reducers.
\<close>

definition execution_Reducers ::
  "type_names \<Rightarrow> (string \<times> (string \<times> (event \<Rightarrow> go_error + Statement)) list) list" where
  "execution_Reducers tn =
     [(exec_AggregateType tn,
         [(exec_SetEventType tn, reduceExecutionSet tn),
          (exec_RemovedEventType tn, reduceExecutionRemoved tn)]),
      (instance_AggregateType tn,
         [(instance_InstanceRemovedEventType tn, reduceInstanceRemovedHelper tn ExecutionInstanceIDCol)])]"

subsection \<open>The session projection\<close>

definition SessionsProjectionTable :: string where "SessionsProjectionTable = ''projections.sessions4''"
definition SessionColumnID :: string where "SessionColumnID = ''id''"
definition SessionColumnCreationDate :: string where "SessionColumnCreationDate = ''creation_date''"
definition SessionColumnChangeDate :: string where "SessionColumnChangeDate = ''change_date''"
definition SessionColumnSequence :: string where "SessionColumnSequence = ''sequence''"
definition SessionColumnState :: string where "SessionColumnState = ''state''"
definition SessionColumnResourceOwner :: string where "SessionColumnResourceOwner = ''resource_owner''"
definition SessionColumnInstanceID :: string where "SessionColumnInstanceID = ''instance_id''"
definition SessionColumnCreator :: string where "SessionColumnCreator = ''creator''"
definition SessionColumnUserID :: string where "SessionColumnUserID = ''user_id''"
definition SessionColumnUserCheckedAt :: string where "SessionColumnUserCheckedAt = ''user_checked_at''"
definition SessionColumnPasswordCheckedAt :: string where "SessionColumnPasswordCheckedAt = ''password_checked_at''"
definition SessionColumnIntentCheckedAt :: string where "SessionColumnIntentCheckedAt = ''intent_checked_at''"
definition SessionColumnWebAuthNCheckedAt :: string where "SessionColumnWebAuthNCheckedAt = ''webauthn_checked_at''"
definition SessionColumnWebAuthNUserVerified :: string where "SessionColumnWebAuthNUserVerified = ''webauthn_user_verified''"
definition SessionColumnTOTPCheckedAt :: string where "SessionColumnTOTPCheckedAt = ''totp_checked_at''"
definition SessionColumnMetadata :: string where "SessionColumnMetadata = ''metadata''"
definition SessionColumnTokenID :: string where "SessionColumnTokenID = ''token_id''"

definition session_primary_key :: "string list" where
  "session_primary_key = [SessionColumnInstanceID, SessionColumnID]"

text \<open>
  Modelled from the spec: \<open>domain.SessionStateActive\<close> and \<open>SMSColumnInstanceID\<close> are
  declared elsewhere in the repository: the state of a session that is in use, and the
  instance column of another projection (the spec scopes every projection table by one
  instance column).
\<close>

definition SessionStateActive :: nat where "SessionStateActive = 1"

definition SMSColumnInstanceID :: string where "SMSColumnInstanceID = ''instance_id''"

definition reduceSessionAdded :: "type_names \<Rightarrow> event \<Rightarrow> go_error + Statement" where
  "reduceSessionAdded tn ev =
     (case ev of
        SessionAddedEvent e user \<Rightarrow>
          Inr (NewCreateStatement e
                 [NewCol SessionColumnID (Value (Text (agg_ID (be_Aggregate e)))),
                  NewCol SessionColumnInstanceID (Value (Text (agg_InstanceID (be_Aggregate e)))),
                  NewCol SessionColumnCreationDate (Value (Timestamp (be_CreationDate e))),
                  NewCol SessionColumnChangeDate (Value (Timestamp (be_CreationDate e))),
                  NewCol SessionColumnResourceOwner (Value (Text (agg_ResourceOwner (be_Aggregate e)))),
                  NewCol SessionColumnState (Value (EnumValue SessionStateActive)),
                  NewCol SessionColumnSequence (Value (BigInt (be_Sequence e))),
                  NewCol SessionColumnCreator (Value (Text user))])
      | _ \<Rightarrow> Inl (ThrowInvalidArgumentf ''HANDL-Sfrgf'' ''reduce.wrong.event.type %s''
                 (session_AddedType tn)))"

definition reduceUserChecked :: "type_names \<Rightarrow> event \<Rightarrow> go_error + Statement" where
  "reduceUserChecked tn ev =
     (case ev of
        SessionUserCheckedEvent e userID checkedAt \<Rightarrow>
          Inr (NewUpdateStatement e
                 [NewCol SessionColumnChangeDate (Value (Timestamp (be_CreationDate e))),
                  NewCol SessionColumnSequence (Value (BigInt (be_Sequence e))),
                  NewCol SessionColumnUserID (Value (Text userID)),
                  NewCol SessionColumnUserCheckedAt (Value (Timestamp checkedAt))]
                 [NewCond SessionColumnID (Text (agg_ID (be_Aggregate e))),
                  NewCond SessionColumnInstanceID (Text (agg_InstanceID (be_Aggregate e)))])
      | _ \<Rightarrow> Inl (ThrowInvalidArgumentf ''HANDL-saDg5'' ''reduce.wrong.event.type %s''
                 (session_UserCheckedType tn)))"

definition reducePasswordChecked :: "type_names \<Rightarrow> event \<Rightarrow> go_error + Statement" where
  "reducePasswordChecked tn ev =
     (case ev of
        SessionPasswordCheckedEvent e checkedAt \<Rightarrow>
          Inr (NewUpdateStatement e
                 [NewCol SessionColumnChangeDate (Value (Timestamp (be_CreationDate e))),
                  NewCol SessionColumnSequence (Value (BigInt (be_Sequence e))),
                  NewCol SessionColumnPasswordCheckedAt (Value (Timestamp checkedAt))]
                 [NewCond SessionColumnID (Text (agg_ID (be_Aggregate e))),
                  NewCond SessionColumnInstanceID (Text (agg_InstanceID (be_Aggregate e)))])
      | _ \<Rightarrow> Inl (ThrowInvalidArgumentf ''HANDL-SDgrb'' ''reduce.wrong.event.type %s''
                 (session_PasswordCheckedType tn)))"

definition reduceIntentChecked :: "type_names \<Rightarrow> event \<Rightarrow> go_error + Statement" where
  "reduceIntentChecked tn ev =
     (case ev of
        SessionIntentCheckedEvent e checkedAt \<Rightarrow>
          Inr (NewUpdateStatement e
                 [NewCol SessionColumnChangeDate (Value (Timestamp (be_CreationDate e))),
                  NewCol SessionColumnSequence (Value (BigInt (be_Sequence e))),
                  NewCol SessionColumnIntentCheckedAt (Value (Timestamp checkedAt))]
                 [NewCond SessionColumnID (Text (agg_ID (be_Aggregate e))),
                  NewCond SessionColumnInstanceID (Text (agg_InstanceID (be_Aggregate e)))])
      | _ \<Rightarrow> Inl (ThrowInvalidArgumentf ''HANDL-SDgr2'' ''reduce.wrong.event.type %s''
                 (session_IntentCheckedType tn)))"

definition reduceWebAuthNChecked :: "type_names \<Rightarrow> event \<Rightarrow> go_error + Statement" where
  "reduceWebAuthNChecked tn ev =
     (case ev of
        SessionWebAuthNCheckedEvent e checkedAt userVerified \<Rightarrow>
          Inr (NewUpdateStatement e
                 [NewCol SessionColumnChangeDate (Value (Timestamp (be_CreationDate e))),
                  NewCol SessionColumnSequence (Value (BigInt (be_Sequence e))),
                  NewCol SessionColumnWebAuthNCheckedAt (Value (Timestamp checkedAt)),
                  NewCol SessionColumnWebAuthNUserVerified (Value (Boolean userVerified))]
                 [NewCond SessionColumnID (Text (agg_ID (be_Aggregate e))),
                  NewCond SessionColumnInstanceID (Text (agg_InstanceID (be_Aggregate e)))])
      | _ \<Rightarrow> Inl (ThrowInvalidArgumentf ''HANDL-WieM4'' ''reduce.wrong.event.type %s''
                 (session_WebAuthNCheckedType tn)))"

definition reduceTOTPChecked :: "type_names \<Rightarrow> event \<Rightarrow> go_error + Statement" where
  "reduceTOTPChecked tn ev =
     (case ev of
        SessionTOTPCheckedEvent e checkedAt \<Rightarrow>
          Inr (NewUpdateStatement e
                 [NewCol SessionColumnChangeDate (Value (Timestamp (be_CreationDate e))),
                  NewCol SessionColumnSequence (Value (BigInt (be_Sequence e))),
                  NewCol SessionColumnTOTPCheckedAt (Value (Timestamp checkedAt))]
                 [NewCond SessionColumnID (Text (agg_ID (be_Aggregate e))),
                  NewCond SessionColumnInstanceID (Text (agg_InstanceID (be_Aggregate e)))])
      | _ \<Rightarrow> Inl (ThrowInvalidArgumentf ''HANDL-Oqu8i'' ''reduce.wrong.event.type %s''
                 (session_TOTPCheckedType tn)))"

definition reduceTokenSet :: "type_names \<Rightarrow> event \<Rightarrow> go_error + Statement" where
  "reduceTokenSet tn ev =
     (case ev of
        SessionTokenSetEvent e tokenID \<Rightarrow>
          Inr (NewUpdateStatement e
                 [NewCol SessionColumnChangeDate (Value (Timestamp (be_CreationDate e))),
                  NewCol SessionColumnSequence (Value (BigInt (be_Sequence e))),
                  NewCol SessionColumnTokenID (Value (Text tokenID))]
                 [NewCond SessionColumnID (Text (agg_ID (be_Aggregate e))),
                  NewCond SessionColumnInstanceID (Text (agg_InstanceID (be_Aggregate e)))])
      | _ \<Rightarrow> Inl (ThrowInvalidArgumentf ''HANDL-SAfd3'' ''reduce.wrong.event.type %s''
                 (session_TokenSetType tn)))"

definition reduceMetadataSet :: "type_names \<Rightarrow> event \<Rightarrow> go_error + Statement" where
  "reduceMetadataSet tn ev =
     (case ev of
        SessionMetadataSetEvent e metadata \<Rightarrow>
          Inr (NewUpdateStatement e
                 [NewCol SessionColumnChangeDate (Value (Timestamp (be_CreationDate e))),
                  NewCol SessionColumnSequence (Value (BigInt (be_Sequence e))),
                  NewCol SessionColumnMetadata (Value (JSONB metadata))]
                 [NewCond SessionColumnID (Text (agg_ID (be_Aggregate e))),
                  NewCond SessionColumnInstanceID (Text (agg_InstanceID (be_Aggregate e)))])
      | _ \<Rightarrow> Inl (ThrowInvalidArgumentf ''HANDL-SAfd3'' ''reduce.wrong.event.type %s''
                 (session_MetadataSetType tn)))"

definition reduceSessionTerminated :: "type_names \<Rightarrow> event \<Rightarrow> go_error + Statement" where
  "reduceSessionTerminated tn ev =
     (case ev of
        SessionTerminateEvent e \<Rightarrow>
          Inr (NewDeleteStatement e
                 [NewCond SessionColumnID (Text (agg_ID (be_Aggregate e))),
                  NewCond SessionColumnInstanceID (Text (agg_InstanceID (be_Aggregate e)))])
      | _ \<Rightarrow> Inl (ThrowInvalidArgumentf ''HANDL-SAftn'' ''reduce.wrong.event.type %s''
                 (session_TerminateType tn)))"

definition reducePasswordChanged :: "type_names \<Rightarrow> event \<Rightarrow> go_error + Statement" where
  "reducePasswordChanged tn ev =
     (case ev of
        HumanPasswordChangedEvent e \<Rightarrow>
          Inr (NewUpdateStatement e
                 [NewCol SessionColumnPasswordCheckedAt (Value Null)]
                 [NewCond SessionColumnUserID (Text (agg_ID (be_Aggregate e))),
                  NewLessThanCond SessionColumnPasswordCheckedAt (Timestamp (be_CreationDate e))])
      | _ \<Rightarrow> Inl (ThrowInvalidArgumentf ''HANDL-Deg3d'' ''reduce.wrong.event.type %s''
                 (user_HumanPasswordChangedType tn)))"

definition session_Reducers ::
  "type_names \<Rightarrow> (string \<times> (string \<times> (event \<Rightarrow> go_error + Statement)) list) list" where
  "session_Reducers tn =
     [(session_AggregateType tn,
         [(session_AddedType tn, reduceSessionAdded tn),
          (session_UserCheckedType tn, reduceUserChecked tn),
          (session_PasswordCheckedType tn, reducePasswordChecked tn),
          (session_IntentCheckedType tn, reduceIntentChecked tn),
          (session_WebAuthNCheckedType tn, reduceWebAuthNChecked tn),
          (session_TOTPCheckedType tn, reduceTOTPChecked tn),
          (session_TokenSetType tn, reduceTokenSet tn),
          (session_MetadataSetType tn, reduceMetadataSet tn),
          (session_TerminateType tn, reduceSessionTerminated tn)]),
      (instance_AggregateType tn,
         [(instance_InstanceRemovedEventType tn, reduceInstanceRemovedHelper tn SMSColumnInstanceID)]),
      (user_AggregateType tn,
         [(user_HumanPasswordChangedType tn, reducePasswordChanged tn)])]"

text \<open>All reducers the two projections register, in the order of registration.\<close>

definition registered_reducers :: "type_names \<Rightarrow> (event \<Rightarrow> go_error + Statement) list" where
  "registered_reducers tn = map snd (concat (map snd (execution_Reducers tn @ session_Reducers tn)))"

text \<open>The concrete type each reducer asserts its event to have.\<close>

definition asserted_types :: "type_names \<Rightarrow> ((event \<Rightarrow> go_error + Statement) \<times> go_type) list" where
  "asserted_types tn =
     [(reduceExecutionSet tn, exec_SetEvent),
      (reduceExecutionRemoved tn, exec_RemovedEvent),
      (reduceInstanceRemovedHelper tn ExecutionInstanceIDCol, instance_InstanceRemovedEvent),
      (reduceSessionAdded tn, session_AddedEvent),
      (reduceUserChecked tn, session_UserCheckedEvent),
      (reducePasswordChecked tn, session_PasswordCheckedEvent),
      (reduceIntentChecked tn, session_IntentCheckedEvent),
      (reduceWebAuthNChecked tn, session_WebAuthNCheckedEvent),
      (reduceTOTPChecked tn, session_TOTPCheckedEvent),
      (reduceTokenSet tn, session_TokenSetEvent),
      (reduceMetadataSet tn, session_MetadataSetEvent),
      (reduceSessionTerminated tn, session_TerminateEvent),
      (reduceInstanceRemovedHelper tn SMSColumnInstanceID, instance_InstanceRemovedEvent),
      (reducePasswordChanged tn, user_HumanPasswordChangedEvent)]"

subsection \<open>Applying a statement\<close>

text \<open>
  Modelled from the spec: the handler that executes a statement on the table of its
  projection is declared elsewhere in the repository. Per the spec
  \<^item> a create inserts the row, and is a no-op when a row with the same primary key exists
    (the event is replayed);
  \<^item> an upsert inserts the row, or updates the rows that agree with it on the conflict
    columns, leaving columns marked \<open>OnlySetValueOnInsert\<close> as they are;
  \<^item> an update sets the columns of every row that satisfies all conditions, and a delete
    removes every such row; that no row matches is not an error.
  A row maps column names to values. A condition compares the way SQL does: a
  comparison with NULL, or of a column the row does not have, selects nothing.
\<close>

type_synonym row = "string \<rightharpoonup> sql_value"

fun value_of :: "col_value \<Rightarrow> sql_value" where
  "value_of (Value v) = v"
| "value_of (OnlySetValueOnInsert tab v) = v"

fun only_on_insert :: "Column \<Rightarrow> bool" where
  "only_on_insert (name, OnlySetValueOnInsert tab v) = True"
| "only_on_insert (name, Value v) = False"

definition row_of :: "Column list \<Rightarrow> row" where
  "row_of columns = map_of (map (\<lambda>(name, v). (name, value_of v)) columns)"

definition updated_columns :: "Column list \<Rightarrow> Column list" where
  "updated_columns columns = filter (\<lambda>c. \<not> only_on_insert c) columns"

fun sql_less :: "sql_value \<Rightarrow> sql_value \<Rightarrow> bool" where
  "sql_less (Timestamp a) (Timestamp b) = (a < b)"
| "sql_less (BigInt a) (BigInt b) = (a < b)"
| "sql_less a b = False"

fun cond_holds :: "row \<Rightarrow> Condition \<Rightarrow> bool" where
  "cond_holds r (NewCond name v) =
     (case r name of None \<Rightarrow> False | Some x \<Rightarrow> x \<noteq> Null \<and> v \<noteq> Null \<and> x = v)"
| "cond_holds r (NewLessThanCond name v) =
     (case r name of None \<Rightarrow> False | Some x \<Rightarrow> sql_less x v)"

definition conds_hold :: "Condition list \<Rightarrow> row \<Rightarrow> bool" where
  "conds_hold conds r = list_all (cond_holds r) conds"

definition same_key :: "string list \<Rightarrow> row \<Rightarrow> row \<Rightarrow> bool" where
  "same_key pk r r' = list_all (\<lambda>c. r c = r' c) pk"

definition conflict_conds :: "Column list \<Rightarrow> Condition list" where
  "conflict_conds conflictCols = map (\<lambda>(name, v). NewCond name (value_of v)) conflictCols"

fun execute :: "string list \<Rightarrow> Statement \<Rightarrow> row list \<Rightarrow> row list" where
  "execute pk (NewCreateStatement e columns) rows =
     (if list_ex (same_key pk (row_of columns)) rows then rows else rows @ [row_of columns])"
| "execute pk (NewUpsertStatement e conflictCols columns) rows =
     (if list_ex (conds_hold (conflict_conds conflictCols)) rows
      then map (\<lambda>r. if conds_hold (conflict_conds conflictCols) r
                     then r ++ row_of (updated_columns columns) else r) rows
      else rows @ [row_of columns])"
| "execute pk (NewUpdateStatement e columns conds) rows =
     map (\<lambda>r. if conds_hold conds r then r ++ row_of columns else r) rows"
| "execute pk (NewDeleteStatement e conds) rows =
     filter (\<lambda>r. \<not> conds_hold conds r) rows"

text \<open>A statement whose repetition the model can follow: the names of its columns differ,
  and an upsert finds its own row again (the conflict columns are columns of the row,
  none of them NULL).\<close>

fun well_formed :: "Statement \<Rightarrow> bool" where
  "well_formed (NewUpsertStatement e conflictCols columns) =
     (distinct (map fst columns) \<and> set conflictCols \<subseteq> set columns
      \<and> list_all (\<lambda>c. value_of (snd c) \<noteq> Null \<and> \<not> only_on_insert c) conflictCols)"
| "well_formed s = True"

text \<open>Example events and rows.\<close>

definition example_base :: BaseEvent where
  "example_base =
     \<lparr> be_Aggregate = \<lparr> agg_ID = ''x1'', agg_Type = ''execution'', agg_ResourceOwner = ''i1'',
                        agg_InstanceID = ''i1'', agg_Version = ''v1'' \<rparr>,
       be_CreationDate = 50, be_Sequence = 7 \<rparr>"

definition example_type_names :: type_names where
  "example_type_names =
     \<lparr> exec_AggregateType = ''execution'',
       exec_SetEventType = ''execution.set'',
       exec_RemovedEventType = ''execution.removed'',
       instance_AggregateType = ''instance'',
       instance_InstanceRemovedEventType = ''instance.removed'',
       session_AggregateType = ''session'',
       session_AddedType = ''session.added'',
       session_UserCheckedType = ''session.user.checked'',
       session_PasswordCheckedType = ''session.password.checked'',
       session_IntentCheckedType = ''session.intent.checked'',
       session_WebAuthNCheckedType = ''session.webAuthN.checked'',
       session_TOTPCheckedType = ''session.totp.checked'',
       session_TokenSetType = ''session.token.set'',
       session_MetadataSetType = ''session.metadata.set'',
       session_TerminateType = ''session.terminated'',
       user_AggregateType = ''user'',
       user_HumanPasswordChangedType = ''user.human.password.changed'' \<rparr>"

definition example_execution_row :: row where
  "example_execution_row =
     [''instance_id'' \<mapsto> Text ''i1'', ''resource_owner'' \<mapsto> Text ''i1'', ''id'' \<mapsto> Text ''x1'',
      ''creation_date'' \<mapsto> Timestamp 10, ''change_date'' \<mapsto> Timestamp 10,
      ''sequence'' \<mapsto> BigInt 3, ''targets'' \<mapsto> TextArray [], ''includes'' \<mapsto> TextArray []]"

definition example_session_row :: "string \<Rightarrow> string \<Rightarrow> sql_value \<Rightarrow> row" where
  "example_session_row sid uid checked =
     [''id'' \<mapsto> Text sid, ''instance_id'' \<mapsto> Text ''i1'', ''user_id'' \<mapsto> Text uid,
      ''password_checked_at'' \<mapsto> checked]"

text \<open>The columns \<open>reduceExecutionSet\<close> writes for an event.\<close>

definition execution_set_columns :: "BaseEvent \<Rightarrow> string list \<Rightarrow> string list \<Rightarrow> Column list" where
  "execution_set_columns e targets includes =
     [NewCol ExecutionInstanceIDCol (Value (Text (agg_InstanceID (be_Aggregate e)))),
      NewCol ExecutionResourceOwnerCol (Value (Text (agg_ResourceOwner (be_Aggregate e)))),
      NewCol ExecutionIDCol (Value (Text (agg_ID (be_Aggregate e)))),
      NewCol ExecutionCreationDateCol
        (OnlySetValueOnInsert ExecutionTable (Timestamp (be_CreationDate e))),
      NewCol ExecutionChangeDateCol (Value (Timestamp (be_CreationDate e))),
      NewCol ExecutionSequenceCol (Value (BigInt (be_Sequence e))),
      NewCol ExecutionTargetsCol (Value (TextArray targets)),
      NewCol ExecutionIncludesCol (Value (TextArray includes))]"

definition example_sessions :: "row list" where
  "example_sessions =
     [example_session_row ''s1'' ''x1'' (Timestamp 40),
      example_session_row ''s2'' ''x1'' (Timestamp 60),
      example_session_row ''s3'' ''u9'' (Timestamp 40),
      example_session_row ''s4'' ''x1'' Null]"

section \<open>The query layer\<close>

text \<open>
  A column of a read-model table and its table; \<open>identifier\<close> is the qualified name by
  which a statement refers to the column. A row of the table maps these names to values.
\<close>

record query_table =
  tbl_name :: string
  tbl_instanceIDCol :: string

record query_Column =
  col_name :: string
  col_table :: query_table

definition col_identifier :: "query_Column \<Rightarrow> string" where
  "col_identifier c = tbl_name (col_table c) @ ''.'' @ col_name c"

definition executionTable :: query_table where
  "executionTable = \<lparr> tbl_name = ExecutionTable, tbl_instanceIDCol = ExecutionInstanceIDCol \<rparr>"

definition ExecutionColumnID :: query_Column where
  "ExecutionColumnID = \<lparr> col_name = ExecutionIDCol, col_table = executionTable \<rparr>"

definition ExecutionColumnCreationDate :: query_Column where
  "ExecutionColumnCreationDate = \<lparr> col_name = ExecutionCreationDateCol, col_table = executionTable \<rparr>"

definition ExecutionColumnChangeDate :: query_Column where
  "ExecutionColumnChangeDate = \<lparr> col_name = ExecutionChangeDateCol, col_table = executionTable \<rparr>"

definition ExecutionColumnResourceOwner :: query_Column where
  "ExecutionColumnResourceOwner = \<lparr> col_name = ExecutionResourceOwnerCol, col_table = executionTable \<rparr>"

definition ExecutionColumnInstanceID :: query_Column where
  "ExecutionColumnInstanceID = \<lparr> col_name = ExecutionInstanceIDCol, col_table = executionTable \<rparr>"

definition ExecutionColumnSequence :: query_Column where
  "ExecutionColumnSequence = \<lparr> col_name = ExecutionSequenceCol, col_table = executionTable \<rparr>"

definition ExecutionColumnTargets :: query_Column where
  "ExecutionColumnTargets = \<lparr> col_name = ExecutionTargetsCol, col_table = executionTable \<rparr>"

definition ExecutionColumnIncludes :: query_Column where
  "ExecutionColumnIncludes = \<lparr> col_name = ExecutionIncludesCol, col_table = executionTable \<rparr>"

record Execution =
  exe_ID :: string
  exe_CreationDate :: nat
  exe_ChangeDate :: nat
  exe_ResourceOwner :: string
  exe_Sequence :: nat
  exe_Targets :: "string list"
  exe_Includes :: "string list"

text \<open>
  \<open>sq.Eq\<close>: every named column equals its value. The values of the queries below are
  strings; a column that is NULL or missing equals none.
\<close>

type_synonym Eq = "(string \<times> sql_value) list"

definition eq_holds :: "Eq \<Rightarrow> row \<Rightarrow> bool" where
  "eq_holds eq r = list_all (\<lambda>(name, v). v \<noteq> Null \<and> r name = Some v) eq"

text \<open>
  The scan function of \<open>prepareExecutionQuery\<close>: the seven selected columns are read
  into an Execution; no row gives the error NotFound, every other failure of the scan
  the error Internal.
\<close>

definition no_rows :: go_error where
  "no_rows = DBError (OtherDBError ''sql: no rows in result set'')"

definition scan_execution :: "row \<Rightarrow> db_error + Execution" where
  "scan_execution r =
     (case (r (col_identifier ExecutionColumnID), r (col_identifier ExecutionColumnCreationDate),
            r (col_identifier ExecutionColumnChangeDate), r (col_identifier ExecutionColumnResourceOwner),
            r (col_identifier ExecutionColumnSequence), r (col_identifier ExecutionColumnTargets),
            r (col_identifier ExecutionColumnIncludes)) of
        (Some (Text i), Some (Timestamp cr), Some (Timestamp ch), Some (Text ro),
         Some (BigInt sq), Some (TextArray ts), Some (TextArray incl)) \<Rightarrow>
          Inr \<lparr> exe_ID = i, exe_CreationDate = cr, exe_ChangeDate = ch, exe_ResourceOwner = ro,
                exe_Sequence = sq, exe_Targets = ts, exe_Includes = incl \<rparr>
      | _ \<Rightarrow> Inl (OtherDBError ''sql: Scan error''))"

definition prepareExecutionQuery_scan :: "(db_error + row option) \<Rightarrow> go_error + Execution" where
  "prepareExecutionQuery_scan res =
     (case res of
        Inl err \<Rightarrow> Inl (ThrowInternal (DBError err) ''QUERY-f8sjvm4tb8'' ''Errors.Internal'')
      | Inr None \<Rightarrow> Inl (ThrowNotFound no_rows ''QUERY-qzn1xycesh'' ''Errors.Execution.NotFound'')
      | Inr (Some r) \<Rightarrow>
          (case scan_execution r of
             Inl err \<Rightarrow> Inl (ThrowInternal (DBError err) ''QUERY-f8sjvm4tb8'' ''Errors.Internal'')
           | Inr execution \<Rightarrow> Inr execution))"

text \<open>
  Modelled from the spec: \<open>genericGetByID\<close>, \<open>genericSearch\<close>, \<open>where\<close>, \<open>whereWrapper\<close>, the
  search request and the search queries are declared elsewhere in the repository. Per the
  spec a read of one row returns the row its conditions select, or NotFound; a search
  returns the rows that satisfy its conditions and the queries of the caller (here the
  predicate they denote), cut by offset and limit.
\<close>

definition query_row :: "stmt_env \<Rightarrow> (row \<Rightarrow> bool) \<Rightarrow> row list \<Rightarrow> db_error + row option" where
  "query_row env cond rows =
     (case fault env of
        Some err \<Rightarrow> Inl err
      | None \<Rightarrow> (case filter cond rows of [] \<Rightarrow> Inr None | r # rs \<Rightarrow> Inr (Some r)))"

definition genericGetByID ::
  "stmt_env \<Rightarrow> ((db_error + row option) \<Rightarrow> go_error + 'a) \<Rightarrow> (row \<Rightarrow> bool) \<Rightarrow> row list
     \<Rightarrow> go_error + 'a" where
  "genericGetByID env scan cond rows = scan (query_row env cond rows)"

record SearchQueries =
  sr_Offset :: nat
  sr_Limit :: nat
  sr_Queries :: "row \<Rightarrow> bool"

definition toQuery :: "SearchQueries \<Rightarrow> row list \<Rightarrow> row list" where
  "toQuery queries rows =
     (let sel = drop (sr_Offset queries) (filter (sr_Queries queries) rows)
      in if sr_Limit queries > 0 then take (sr_Limit queries) sel else sel)"

text \<open>The rows the statement of \<open>SearchExecutions\<close> selects (the condition on the instance
  is part of the WHERE clause, in front of offset and limit).\<close>

definition SearchExecutions_rows :: "call_context \<Rightarrow> SearchQueries \<Rightarrow> row list \<Rightarrow> row list" where
  "SearchExecutions_rows ctx queries rows =
     (let eq = [(col_identifier ExecutionColumnInstanceID, Text (ctx_InstanceID ctx))]
      in toQuery queries (filter (eq_holds eq) rows))"

definition GetExecutionByID ::
  "stmt_env \<Rightarrow> call_context \<Rightarrow> string \<Rightarrow> string \<Rightarrow> row list \<Rightarrow> go_error + Execution" where
  "GetExecutionByID env ctx ident resourceOwner rows =
     (let eq = [(col_identifier ExecutionColumnID, Text ident),
                (col_identifier ExecutionColumnResourceOwner, Text resourceOwner),
                (col_identifier ExecutionColumnInstanceID, Text resourceOwner)]
      in genericGetByID env prepareExecutionQuery_scan (eq_holds eq) rows)"

text \<open>
  The organisations: the names of table and instance column are declared elsewhere in the
  repository and are parameters of the search.
\<close>

definition SearchOrgs_rows ::
  "string \<Rightarrow> call_context \<Rightarrow> SearchQueries \<Rightarrow> row list \<Rightarrow> row list" where
  "SearchOrgs_rows OrgColumnInstanceID_identifier ctx queries rows =
     (let eq = [(OrgColumnInstanceID_identifier, Text (ctx_InstanceID ctx))]
      in toQuery queries (filter (eq_holds eq) rows))"

text \<open>An execution of the instance \<open>i2\<close>.\<close>

definition execution_of_i2 :: row where
  "execution_of_i2 =
     [''projections.executions.id'' \<mapsto> Text ''x1'',
      ''projections.executions.creation_date'' \<mapsto> Timestamp 10,
      ''projections.executions.change_date'' \<mapsto> Timestamp 10,
      ''projections.executions.resource_owner'' \<mapsto> Text ''i2'',
      ''projections.executions.instance_id'' \<mapsto> Text ''i2'',
      ''projections.executions.sequence'' \<mapsto> BigInt 3,
      ''projections.executions.targets'' \<mapsto> TextArray [''t1''],
      ''projections.executions.includes'' \<mapsto> TextArray []]"

lemma max_seq_row_None: "max_seq_row rs = None \<longleftrightarrow> rs = []"
  by (induction rs) (auto split: option.splits)

lemma max_seq_row_Some:
  "max_seq_row rs = Some m \<Longrightarrow> m \<in> set rs \<and> (\<forall>r\<in>set rs. event_sequence r \<le> event_sequence m)"
proof (induction rs arbitrary: m)
  case Nil
  then show ?case by simp
next
  case (Cons a rs)
  then show ?case
    by (fastforce split: option.splits if_splits simp: max_seq_row_None)
qed

lemma max_seq_row_Max:
  assumes "max_seq_row rs = Some m"
  shows "event_sequence m = Max (event_sequence ` set rs)"
proof -
  from max_seq_row_Some [OF assms]
  have m: "m \<in> set rs" and le: "\<forall>r\<in>set rs. event_sequence r \<le> event_sequence m" by auto
  show ?thesis
    by (rule sym, rule Max_eqI) (use m le in auto)
qed

lemma COALESCE_next_sequence:
  "Suc (COALESCE (map_option event_sequence (max_seq_row (filter (of_aggregate typ aid inst) rows))) 0)
     = next_sequence rows typ aid inst"
proof (cases "max_seq_row (filter (of_aggregate typ aid inst) rows)")
  case None
  then have "filter (of_aggregate typ aid inst) rows = []" by (simp add: max_seq_row_None)
  then have "{r \<in> set rows. of_aggregate typ aid inst r} = {}"
    by (auto simp: filter_empty_conv)
  with None show ?thesis by (simp add: COALESCE_def next_sequence_def)
next
  case (Some m)
  have eq: "{r \<in> set rows. of_aggregate typ aid inst r} = set (filter (of_aggregate typ aid inst) rows)"
    by auto
  from max_seq_row_Some [OF Some] have "m \<in> set (filter (of_aggregate typ aid inst) rows)" by simp
  then have ne: "event_sequence ` {r \<in> set rows. of_aggregate typ aid inst r} \<noteq> {}"
    by auto
  from max_seq_row_Max [OF Some]
  have "event_sequence m = Max (event_sequence ` {r \<in> set rows. of_aggregate typ aid inst r})"
    by (simp only: eq)
  with ne Some show ?thesis
    unfolding next_sequence_def Let_def by (simp add: COALESCE_def del: image_is_empty)
qed

lemma crdbInsert_Inr:
  assumes "crdbInsert env ts rows p = Inr (rows', r)"
  shows "rows' = rows @ [r]"
    and "event_sequence r = next_sequence rows (p2_aggregate_type p) (p3_aggregate_id p) (p9_instance_id p)"
    and "aggregate_type r = p2_aggregate_type p"
    and "aggregate_id r = p3_aggregate_id p"
    and "instance_id r = p9_instance_id p"
    and "event_type r = p1_event_type p"
    and "event_data r = p5_event_data p"
    and "row_id r = new_id env"
    and "creation_date r = now env"
    and "resource_owner r =
           COALESCE (map_option resource_owner
                       (max_seq_row (filter (of_aggregate (p2_aggregate_type p) (p3_aggregate_id p) (p9_instance_id p)) rows)))
                    (p8_resource_owner p)"
  using assms
  unfolding crdbInsert_def previous_data_def Let_def
  by (auto split: option.splits if_splits simp: COALESCE_next_sequence)

lemma push_command_Inr:
  assumes "push_command ctx env ts c rows = Inr (rows', e)"
  shows "\<exists>r. crdbInsert env ts rows (insert_params_of ctx c) = Inr (rows', r)
           \<and> ID e = row_id r \<and> Seq e = event_sequence r \<and> Typ e = cmd_Type c
           \<and> AggregateType e = agg_Type (cmd_Aggregate c)
           \<and> AggregateID e = agg_ID (cmd_Aggregate c)
           \<and> InstanceID e = resolve_InstanceID ctx c
           \<and> Data e = marshal_payload c
           \<and> CreationDate e = creation_date r
           \<and> ResourceOwner e = Some (resource_owner r)
           \<and> (\<forall>pl. cmd_Payload c = Some pl \<longrightarrow> Marshal pl = Inr (the (marshal_payload c)))"
proof -
  have ro: "(case (if agg_ResourceOwner (cmd_Aggregate c) \<noteq> []
                   then Some (agg_ResourceOwner (cmd_Aggregate c)) else None) of
               None \<Rightarrow> [] | Some ro \<Rightarrow> ro) = agg_ResourceOwner (cmd_Aggregate c)"
    by simp
  show ?thesis
  proof (cases "cmd_Payload c")
    case None
    with assms ro show ?thesis
      unfolding push_command_def Let_def marshal_payload_def insert_params_of_def
      by (auto split: sum.splits dest: crdbInsert_Inr(5))
  next
    case (Some pl)
    show ?thesis
    proof (cases pl)
      case (Payload s)
      with Some assms ro show ?thesis
        unfolding push_command_def Let_def marshal_payload_def insert_params_of_def
        by (auto split: sum.splits dest: crdbInsert_Inr(5))
    next
      case (Unmarshalable m)
      with Some assms show ?thesis
        unfolding push_command_def Let_def by simp
    qed
  qed
qed

lemma push_commands_trace:
  "push_commands ctx env ts k cs rows = Inr (rows', es, ucs) \<Longrightarrow>
     \<exists>new. rows' = rows @ new \<and> length new = length cs \<and> length es = length cs
       \<and> ucs = concat (map cmd_UniqueConstraints cs)
       \<and> (\<forall>i<length cs.
             push_command ctx (env (k + i)) ts (cs ! i) (rows @ take i new)
               = Inr (rows @ take (Suc i) new, es ! i))"
proof (induction cs arbitrary: k rows rows' es ucs)
  case Nil
  then show ?case by simp
next
  case (Cons c cs)
  from Cons.prems obtain rows1 e es1 ucs1 where
    step: "push_command ctx (env k) ts c rows = Inr (rows1, e)" and
    rest: "push_commands ctx env ts (Suc k) cs rows1 = Inr (rows', es1, ucs1)" and
    es: "es = e # es1" and ucs: "ucs = cmd_UniqueConstraints c @ ucs1"
    by (auto split: sum.splits)
  from push_command_Inr [OF step] obtain r where r: "rows1 = rows @ [r]"
    by (auto dest: crdbInsert_Inr(1))
  from Cons.IH [OF rest] obtain new1 where
    n1: "rows' = rows1 @ new1" "length new1 = length cs" "length es1 = length cs"
        "ucs1 = concat (map cmd_UniqueConstraints cs)" and
    tr: "\<forall>i<length cs. push_command ctx (env (Suc k + i)) ts (cs ! i) (rows1 @ take i new1)
               = Inr (rows1 @ take (Suc i) new1, es1 ! i)"
    by blast
  let ?new = "r # new1"
  have "\<forall>i<length (c # cs).
             push_command ctx (env (k + i)) ts ((c # cs) ! i) (rows @ take i ?new)
               = Inr (rows @ take (Suc i) ?new, es ! i)"
  proof (intro allI impI)
    fix i assume i: "i < length (c # cs)"
    show "push_command ctx (env (k + i)) ts ((c # cs) ! i) (rows @ take i ?new)
               = Inr (rows @ take (Suc i) ?new, es ! i)"
    proof (cases i)
      case 0
      with step r es show ?thesis by simp
    next
      case (Suc j)
      with i have "j < length cs" by simp
      with tr have "push_command ctx (env (Suc k + j)) ts (cs ! j) (rows1 @ take j new1)
               = Inr (rows1 @ take (Suc j) new1, es1 ! j)" by blast
      with Suc r es show ?thesis by simp
    qed
  qed
  with n1 r es ucs show ?case
    by (intro exI [of _ ?new]) simp
qed

lemma gapless_all:
  assumes "gapless rows"
  shows "aggregate_sequences rows typ aid inst
           = [1..<Suc (length (aggregate_sequences rows typ aid inst))]"
proof (cases "filter (of_aggregate typ aid inst) rows = []")
  case True
  then show ?thesis by (simp add: aggregate_sequences_def)
next
  case False
  then obtain r where r: "r \<in> set rows" "of_aggregate typ aid inst r"
    by (auto simp: filter_empty_conv)
  then have "aggregate_type r = typ" "aggregate_id r = aid" "instance_id r = inst"
    by (auto simp: of_aggregate_def)
  with assms r(1) show ?thesis unfolding gapless_def by blast
qed

lemma next_sequence_gapless:
  assumes "gapless rows"
  shows "next_sequence rows typ aid inst = Suc (length (aggregate_sequences rows typ aid inst))"
proof -
  let ?S = "event_sequence ` {r \<in> set rows. of_aggregate typ aid inst r}"
  have S: "?S = set (aggregate_sequences rows typ aid inst)"
    by (auto simp: aggregate_sequences_def)
  let ?n = "length (aggregate_sequences rows typ aid inst)"
  from gapless_all [OF assms] have eq: "aggregate_sequences rows typ aid inst = [1..<Suc ?n]" .
  have "set (aggregate_sequences rows typ aid inst) = set [1..<Suc ?n]"
    by (rule arg_cong [OF eq, of set])
  then have S': "?S = {1..<Suc ?n}" unfolding S by (simp only: set_upt)
  show ?thesis
  proof (cases "?n = 0")
    case True
    with S' show ?thesis unfolding next_sequence_def Let_def by simp
  next
    case False
    then have "Max {1..<Suc ?n} = ?n"
      by (intro Max_eqI) (auto simp: Suc_le_eq)
    with False S' show ?thesis unfolding next_sequence_def Let_def by simp
  qed
qed

lemma gapless_append:
  assumes g: "gapless rows"
    and seq: "event_sequence r = next_sequence rows (aggregate_type r) (aggregate_id r) (instance_id r)"
  shows "gapless (rows @ [r])"
  unfolding gapless_def
proof
  fix x assume "x \<in> set (rows @ [r])"
  let ?t = "aggregate_type x" and ?a = "aggregate_id x" and ?i = "instance_id x"
  show "aggregate_sequences (rows @ [r]) ?t ?a ?i
          = [1..<Suc (length (aggregate_sequences (rows @ [r]) ?t ?a ?i))]"
  proof (cases "of_aggregate ?t ?a ?i r")
    case True
    then have k: "aggregate_type r = ?t" "aggregate_id r = ?a" "instance_id r = ?i"
      by (auto simp: of_aggregate_def)
    from seq next_sequence_gapless [OF g, of ?t ?a ?i] k
    have s: "event_sequence r = Suc (length (aggregate_sequences rows ?t ?a ?i))" by simp
    define xs where "xs = aggregate_sequences rows ?t ?a ?i"
    define n where "n = length xs"
    have app: "aggregate_sequences (rows @ [r]) ?t ?a ?i = xs @ [Suc n]"
      using True s by (simp add: aggregate_sequences_def xs_def n_def)
    have xs: "xs = [1..<Suc n]"
      using gapless_all [OF g, of ?t ?a ?i] unfolding xs_def n_def .
    have "xs @ [Suc n] = [1..<Suc n] @ [Suc n]"
      by (rule arg_cong [OF xs, of "\<lambda>l. l @ [Suc n]"])
    also have "\<dots> = [1..<Suc (Suc n)]"
      by (simp only: upt_Suc_append [of 1 "Suc n"])
    also have "Suc (Suc n) = Suc (length (xs @ [Suc n]))"
      by (simp add: n_def)
    finally show ?thesis unfolding app .
  next
    case False
    then have "aggregate_sequences (rows @ [r]) ?t ?a ?i = aggregate_sequences rows ?t ?a ?i"
      by (simp add: aggregate_sequences_def)
    with gapless_all [OF g, of ?t ?a ?i] show ?thesis by simp
  qed
qed

lemma gapless_steps:
  "gapless rows \<Longrightarrow>
   (\<forall>i<length new. event_sequence (new ! i)
        = next_sequence (rows @ take i new) (aggregate_type (new ! i)) (aggregate_id (new ! i))
            (instance_id (new ! i))) \<Longrightarrow>
   gapless (rows @ new)"
proof (induction new rule: rev_induct)
  case Nil
  then show ?case by simp
next
  case (snoc x xs)
  have "\<forall>i<length xs. event_sequence (xs ! i)
        = next_sequence (rows @ take i xs) (aggregate_type (xs ! i)) (aggregate_id (xs ! i))
            (instance_id (xs ! i))"
  proof (intro allI impI)
    fix i assume i: "i < length xs"
    then have "i < length (xs @ [x])" by simp
    with snoc.prems(2) have "event_sequence ((xs @ [x]) ! i)
        = next_sequence (rows @ take i (xs @ [x])) (aggregate_type ((xs @ [x]) ! i))
            (aggregate_id ((xs @ [x]) ! i)) (instance_id ((xs @ [x]) ! i))" by blast
    with i show "event_sequence (xs ! i)
        = next_sequence (rows @ take i xs) (aggregate_type (xs ! i)) (aggregate_id (xs ! i))
            (instance_id (xs ! i))" by (simp add: nth_append)
  qed
  with snoc.IH snoc.prems(1) have g: "gapless (rows @ xs)" by blast
  from snoc.prems(2) [rule_format, of "length xs"]
  have "event_sequence x
        = next_sequence (rows @ xs) (aggregate_type x) (aggregate_id x) (instance_id x)"
    by simp
  from gapless_append [OF g this] show ?case by simp
qed

lemma ExecuteTx_Inr:
  "ExecuteTx env retries fn st = (st', Inr x) \<Longrightarrow>
     \<exists>e\<in>set (env # retries). fn e st = Inr (st', x) \<and> commit_fault e = None"
proof (induction retries arbitrary: env)
  case Nil
  then show ?case
    by (auto simp: run_attempt_def Let_def
             split: attempt.splits sum.splits failure.splits option.splits if_splits)
next
  case (Cons env' retries)
  show ?case
  proof (cases "run_attempt env fn st")
    case (Committed st1 x1)
    with Cons.prems have "fn env st = Inr (st', x) \<and> commit_fault env = None"
      by (auto simp: run_attempt_def Let_def
               split: sum.splits failure.splits option.splits if_splits)
    then show ?thesis by simp
  next
    case (Failed f)
    with Cons.prems show ?thesis by simp
  next
    case (Retry err)
    with Cons.prems have "ExecuteTx env' retries fn st = (st', Inr x)" by simp
    from Cons.IH [OF this] show ?thesis by auto
  qed
qed


lemma Push_Inr:
  assumes "Push unicodeLower ctx env retries cs st = (st', Inr es)"
  shows "\<exists>e\<in>set (env # retries). push_tx unicodeLower ctx cs e st = Inr (st', es)
           \<and> commit_fault e = None"
proof -
  from assms have "ExecuteTx env retries (push_tx unicodeLower ctx cs) st = (st', Inr es)"
    unfolding Push_def by (auto split: prod.splits sum.splits failure.splits)
  then show ?thesis by (rule ExecuteTx_Inr)
qed

lemma push_tx_Inr:
  assumes "push_tx unicodeLower ctx cs env st = Inr (st', es)"
  shows "\<exists>rows' ucs tab'.
           push_commands ctx (stmts env) (commit_ts env) 0 cs (events st) = Inr (rows', es, ucs)
         \<and> handleUniqueConstraints unicodeLower ctx (stmts env) (length cs) ucs (unique_constraints st)
               = Inr tab'
         \<and> st' = \<lparr> events = rows', unique_constraints = tab' \<rparr>"
  using assms
  unfolding push_tx_def
  by (auto split: sum.splits prod.splits)

lemma push_tx_steps:
  assumes "push_tx unicodeLower ctx cs env st = Inr (st', es)"
  shows "events st' = events st @ inserted_rows st st'"
    and "length (inserted_rows st st') = length cs"
    and "length es = length cs"
    and "\<forall>i<length cs.
           push_command ctx (stmts env i) (commit_ts env) (cs ! i)
              (events st @ take i (inserted_rows st st'))
             = Inr (events st @ take (Suc i) (inserted_rows st st'), es ! i)"
proof -
  from push_tx_Inr [OF assms] obtain rows' ucs tab' where
    pc: "push_commands ctx (stmts env) (commit_ts env) 0 cs (events st) = Inr (rows', es, ucs)"
    and st': "st' = \<lparr> events = rows', unique_constraints = tab' \<rparr>" by blast
  from push_commands_trace [OF pc] obtain new where
    new: "rows' = events st @ new" "length new = length cs" "length es = length cs"
    and tr: "\<forall>i<length cs. push_command ctx (stmts env (0 + i)) (commit_ts env) (cs ! i)
                 (events st @ take i new) = Inr (events st @ take (Suc i) new, es ! i)"
    by blast
  have ins: "inserted_rows st st' = new"
    unfolding inserted_rows_def st' new(1) by simp
  show "events st' = events st @ inserted_rows st st'"
    unfolding ins by (simp add: st' new(1))
  show "length (inserted_rows st st') = length cs" by (simp add: ins new(2))
  show "length es = length cs" by (rule new(3))
  show "\<forall>i<length cs.
           push_command ctx (stmts env i) (commit_ts env) (cs ! i)
              (events st @ take i (inserted_rows st st'))
             = Inr (events st @ take (Suc i) (inserted_rows st st'), es ! i)"
    using tr by (simp add: ins)
qed

lemma push_command_row:
  assumes "push_command ctx env ts c rows = Inr (rows @ take (Suc i) new, e)"
    and "i < length new"
  shows "crdbInsert env ts rows (insert_params_of ctx c) = Inr (rows @ take (Suc i) new, new ! i)"
    and "ID e = row_id (new ! i)"
    and "Seq e = event_sequence (new ! i)"
    and "Typ e = cmd_Type c"
    and "AggregateType e = agg_Type (cmd_Aggregate c)"
    and "AggregateID e = agg_ID (cmd_Aggregate c)"
    and "InstanceID e = resolve_InstanceID ctx c"
    and "Data e = marshal_payload c"
    and "CreationDate e = creation_date (new ! i)"
    and "ResourceOwner e = Some (resource_owner (new ! i))"
    and "\<forall>pl. cmd_Payload c = Some pl \<longrightarrow> Marshal pl = Inr (the (marshal_payload c))"
proof -
  from push_command_Inr [OF assms(1)] obtain r where
    ins: "crdbInsert env ts rows (insert_params_of ctx c) = Inr (rows @ take (Suc i) new, r)"
    and e: "ID e = row_id r" "Seq e = event_sequence r" "Typ e = cmd_Type c"
      "AggregateType e = agg_Type (cmd_Aggregate c)" "AggregateID e = agg_ID (cmd_Aggregate c)"
      "InstanceID e = resolve_InstanceID ctx c" "Data e = marshal_payload c"
      "CreationDate e = creation_date r" "ResourceOwner e = Some (resource_owner r)"
      "\<forall>pl. cmd_Payload c = Some pl \<longrightarrow> Marshal pl = Inr (the (marshal_payload c))"
    by blast
  from crdbInsert_Inr(1) [OF ins] have "take (Suc i) new = [r]" by simp
  with assms(2) have r: "new ! i = r"
    by (cases i) (auto simp: take_Suc_conv_app_nth)
  show "crdbInsert env ts rows (insert_params_of ctx c) = Inr (rows @ take (Suc i) new, new ! i)"
    using ins r by simp
  show "ID e = row_id (new ! i)" "Seq e = event_sequence (new ! i)" "Typ e = cmd_Type c"
    "AggregateType e = agg_Type (cmd_Aggregate c)" "AggregateID e = agg_ID (cmd_Aggregate c)"
    "InstanceID e = resolve_InstanceID ctx c" "Data e = marshal_payload c"
    "CreationDate e = creation_date (new ! i)" "ResourceOwner e = Some (resource_owner (new ! i))"
    "\<forall>pl. cmd_Payload c = Some pl \<longrightarrow> Marshal pl = Inr (the (marshal_payload c))"
    using e r by simp_all
qed

lemma insert_params_of_simps:
  "p1_event_type (insert_params_of ctx c) = cmd_Type c"
  "p2_aggregate_type (insert_params_of ctx c) = agg_Type (cmd_Aggregate c)"
  "p3_aggregate_id (insert_params_of ctx c) = agg_ID (cmd_Aggregate c)"
  "p5_event_data (insert_params_of ctx c) = marshal_payload c"
  "p8_resource_owner (insert_params_of ctx c) = agg_ResourceOwner (cmd_Aggregate c)"
  "p9_instance_id (insert_params_of ctx c) = resolve_InstanceID ctx c"
  by (simp_all add: insert_params_of_def)

lemma push_tx_rows:
  assumes "push_tx unicodeLower ctx cs env st = Inr (st', es)" and "i < length cs"
  shows "crdbInsert (stmts env i) (commit_ts env) (events st @ take i (inserted_rows st st'))
            (insert_params_of ctx (cs ! i))
           = Inr (events st @ take (Suc i) (inserted_rows st st'), inserted_rows st st' ! i)"
    and "ID (es ! i) = row_id (inserted_rows st st' ! i)"
    and "Seq (es ! i) = event_sequence (inserted_rows st st' ! i)"
    and "Typ (es ! i) = cmd_Type (cs ! i)"
    and "AggregateType (es ! i) = agg_Type (cmd_Aggregate (cs ! i))"
    and "AggregateID (es ! i) = agg_ID (cmd_Aggregate (cs ! i))"
    and "InstanceID (es ! i) = resolve_InstanceID ctx (cs ! i)"
    and "Data (es ! i) = marshal_payload (cs ! i)"
    and "CreationDate (es ! i) = creation_date (inserted_rows st st' ! i)"
    and "ResourceOwner (es ! i) = Some (resource_owner (inserted_rows st st' ! i))"
    and "\<forall>pl. cmd_Payload (cs ! i) = Some pl \<longrightarrow> Marshal pl = Inr (the (marshal_payload (cs ! i)))"
proof -
  from push_tx_steps(2) [OF assms(1)] assms(2) have i: "i < length (inserted_rows st st')" by simp
  from push_tx_steps(4) [OF assms(1)] assms(2)
  have step: "push_command ctx (stmts env i) (commit_ts env) (cs ! i)
              (events st @ take i (inserted_rows st st'))
             = Inr (events st @ take i (inserted_rows st st') @ take (Suc i - i) (drop i (inserted_rows st st')), es ! i)"
    by (simp add: take_Suc_conv_app_nth i Cons_nth_drop_Suc [symmetric])
  have tk: "take i (inserted_rows st st') @ take (Suc i - i) (drop i (inserted_rows st st'))
              = take (Suc i) (inserted_rows st st')"
    using i by (simp add: take_Suc_conv_app_nth Cons_nth_drop_Suc [symmetric])
  define before where "before = events st @ take i (inserted_rows st st')"
  define new where "new = drop i (inserted_rows st st')"
  have n0: "new ! 0 = inserted_rows st st' ! i" using i by (simp add: new_def)
  have len: "0 < length new" using i by (simp add: new_def)
  have bt: "before @ take (Suc 0) new = events st @ take (Suc i) (inserted_rows st st')"
    using tk by (simp add: before_def new_def)
  from step have step': "push_command ctx (stmts env i) (commit_ts env) (cs ! i) before
         = Inr (before @ take (Suc 0) new, es ! i)"
    by (simp add: before_def new_def)
  note R = push_command_row [OF step' len]
  show "crdbInsert (stmts env i) (commit_ts env) (events st @ take i (inserted_rows st st'))
            (insert_params_of ctx (cs ! i))
           = Inr (events st @ take (Suc i) (inserted_rows st st'), inserted_rows st st' ! i)"
    using R(1) unfolding bt n0 by (simp add: before_def)
  show "ID (es ! i) = row_id (inserted_rows st st' ! i)" using R(2) n0 by simp
  show "Seq (es ! i) = event_sequence (inserted_rows st st' ! i)" using R(3) n0 by simp
  show "Typ (es ! i) = cmd_Type (cs ! i)" by (rule R(4))
  show "AggregateType (es ! i) = agg_Type (cmd_Aggregate (cs ! i))" by (rule R(5))
  show "AggregateID (es ! i) = agg_ID (cmd_Aggregate (cs ! i))" by (rule R(6))
  show "InstanceID (es ! i) = resolve_InstanceID ctx (cs ! i)" by (rule R(7))
  show "Data (es ! i) = marshal_payload (cs ! i)" by (rule R(8))
  show "CreationDate (es ! i) = creation_date (inserted_rows st st' ! i)" using R(9) n0 by simp
  show "ResourceOwner (es ! i) = Some (resource_owner (inserted_rows st st' ! i))" using R(10) n0 by simp
  show "\<forall>pl. cmd_Payload (cs ! i) = Some pl \<longrightarrow> Marshal pl = Inr (the (marshal_payload (cs ! i)))"
    by (rule R(11))
qed

lemmas push_eval_defs =
  Push_def run_attempt_def errIsRetryable_def push_tx_def push_command_def crdbInsert_def previous_data_def
  COALESCE_def max_bigint_def handleUniqueConstraints_def handleUniqueConstraint_def
  uniqueInsert_def uniqueDelete_def uniqueDeleteInstance_def isUniqueViolationError_def
  ToLower_def lower_char_def resolve_InstanceID_def scan_Sequence_def of_aggregate_def
  of_aggregate_type_def ThrowInternal_def ThrowAlreadyExists_def Let_def

lemmas example_defs =
  example_ctx_def example_env_def example_commands_def empty_store_def org_aggregate_def
  org_name_constraint_def

lemma example_Push_succeeds:
  "\<exists>st' es. Push example_unicodeLower example_ctx example_env [] example_commands empty_store = (st', Inr es)"
  by (simp add: push_eval_defs example_defs)

lemma gapless_empty: "gapless (events empty_store)"
  by (simp add: gapless_def empty_store_def)

text \<open>
  C1. Every event Push inserts lies in the aggregate instance of its command (aggregate
  type, aggregate id, instance) and gets as sequence the greatest sequence of that
  instance in the table as the insert finds it, plus 1, and 1 when the instance has no
  event yet; the returned event carries that sequence. The number is computed by the
  insert statement from the rows of the table (a command has no sequence field). Hence a
  table in which every aggregate instance is numbered 1, 2, 3, ... in insertion order is
  again such a table after Push.
\<close>

theorem Push_assigns_next_sequence:
  assumes "Push unicodeLower ctx env retries commands st = (st', Inr es)"
  shows "events st' = events st @ inserted_rows st st'
       \<and> length (inserted_rows st st') = length commands
       \<and> (\<forall>i<length commands.
             of_aggregate (agg_Type (cmd_Aggregate (commands ! i))) (agg_ID (cmd_Aggregate (commands ! i)))
                (resolve_InstanceID ctx (commands ! i)) (inserted_rows st st' ! i)
           \<and> event_sequence (inserted_rows st st' ! i)
               = next_sequence (events st @ take i (inserted_rows st st'))
                   (agg_Type (cmd_Aggregate (commands ! i))) (agg_ID (cmd_Aggregate (commands ! i)))
                   (resolve_InstanceID ctx (commands ! i))
           \<and> Seq (es ! i) = event_sequence (inserted_rows st st' ! i))
       \<and> (gapless (events st) \<longrightarrow> gapless (events st'))"
proof -
  from Push_Inr [OF assms] obtain e where
    tx: "push_tx unicodeLower ctx commands e st = Inr (st', es)" by blast
  let ?new = "inserted_rows st st'"
  have len: "length ?new = length commands" by (rule push_tx_steps(2) [OF tx])
  have app: "events st' = events st @ ?new" by (rule push_tx_steps(1) [OF tx])
  have rows: "\<forall>i<length commands.
             of_aggregate (agg_Type (cmd_Aggregate (commands ! i))) (agg_ID (cmd_Aggregate (commands ! i)))
                (resolve_InstanceID ctx (commands ! i)) (?new ! i)
           \<and> event_sequence (?new ! i)
               = next_sequence (events st @ take i ?new)
                   (agg_Type (cmd_Aggregate (commands ! i))) (agg_ID (cmd_Aggregate (commands ! i)))
                   (resolve_InstanceID ctx (commands ! i))
           \<and> Seq (es ! i) = event_sequence (?new ! i)"
  proof (intro allI impI)
    fix i assume i: "i < length commands"
    note ins = push_tx_rows(1) [OF tx i]
    from crdbInsert_Inr(2-5) [OF ins] push_tx_rows(3) [OF tx i]
    show "of_aggregate (agg_Type (cmd_Aggregate (commands ! i))) (agg_ID (cmd_Aggregate (commands ! i)))
                (resolve_InstanceID ctx (commands ! i)) (?new ! i)
           \<and> event_sequence (?new ! i)
               = next_sequence (events st @ take i ?new)
                   (agg_Type (cmd_Aggregate (commands ! i))) (agg_ID (cmd_Aggregate (commands ! i)))
                   (resolve_InstanceID ctx (commands ! i))
           \<and> Seq (es ! i) = event_sequence (?new ! i)"
      by (simp add: insert_params_of_simps of_aggregate_def)
  qed
  have gap: "gapless (events st) \<longrightarrow> gapless (events st')"
  proof
    assume g: "gapless (events st)"
    have "\<forall>i<length ?new. event_sequence (?new ! i)
        = next_sequence (events st @ take i ?new) (aggregate_type (?new ! i)) (aggregate_id (?new ! i))
            (instance_id (?new ! i))"
      using rows len by (simp add: of_aggregate_def)
    from gapless_steps [OF g this] show "gapless (events st')" by (simp only: app)
  qed
  from app len rows gap show ?thesis by blast
qed

theorem Push_assigns_next_sequence_witness:
  "gapless (events (fst (Push example_unicodeLower example_ctx example_env [] example_commands empty_store)))
   \<and> map event_sequence (events (fst (Push example_unicodeLower example_ctx example_env [] example_commands empty_store))) = [1, 2]"
proof -
  from example_Push_succeeds obtain st' es where
    h: "Push example_unicodeLower example_ctx example_env [] example_commands empty_store = (st', Inr es)" by blast
  from Push_assigns_next_sequence [OF h] gapless_empty have "gapless (events st')" by blast
  with h have "gapless (events (fst (Push example_unicodeLower example_ctx example_env [] example_commands empty_store)))"
    by simp
  moreover have "map event_sequence (events (fst (Push example_unicodeLower example_ctx example_env [] example_commands empty_store))) = [1, 2]"
    by (simp add: push_eval_defs example_defs)
  ultimately show ?thesis by blast
qed

text \<open>
  C8. The event persisted for a command has the resource owner of the latest event of
  the same aggregate instance (one with the greatest sequence) when the instance has an
  event in the table as the insert finds it, and the resource owner the command
  declares when it has none; the returned event reports the persisted owner.
\<close>

theorem Push_inherits_resource_owner:
  assumes "Push unicodeLower ctx env retries commands st = (st', Inr es)"
  shows "\<forall>i<length commands.
           (let c = commands ! i;
                r = inserted_rows st st' ! i;
                prior = filter (of_aggregate (agg_Type (cmd_Aggregate c)) (agg_ID (cmd_Aggregate c))
                                  (resolve_InstanceID ctx c))
                          (events st @ take i (inserted_rows st st'))
            in (prior = [] \<longrightarrow> resource_owner r = agg_ResourceOwner (cmd_Aggregate c))
             \<and> (prior \<noteq> [] \<longrightarrow>
                  (\<exists>l\<in>set prior. (\<forall>x\<in>set prior. event_sequence x \<le> event_sequence l)
                       \<and> resource_owner r = resource_owner l))
             \<and> ResourceOwner (es ! i) = Some (resource_owner r))"
proof (intro allI impI)
  from Push_Inr [OF assms] obtain e where
    tx: "push_tx unicodeLower ctx commands e st = Inr (st', es)" by blast
  fix i assume i: "i < length commands"
  let ?c = "commands ! i"
  let ?r = "inserted_rows st st' ! i"
  let ?prior = "filter (of_aggregate (agg_Type (cmd_Aggregate ?c)) (agg_ID (cmd_Aggregate ?c))
                                  (resolve_InstanceID ctx ?c))
                          (events st @ take i (inserted_rows st st'))"
  note ins = push_tx_rows(1) [OF tx i]
  from crdbInsert_Inr(10) [OF ins]
  have ro: "resource_owner ?r
              = COALESCE (map_option resource_owner (max_seq_row ?prior))
                  (agg_ResourceOwner (cmd_Aggregate ?c))"
    by (simp add: insert_params_of_simps)
  have a: "?prior = [] \<longrightarrow> resource_owner ?r = agg_ResourceOwner (cmd_Aggregate ?c)"
  proof
    assume "?prior = []"
    then have "max_seq_row ?prior = None" by (simp only: max_seq_row_None)
    with ro show "resource_owner ?r = agg_ResourceOwner (cmd_Aggregate ?c)"
      by (simp add: COALESCE_def)
  qed
  have b: "?prior \<noteq> [] \<longrightarrow>
             (\<exists>l\<in>set ?prior. (\<forall>x\<in>set ?prior. event_sequence x \<le> event_sequence l)
                 \<and> resource_owner ?r = resource_owner l)"
  proof
    assume "?prior \<noteq> []"
    then obtain m where m: "max_seq_row ?prior = Some m"
      using max_seq_row_None [of ?prior] by (cases "max_seq_row ?prior") auto
    from max_seq_row_Some [OF m] ro m
    show "\<exists>l\<in>set ?prior. (\<forall>x\<in>set ?prior. event_sequence x \<le> event_sequence l)
                 \<and> resource_owner ?r = resource_owner l"
      by (intro bexI [of _ m]) (simp_all add: COALESCE_def)
  qed
  from a b push_tx_rows(10) [OF tx i]
  show "let c = commands ! i;
            r = inserted_rows st st' ! i;
            prior = filter (of_aggregate (agg_Type (cmd_Aggregate c)) (agg_ID (cmd_Aggregate c))
                              (resolve_InstanceID ctx c))
                      (events st @ take i (inserted_rows st st'))
        in (prior = [] \<longrightarrow> resource_owner r = agg_ResourceOwner (cmd_Aggregate c))
         \<and> (prior \<noteq> [] \<longrightarrow>
              (\<exists>l\<in>set prior. (\<forall>x\<in>set prior. event_sequence x \<le> event_sequence l)
                   \<and> resource_owner r = resource_owner l))
         \<and> ResourceOwner (es ! i) = Some (resource_owner r)"
    unfolding Let_def by blast
qed

text \<open>
  In the example the second command declares the owner \<open>o2\<close>; its event inherits \<open>o1\<close>
  from the event of the first command.
\<close>

theorem Push_inherits_resource_owner_witness:
  "map resource_owner (events (fst (Push example_unicodeLower example_ctx example_env [] example_commands empty_store)))
     = [''o1'', ''o1'']
   \<and> (\<exists>es. snd (Push example_unicodeLower example_ctx example_env [] example_commands empty_store) = Inr es
         \<and> ResourceOwner (es ! 1)
             = Some (resource_owner
                 (inserted_rows empty_store
                    (fst (Push example_unicodeLower example_ctx example_env [] example_commands empty_store)) ! 1)))"
proof -
  from example_Push_succeeds obtain st' es where
    h: "Push example_unicodeLower example_ctx example_env [] example_commands empty_store = (st', Inr es)" by blast
  have "(1::nat) < length example_commands" by (simp add: example_commands_def)
  with Push_inherits_resource_owner [OF h]
  have "ResourceOwner (es ! 1) = Some (resource_owner (inserted_rows empty_store st' ! 1))"
    unfolding Let_def by blast
  with h have "\<exists>es. snd (Push example_unicodeLower example_ctx example_env [] example_commands empty_store) = Inr es
         \<and> ResourceOwner (es ! 1)
             = Some (resource_owner
                 (inserted_rows empty_store
                    (fst (Push example_unicodeLower example_ctx example_env [] example_commands empty_store)) ! 1))"
    by simp
  moreover have "map resource_owner (events (fst (Push example_unicodeLower example_ctx example_env [] example_commands empty_store)))
     = [''o1'', ''o1'']"
    by (simp add: push_eval_defs example_defs)
  ultimately show ?thesis by blast
qed

text \<open>
  C9. A call of Push that returns without error returns as many events as it was given
  commands, and the event at index i is the event persisted for the command at index i:
  it has the id, sequence, creation date and resource owner of the i-th inserted row,
  and row and event have the event type, aggregate type, aggregate id and instance of
  the command (the context's instance when the command names none) and the JSON
  encoding of its payload (no data when the command has no payload).
\<close>

theorem Push_returns_events_in_order:
  assumes "Push unicodeLower ctx env retries commands st = (st', Inr es)"
  shows "length es = length commands
       \<and> events st' = events st @ inserted_rows st st'
       \<and> length (inserted_rows st st') = length commands
       \<and> (\<forall>i<length commands.
            (let c = commands ! i; r = inserted_rows st st' ! i; e = es ! i
             in ID e = row_id r \<and> Seq e = event_sequence r \<and> CreationDate e = creation_date r
              \<and> ResourceOwner e = Some (resource_owner r)
              \<and> Typ e = cmd_Type c \<and> event_type r = cmd_Type c
              \<and> AggregateType e = agg_Type (cmd_Aggregate c)
              \<and> aggregate_type r = agg_Type (cmd_Aggregate c)
              \<and> AggregateID e = agg_ID (cmd_Aggregate c)
              \<and> aggregate_id r = agg_ID (cmd_Aggregate c)
              \<and> InstanceID e = resolve_InstanceID ctx c
              \<and> instance_id r = resolve_InstanceID ctx c
              \<and> Data e = event_data r
              \<and> (case cmd_Payload c of
                    None \<Rightarrow> Data e = None
                  | Some pl \<Rightarrow> map_sum id Some (Marshal pl) = Inr (Data e))))"
proof -
  from Push_Inr [OF assms] obtain env' where
    tx: "push_tx unicodeLower ctx commands env' st = Inr (st', es)" by blast
  have "\<forall>i<length commands.
            (let c = commands ! i; r = inserted_rows st st' ! i; e = es ! i
             in ID e = row_id r \<and> Seq e = event_sequence r \<and> CreationDate e = creation_date r
              \<and> ResourceOwner e = Some (resource_owner r)
              \<and> Typ e = cmd_Type c \<and> event_type r = cmd_Type c
              \<and> AggregateType e = agg_Type (cmd_Aggregate c)
              \<and> aggregate_type r = agg_Type (cmd_Aggregate c)
              \<and> AggregateID e = agg_ID (cmd_Aggregate c)
              \<and> aggregate_id r = agg_ID (cmd_Aggregate c)
              \<and> InstanceID e = resolve_InstanceID ctx c
              \<and> instance_id r = resolve_InstanceID ctx c
              \<and> Data e = event_data r
              \<and> (case cmd_Payload c of
                    None \<Rightarrow> Data e = None
                  | Some pl \<Rightarrow> map_sum id Some (Marshal pl) = Inr (Data e)))"
  proof (intro allI impI)
    fix i assume i: "i < length commands"
    note R = push_tx_rows [OF tx i]
    note I = crdbInsert_Inr [OF R(1)]
    have pl: "case cmd_Payload (commands ! i) of
                None \<Rightarrow> Data (es ! i) = None
              | Some pl \<Rightarrow> map_sum id Some (Marshal pl) = Inr (Data (es ! i))"
    proof (cases "cmd_Payload (commands ! i)")
      case None
      with R(8) show ?thesis by (simp add: marshal_payload_def)
    next
      case (Some pl)
      with R(11) have m: "Marshal pl = Inr (the (marshal_payload (commands ! i)))" by blast
      then obtain s where "pl = Payload s" by (cases pl) auto
      with Some m R(8) show ?thesis by (simp add: marshal_payload_def)
    qed
    from R(2-10) I(3-7) pl
    show "let c = commands ! i; r = inserted_rows st st' ! i; e = es ! i
             in ID e = row_id r \<and> Seq e = event_sequence r \<and> CreationDate e = creation_date r
              \<and> ResourceOwner e = Some (resource_owner r)
              \<and> Typ e = cmd_Type c \<and> event_type r = cmd_Type c
              \<and> AggregateType e = agg_Type (cmd_Aggregate c)
              \<and> aggregate_type r = agg_Type (cmd_Aggregate c)
              \<and> AggregateID e = agg_ID (cmd_Aggregate c)
              \<and> aggregate_id r = agg_ID (cmd_Aggregate c)
              \<and> InstanceID e = resolve_InstanceID ctx c
              \<and> instance_id r = resolve_InstanceID ctx c
              \<and> Data e = event_data r
              \<and> (case cmd_Payload c of
                    None \<Rightarrow> Data e = None
                  | Some pl \<Rightarrow> map_sum id Some (Marshal pl) = Inr (Data e))"
      unfolding Let_def by (simp add: insert_params_of_simps)
  qed
  with push_tx_steps(1-3) [OF tx] show ?thesis by blast
qed

theorem Push_returns_events_in_order_witness:
  "\<exists>es. snd (Push example_unicodeLower example_ctx example_env [] example_commands empty_store) = Inr es
     \<and> length es = length example_commands
     \<and> map Typ es = map cmd_Type example_commands
     \<and> map Typ es = [''org.added'', ''org.changed'']"
proof -
  from example_Push_succeeds obtain st' es where
    h: "Push example_unicodeLower example_ctx example_env [] example_commands empty_store = (st', Inr es)" by blast
  note T = Push_returns_events_in_order [OF h]
  from T have len: "length es = length example_commands" by blast
  from T have "\<forall>i<length example_commands. Typ (es ! i) = cmd_Type (example_commands ! i)"
    unfolding Let_def by blast
  with len have "map Typ es = map cmd_Type example_commands"
    by (intro nth_equalityI) simp_all
  moreover then have "map Typ es = [''org.added'', ''org.changed'']"
    by (simp add: example_commands_def)
  ultimately show ?thesis using h len by simp
qed



lemma loop_append:
  "handleUniqueConstraints_loop ul ctx env k u1 tab = Inr tab1 \<Longrightarrow>
   handleUniqueConstraints_loop ul ctx env k (u1 @ u2) tab
     = handleUniqueConstraints_loop ul ctx env (k + length u1) u2 tab1"
proof (induction u1 arbitrary: k tab)
  case Nil
  then show ?case by simp
next
  case (Cons u u1)
  then show ?case by (auto split: sum.splits)
qed

lemma loop_append_Inr:
  "handleUniqueConstraints_loop ul ctx env k (u1 @ u2) tab = Inr tab' \<Longrightarrow>
   \<exists>tab1. handleUniqueConstraints_loop ul ctx env k u1 tab = Inr tab1
        \<and> handleUniqueConstraints_loop ul ctx env (k + length u1) u2 tab1 = Inr tab'"
proof (induction u1 arbitrary: k tab)
  case Nil
  then show ?case by simp
next
  case (Cons u u1)
  from Cons.prems obtain tab0 where
    s: "handleUniqueConstraint ul ctx (env k) u tab = Inr tab0" and
    r: "handleUniqueConstraints_loop ul ctx env (Suc k) (u1 @ u2) tab0 = Inr tab'"
    by (auto split: sum.splits)
  from Cons.IH [OF r] obtain tab1 where
    "handleUniqueConstraints_loop ul ctx env (Suc k) u1 tab0 = Inr tab1"
    "handleUniqueConstraints_loop ul ctx env (Suc k + length u1) u2 tab1 = Inr tab'" by blast
  with s show ?case by simp
qed

lemma loop_first_failure:
  assumes "handleUniqueConstraints_loop ul ctx env k u1 tab = Inr tab1"
    and "handleUniqueConstraint ul ctx (env (k + length u1)) uc tab1 = Inl f"
  shows "handleUniqueConstraints_loop ul ctx env k (u1 @ uc # u2) tab = Inl f"
  using loop_append [OF assms(1), of "uc # u2"] assms(2) by simp

lemma handleUniqueConstraint_caos:
  "handleUniqueConstraint ul ctx senv uc tab = Inl (Error e) \<Longrightarrow> is_caos e"
  unfolding handleUniqueConstraint_def Let_def ThrowInternal_def ThrowAlreadyExists_def
  by (auto split: option.splits UniqueConstraintAction.splits sum.splits if_splits)

lemma handleUniqueConstraints_is_loop:
  "handleUniqueConstraints ul ctx env k (u1 @ Some c # u2) tab
     = handleUniqueConstraints_loop ul ctx env k (u1 @ Some c # u2) tab"
proof -
  have "\<not> (length (u1 @ Some c # u2) = 1 \<and> (u1 @ Some c # u2) ! 0 = None)"
    by (cases u1) auto
  moreover have "length (u1 @ Some c # u2) \<noteq> 0" by simp
  ultimately show ?thesis unfolding handleUniqueConstraints_def by (simp only: if_False simp_thms)
qed

lemma handleUniqueConstraints_loop_eq:
  assumes "ucs \<noteq> []" and "ucs \<noteq> [None]"
  shows "handleUniqueConstraints ul ctx env k ucs tab
           = handleUniqueConstraints_loop ul ctx env k ucs tab"
proof -
  from assms have "\<not> (length ucs = 0 \<or> (length ucs = 1 \<and> ucs ! 0 = None))"
    by (cases ucs) auto
  then show ?thesis by (simp only: handleUniqueConstraints_def if_False)
qed

lemma Push_attempt:
  "Push ul ctx env retries cs st =
     (case run_attempt env (push_tx ul ctx cs) st of
        Committed st' es \<Rightarrow> (st', Inr es)
      | Failed f \<Rightarrow> (st, Inl (wrap_failure f))
      | Retry err \<Rightarrow>
          (case retries of
             [] \<Rightarrow> (st, Inl (wrap_failure (Error (TxError MaxRetriesExceededError err))))
           | env' # rest \<Rightarrow> Push ul ctx env' rest cs st))"
  by (cases retries) (auto simp: Push_def wrap_failure_def split: attempt.splits failure.splits)

lemma run_attempt_failed:
  assumes "fn env st = Inl f"
  shows "run_attempt env fn st =
           (case f of
              NilDereference \<Rightarrow> Failed NilDereference
            | Error err \<Rightarrow>
                if \<not> errIsRetryable err then Failed (Error err)
                else (case restart_fault env of
                        Some rerr \<Rightarrow> Failed (Error (TxError TxnRestartError (DBError rerr)))
                      | None \<Rightarrow> Retry err))"
  using assms unfolding run_attempt_def Let_def
  by (auto split: failure.splits option.splits)

lemma Push_after_failed_attempt:
  assumes "push_tx ul ctx cs env st = Inl f"
  shows "Push ul ctx env retries cs st = after_failed_attempt ul ctx env retries cs st f"
  unfolding Push_attempt [of ul ctx env retries cs st]
    run_attempt_failed [of "push_tx ul ctx cs" env st f, OF assms]
    after_failed_attempt_def
  by (auto simp: wrap_failure_def split: failure.splits option.splits list.splits)



lemma push_tx_constraint_failure:
  assumes "push_commands ctx (stmts env) (commit_ts env) 0 cs (events st)
             = Inr (rows', es, u1 @ uc # u2)"
    and "u1 @ uc # u2 \<noteq> [None]"
    and "handleUniqueConstraints_loop ul ctx (stmts env) (length cs) u1 (unique_constraints st)
             = Inr tab1"
    and "handleUniqueConstraint ul ctx (stmts env (length cs + length u1)) uc tab1 = Inl f"
  shows "push_tx ul ctx cs env st = Inl f"
proof -
  from loop_first_failure [OF assms(3,4)]
  have "handleUniqueConstraints_loop ul ctx (stmts env) (length cs) (u1 @ uc # u2)
               (unique_constraints st) = Inl f" .
  with assms(2) have "handleUniqueConstraints ul ctx (stmts env) (length cs) (u1 @ uc # u2)
               (unique_constraints st) = Inl f"
    by (simp add: handleUniqueConstraints_loop_eq)
  with assms(1) show ?thesis unfolding push_tx_def by simp
qed

lemma handleUniqueConstraint_keeps_key:
  assumes "handleUniqueConstraint ul ctx senv uc tab = Inr tab'"
    and "(t, fld, ctx_InstanceID ctx) \<in> set tab"
    and "\<not> removes_key ul (t, fld) uc"
  shows "(t, fld, ctx_InstanceID ctx) \<in> set tab'"
proof (cases uc)
  case None
  with assms(1) show ?thesis by (simp add: handleUniqueConstraint_def)
next
  case (Some d)
  show ?thesis
  proof (cases "Action d")
    case UniqueConstraintAdd
    with Some assms(1,2) show ?thesis
      unfolding handleUniqueConstraint_def Let_def uniqueInsert_def
      by (auto split: sum.splits option.splits if_splits)
  next
    case UniqueConstraintRemove
    with Some assms show ?thesis
      unfolding handleUniqueConstraint_def Let_def uniqueDelete_def removes_key_def
      by (auto split: sum.splits option.splits if_splits)
  next
    case UniqueConstraintInstanceRemove
    with Some assms(3) show ?thesis by (simp add: removes_key_def)
  next
    case UniqueConstraintOther
    with Some assms(1,2) show ?thesis by (simp add: handleUniqueConstraint_def)
  qed
qed

lemma loop_keeps_key:
  "handleUniqueConstraints_loop ul ctx env k ucs tab = Inr tab' \<Longrightarrow>
   (t, fld, ctx_InstanceID ctx) \<in> set tab \<Longrightarrow>
   \<forall>uc\<in>set ucs. \<not> removes_key ul (t, fld) uc \<Longrightarrow>
   (t, fld, ctx_InstanceID ctx) \<in> set tab'"
proof (induction ucs arbitrary: k tab)
  case Nil
  then show ?case by simp
next
  case (Cons uc ucs)
  from Cons.prems(1) obtain tab1 where
    s: "handleUniqueConstraint ul ctx (env k) uc tab = Inr tab1" and
    r: "handleUniqueConstraints_loop ul ctx env (Suc k) ucs tab1 = Inr tab'"
    by (auto split: sum.splits)
  from Cons.prems(3) have n: "\<not> removes_key ul (t, fld) uc" by simp
  from handleUniqueConstraint_keeps_key [OF s Cons.prems(2) n]
  have "(t, fld, ctx_InstanceID ctx) \<in> set tab1" .
  from Cons.IH [OF r this] Cons.prems(3) show ?case by simp
qed

lemma handleUniqueConstraint_add:
  assumes "Action c = UniqueConstraintAdd"
    and "handleUniqueConstraint ul ctx senv (Some c) tab = Inr tab'"
  shows "tab' = tab @ [(UniqueType c, ToLower ul (UniqueField c), ctx_InstanceID ctx)]"
  using assms unfolding handleUniqueConstraint_def Let_def uniqueInsert_def
  by (auto split: sum.splits option.splits if_splits)

lemma Push_stores_added_key:
  assumes push: "Push ul ctx env retries commands st = (st', Inr es)"
    and ucs: "concat (map cmd_UniqueConstraints commands) = u1 @ Some c # u2"
    and add: "Action c = UniqueConstraintAdd"
    and keep: "\<forall>uc\<in>set u2. \<not> removes_key ul (UniqueType c, ToLower ul (UniqueField c)) uc"
  shows "(UniqueType c, ToLower ul (UniqueField c), ctx_InstanceID ctx) \<in> set (unique_constraints st')"
proof -
  from Push_Inr [OF push] obtain e where
    tx: "push_tx ul ctx commands e st = Inr (st', es)" by blast
  from push_tx_Inr [OF tx] obtain rows' ucs' tab' where
    pc: "push_commands ctx (stmts e) (commit_ts e) 0 commands (events st) = Inr (rows', es, ucs')"
    and h: "handleUniqueConstraints ul ctx (stmts e) (length commands) ucs' (unique_constraints st)
               = Inr tab'"
    and st': "st' = \<lparr> events = rows', unique_constraints = tab' \<rparr>" by blast
  from push_commands_trace [OF pc] ucs have u: "ucs' = u1 @ Some c # u2" by auto
  from h have "handleUniqueConstraints_loop ul ctx (stmts e) (length commands) (u1 @ Some c # u2)
                 (unique_constraints st) = Inr tab'"
    unfolding u by (simp only: handleUniqueConstraints_is_loop)
  from loop_append_Inr [OF this] obtain tab1 where
    l2: "handleUniqueConstraints_loop ul ctx (stmts e) (length commands + length u1) (Some c # u2) tab1
           = Inr tab'" by blast
  then obtain tab2 where
    s: "handleUniqueConstraint ul ctx (stmts e (length commands + length u1)) (Some c) tab1 = Inr tab2"
    and r: "handleUniqueConstraints_loop ul ctx (stmts e) (Suc (length commands + length u1)) u2 tab2
              = Inr tab'"
    by (auto split: sum.splits)
  from handleUniqueConstraint_add [OF add s]
  have "(UniqueType c, ToLower ul (UniqueField c), ctx_InstanceID ctx) \<in> set tab2" by simp
  from loop_keeps_key [OF r this keep] show ?thesis by (simp add: st')
qed

lemma unique_violation_not_retryable:
  "isUniqueViolationError err \<Longrightarrow> \<not> errIsRetryable (CaosError k (Some (DBError err)) i m)"
  by (cases err) (auto simp: isUniqueViolationError_def errIsRetryable_def)

lemma errIsRetryable_wrapped:
  "errIsRetryable (CaosError k (Some (DBError err)) i m) = errIsRetryable (DBError err)"
  by (simp add: errIsRetryable_def)




text \<open>
  C3. A storage failure of a constraint that Push does not return as an error: the
  insert of the constraint of the first command meets a serialization conflict
  (SQLSTATE 40001, no uniqueness violation) in the first execution, the library executes
  the batch again, and Push returns the events and no error; the store holds the
  constraint.
\<close>

theorem Push_constraint_conflict_not_returned:
  "uniqueInsert (stmts constraint_conflict_env 2) (unique_constraints empty_store)
       ''org_name'' ''acme'' ''i1'' = Inl (PgError ''40001'')
   \<and> \<not> isUniqueViolationError (PgError ''40001'')
   \<and> \<not> isl (snd (Push example_unicodeLower example_ctx constraint_conflict_env [example_env]
                    example_commands empty_store))
   \<and> unique_constraints (fst (Push example_unicodeLower example_ctx constraint_conflict_env
                                 [example_env] example_commands empty_store))
       = [(''org_name'', ''acme'', ''i1'')]"
  by (simp add: push_eval_defs example_defs constraint_conflict_env_def)

text \<open>
  C3. For a unique constraint of the batch: when Push succeeds, the store it leaves holds
  for an Add the row (uniqueType, lowercased uniqueField, instance of the context),
  unless a later constraint of the batch removes it. For a constraint that is reached (the
  inserts and the constraints before it went through): when the insert of an Add is
  refused with a uniqueness violation (SQLSTATE 23505), Push returns an error of the kind
  AlreadyExists with the error message of the constraint; when the insert fails
  otherwise, and when the delete of a Remove or of an InstanceRemove fails, the error is
  made an error of the kind Internal, and Push returns it unless the failure is a
  serialization conflict, on which the library executes the batch again or gives up. In
  each case of an error returned the store is as before the call.
\<close>

theorem Push_unique_constraint_errors:
  "(\<forall>st' es u1 c u2.
        Push unicodeLower ctx env retries commands st = (st', Inr es)
        \<and> concat (map cmd_UniqueConstraints commands) = u1 @ Some c # u2
        \<and> Action c = UniqueConstraintAdd
        \<and> (\<forall>uc \<in> set u2.
              \<not> removes_key unicodeLower (UniqueType c, ToLower unicodeLower (UniqueField c)) uc)
        \<longrightarrow> (UniqueType c, ToLower unicodeLower (UniqueField c), ctx_InstanceID ctx)
              \<in> set (unique_constraints st'))
   \<and> (\<forall>rows' es u1 c u2 tab1.
        push_commands ctx (stmts env) (commit_ts env) 0 commands (events st)
           = Inr (rows', es, u1 @ Some c # u2)
        \<and> handleUniqueConstraints_loop unicodeLower ctx (stmts env) (length commands) u1
             (unique_constraints st) = Inr tab1
        \<longrightarrow>
        (let senv = stmts env (length commands + length u1);
             field = ToLower unicodeLower (UniqueField c);
             inst = ctx_InstanceID ctx;
             returned = (\<lambda>err ident msg.
               if errIsRetryable (DBError err)
               then Push unicodeLower ctx env retries commands st
                      = after_failed_attempt unicodeLower ctx env retries commands st
                          (Error (CaosError Internal (Some (DBError err)) ident msg))
               else Push unicodeLower ctx env retries commands st
                      = (st, Inl (Error (CaosError Internal (Some (DBError err)) ident msg))))
         in (Action c = UniqueConstraintAdd \<longrightarrow>
               (\<forall>err. uniqueInsert senv tab1 (UniqueType c) field inst = Inl err \<longrightarrow>
                  (if isUniqueViolationError err
                   then Push unicodeLower ctx env retries commands st
                          = (st, Inl (Error (CaosError AlreadyExists (Some (DBError err))
                                               ''SQL-M0dsf'' (ErrorMessage c))))
                   else returned err ''SQL-dM9ds'' ''unable to create unique constraint'')))
          \<and> (Action c = UniqueConstraintRemove \<longrightarrow>
               (\<forall>err. uniqueDelete senv tab1 (UniqueType c) field inst = Inl err \<longrightarrow>
                  returned err ''SQL-6n88i'' ''unable to remove unique constraint''))
          \<and> (Action c = UniqueConstraintInstanceRemove \<longrightarrow>
               (\<forall>err. uniqueDeleteInstance senv tab1 inst = Inl err \<longrightarrow>
                  returned err ''SQL-6n88i'' ''unable to remove unique constraints of instance''))))"
proof (intro conjI allI impI)
  fix st' es u1 c u2
  assume "Push unicodeLower ctx env retries commands st = (st', Inr es)
        \<and> concat (map cmd_UniqueConstraints commands) = u1 @ Some c # u2
        \<and> Action c = UniqueConstraintAdd
        \<and> (\<forall>uc \<in> set u2.
              \<not> removes_key unicodeLower (UniqueType c, ToLower unicodeLower (UniqueField c)) uc)"
  then show "(UniqueType c, ToLower unicodeLower (UniqueField c), ctx_InstanceID ctx)
              \<in> set (unique_constraints st')"
    using Push_stores_added_key [of unicodeLower ctx env retries commands st st' es u1 c u2]
    by blast
next
  fix rows' es u1 c u2 tab1
  assume a: "push_commands ctx (stmts env) (commit_ts env) 0 commands (events st)
           = Inr (rows', es, u1 @ Some c # u2)
        \<and> handleUniqueConstraints_loop unicodeLower ctx (stmts env) (length commands) u1
             (unique_constraints st) = Inr tab1"
  define senv where "senv = stmts env (length commands + length u1)"
  define field where "field = ToLower unicodeLower (UniqueField c)"
  define inst where "inst = ctx_InstanceID ctx"
  define returned where "returned = (\<lambda>err ident msg.
               if errIsRetryable (DBError err)
               then Push unicodeLower ctx env retries commands st
                      = after_failed_attempt unicodeLower ctx env retries commands st
                          (Error (CaosError Internal (Some (DBError err)) ident msg))
               else Push unicodeLower ctx env retries commands st
                      = (st, Inl (Error (CaosError Internal (Some (DBError err)) ident msg))))"
  have n: "u1 @ Some c # u2 \<noteq> [None]" by (cases u1) auto
  have fail: "Push unicodeLower ctx env retries commands st
                = after_failed_attempt unicodeLower ctx env retries commands st f"
    if "handleUniqueConstraint unicodeLower ctx senv (Some c) tab1 = Inl f" for f
  proof -
    from a that have "push_tx unicodeLower ctx commands env st = Inl f"
      unfolding senv_def
      using push_tx_constraint_failure
              [of ctx env commands st rows' es u1 "Some c" u2 unicodeLower tab1 f] n
      by simp
    then show ?thesis by (rule Push_after_failed_attempt)
  qed
  have internal: "returned err ident msg"
    if "handleUniqueConstraint unicodeLower ctx senv (Some c) tab1
          = Inl (Error (CaosError Internal (Some (DBError err)) ident msg))" for err ident msg
  proof (cases "errIsRetryable (DBError err)")
    case True
    with fail [OF that] show ?thesis by (simp add: returned_def)
  next
    case False
    then have "after_failed_attempt unicodeLower ctx env retries commands st
                 (Error (CaosError Internal (Some (DBError err)) ident msg))
               = (st, Inl (Error (CaosError Internal (Some (DBError err)) ident msg)))"
      by (simp add: after_failed_attempt_def errIsRetryable_wrapped wrap_failure_def)
    with fail [OF that] False show ?thesis by (simp add: returned_def)
  qed
  have add_err: "if isUniqueViolationError err
                 then Push unicodeLower ctx env retries commands st
                        = (st, Inl (Error (CaosError AlreadyExists (Some (DBError err))
                                             ''SQL-M0dsf'' (ErrorMessage c))))
                 else returned err ''SQL-dM9ds'' ''unable to create unique constraint''"
    if "Action c = UniqueConstraintAdd"
       "uniqueInsert senv tab1 (UniqueType c) field inst = Inl err" for err
  proof (cases "isUniqueViolationError err")
    case True
    with that have h: "handleUniqueConstraint unicodeLower ctx senv (Some c) tab1
        = Inl (Error (CaosError AlreadyExists (Some (DBError err)) ''SQL-M0dsf'' (ErrorMessage c)))"
      unfolding handleUniqueConstraint_def Let_def field_def inst_def ThrowAlreadyExists_def
      by simp
    from unique_violation_not_retryable [OF True]
    have "after_failed_attempt unicodeLower ctx env retries commands st
            (Error (CaosError AlreadyExists (Some (DBError err)) ''SQL-M0dsf'' (ErrorMessage c)))
          = (st, Inl (Error (CaosError AlreadyExists (Some (DBError err)) ''SQL-M0dsf''
                               (ErrorMessage c))))"
      by (simp add: after_failed_attempt_def wrap_failure_def)
    with fail [OF h] True show ?thesis by simp
  next
    case False
    with that have "handleUniqueConstraint unicodeLower ctx senv (Some c) tab1
        = Inl (Error (CaosError Internal (Some (DBError err)) ''SQL-dM9ds''
                        ''unable to create unique constraint''))"
      unfolding handleUniqueConstraint_def Let_def field_def inst_def ThrowInternal_def
      by simp
    from internal [OF this] False show ?thesis by simp
  qed
  have rem_err: "returned err ''SQL-6n88i'' ''unable to remove unique constraint''"
    if "Action c = UniqueConstraintRemove"
       "uniqueDelete senv tab1 (UniqueType c) field inst = Inl err" for err
  proof -
    from that have "handleUniqueConstraint unicodeLower ctx senv (Some c) tab1
        = Inl (Error (CaosError Internal (Some (DBError err)) ''SQL-6n88i''
                        ''unable to remove unique constraint''))"
      unfolding handleUniqueConstraint_def Let_def field_def inst_def ThrowInternal_def
      by simp
    then show ?thesis by (rule internal)
  qed
  have irem_err: "returned err ''SQL-6n88i'' ''unable to remove unique constraints of instance''"
    if "Action c = UniqueConstraintInstanceRemove"
       "uniqueDeleteInstance senv tab1 inst = Inl err" for err
  proof -
    from that have "handleUniqueConstraint unicodeLower ctx senv (Some c) tab1
        = Inl (Error (CaosError Internal (Some (DBError err)) ''SQL-6n88i''
                        ''unable to remove unique constraints of instance''))"
      unfolding handleUniqueConstraint_def Let_def field_def inst_def ThrowInternal_def
      by simp
    then show ?thesis by (rule internal)
  qed
  from add_err rem_err irem_err
  show "let senv = stmts env (length commands + length u1);
             field = ToLower unicodeLower (UniqueField c);
             inst = ctx_InstanceID ctx;
             returned = (\<lambda>err ident msg.
               if errIsRetryable (DBError err)
               then Push unicodeLower ctx env retries commands st
                      = after_failed_attempt unicodeLower ctx env retries commands st
                          (Error (CaosError Internal (Some (DBError err)) ident msg))
               else Push unicodeLower ctx env retries commands st
                      = (st, Inl (Error (CaosError Internal (Some (DBError err)) ident msg))))
         in (Action c = UniqueConstraintAdd \<longrightarrow>
               (\<forall>err. uniqueInsert senv tab1 (UniqueType c) field inst = Inl err \<longrightarrow>
                  (if isUniqueViolationError err
                   then Push unicodeLower ctx env retries commands st
                          = (st, Inl (Error (CaosError AlreadyExists (Some (DBError err))
                                               ''SQL-M0dsf'' (ErrorMessage c))))
                   else returned err ''SQL-dM9ds'' ''unable to create unique constraint'')))
          \<and> (Action c = UniqueConstraintRemove \<longrightarrow>
               (\<forall>err. uniqueDelete senv tab1 (UniqueType c) field inst = Inl err \<longrightarrow>
                  returned err ''SQL-6n88i'' ''unable to remove unique constraint''))
          \<and> (Action c = UniqueConstraintInstanceRemove \<longrightarrow>
               (\<forall>err. uniqueDeleteInstance senv tab1 inst = Inl err \<longrightarrow>
                  returned err ''SQL-6n88i'' ''unable to remove unique constraints of instance''))"
    unfolding Let_def senv_def [symmetric] field_def [symmetric] inst_def [symmetric]
      returned_def [symmetric]
    by blast
qed

text \<open>
  In the first example the name \<open>ACME\<close> is added to the empty store: the store Push
  leaves holds \<open>acme\<close>. In the second a name that begins with a capital A with diaeresis
  is added while the name with the small letter is taken in the instance: Push returns
  AlreadyExists with the message of the constraint and the store is unchanged.
\<close>

theorem Push_unique_constraint_errors_witness:
  "(''org_name'', ''acme'', ''i1'')
     \<in> set (unique_constraints
              (fst (Push example_unicodeLower example_ctx example_env [] example_commands
                      empty_store)))
   \<and> Push example_unicodeLower example_ctx example_env [] umlaut_commands umlaut_store
     = (umlaut_store,
        Inl (Error (CaosError AlreadyExists (Some (DBError (PgError ''23505'')))
                      ''SQL-M0dsf'' ''Errors.Org.AlreadyExists'')))"
proof -
  have "\<exists>st' es. Push example_unicodeLower example_ctx example_env [] example_commands empty_store
                   = (st', Inr es)"
    by (simp add: push_eval_defs example_defs)
  then obtain st' es where
    p: "Push example_unicodeLower example_ctx example_env [] example_commands empty_store
          = (st', Inr es)" by blast
  have u: "concat (map cmd_UniqueConstraints example_commands) = [] @ Some org_name_constraint # []"
    by (simp add: example_commands_def)
  have a: "Action org_name_constraint = UniqueConstraintAdd"
    by (simp add: org_name_constraint_def)
  have k: "\<forall>uc \<in> set ([] :: UniqueConstraint option list).
             \<not> removes_key example_unicodeLower
                 (UniqueType org_name_constraint,
                  ToLower example_unicodeLower (UniqueField org_name_constraint)) uc"
    by simp
  from Push_unique_constraint_errors
         [of example_unicodeLower example_ctx example_env "[]" example_commands empty_store]
       p u a k
  have "(UniqueType org_name_constraint,
         ToLower example_unicodeLower (UniqueField org_name_constraint),
         ctx_InstanceID example_ctx) \<in> set (unique_constraints st')"
    by blast
  then have first: "(''org_name'', ''acme'', ''i1'') \<in> set (unique_constraints st')"
    by (simp add: org_name_constraint_def example_ctx_def ToLower_def lower_char_def)
  have "\<exists>rows' es. push_commands example_ctx (stmts example_env) (commit_ts example_env) 0
                     umlaut_commands (events umlaut_store)
                   = Inr (rows', es, [] @ Some umlaut_constraint # [])"
    by (simp add: push_eval_defs example_defs umlaut_commands_def umlaut_store_def)
  then obtain rows' es' where
    h1: "push_commands example_ctx (stmts example_env) (commit_ts example_env) 0
           umlaut_commands (events umlaut_store)
          = Inr (rows', es', [] @ Some umlaut_constraint # [])" by blast
  have h2: "handleUniqueConstraints_loop example_unicodeLower example_ctx (stmts example_env)
              (length umlaut_commands) [] (unique_constraints umlaut_store)
            = Inr (unique_constraints umlaut_store)"
    by simp
  have ins: "uniqueInsert (stmts example_env (length umlaut_commands + length ([] :: UniqueConstraint option list)))
               (unique_constraints umlaut_store) (UniqueType umlaut_constraint)
               (ToLower example_unicodeLower (UniqueField umlaut_constraint))
               (ctx_InstanceID example_ctx)
             = Inl (PgError ''23505'')"
    by (simp add: push_eval_defs example_defs umlaut_commands_def umlaut_store_def
          umlaut_constraint_def)
  have a': "Action umlaut_constraint = UniqueConstraintAdd"
    by (simp add: umlaut_constraint_def)
  have v: "isUniqueViolationError (PgError ''23505'')"
    by (simp add: isUniqueViolationError_def)
  note r = Push_unique_constraint_errors
             [of example_unicodeLower example_ctx example_env "[]" umlaut_commands umlaut_store,
              THEN conjunct2, rule_format, OF conjI [OF h1 h2]]
  from r [unfolded Let_def, THEN conjunct1, rule_format, OF a' ins] v
  have "Push example_unicodeLower example_ctx example_env [] umlaut_commands umlaut_store
     = (umlaut_store,
        Inl (Error (CaosError AlreadyExists (Some (DBError (PgError ''23505'')))
                      ''SQL-M0dsf'' (ErrorMessage umlaut_constraint))))"
    by (simp only: if_True)
  then have second: "Push example_unicodeLower example_ctx example_env [] umlaut_commands umlaut_store
     = (umlaut_store,
        Inl (Error (CaosError AlreadyExists (Some (DBError (PgError ''23505'')))
                      ''SQL-M0dsf'' ''Errors.Org.AlreadyExists'')))"
    by (simp add: umlaut_constraint_def)
  from first p second show ?thesis by simp
qed

lemma order_le_orderBy:
  "order_le (orderByEventSequence desc) a b
     \<longleftrightarrow> (if desc then commit_key b \<le> commit_key a else commit_key a \<le> commit_key b)"
  by (auto simp: orderByEventSequence_def commit_key_def)

lemma order_le_orderBy_fun:
  "order_le (orderByEventSequence desc)
     = (\<lambda>a b. if desc then commit_key b \<le> commit_key a else commit_key a \<le> commit_key b)"
  by (intro ext) (simp only: order_le_orderBy)

lemma order_le_total: "order_le ks a b \<or> order_le ks b a"
  by (induction ks a b rule: order_le.induct) (auto split: sort_direction.splits)

lemma order_le_trans: "order_le ks a b \<Longrightarrow> order_le ks b c \<Longrightarrow> order_le ks a c"
proof (induction ks)
  case Nil
  then show ?case by simp
next
  case (Cons k ks)
  obtain col d where k: "k = (col, d)" by (cases k)
  from Cons show ?case unfolding k
    by (cases d) (auto split: if_splits)
qed

lemma set_order_insert: "set (order_insert ks x xs) = insert x (set xs)"
  by (induction xs) auto

lemma sorted_order_insert:
  "sorted_wrt (order_le ks) xs \<Longrightarrow> sorted_wrt (order_le ks) (order_insert ks x xs)"
proof (induction xs)
  case Nil
  then show ?case by simp
next
  case (Cons y ys)
  show ?case
  proof (cases "order_le ks x y")
    case True
    with Cons.prems show ?thesis
      by (auto intro: order_le_trans)
  next
    case False
    with order_le_total [of ks x y] have yx: "order_le ks y x" by blast
    with Cons False show ?thesis
      by (auto simp: set_order_insert)
  qed
qed

lemma mset_order_insert: "mset (order_insert ks x xs) = add_mset x (mset xs)"
  by (induction xs) auto

lemma sorted_sql_order_by: "sorted_wrt (order_le ks) (sql_order_by ks rows)"
  unfolding sql_order_by_def by (induction rows) (auto intro: sorted_order_insert)

lemma mset_sql_order_by: "mset (sql_order_by ks rows) = mset rows"
  unfolding sql_order_by_def by (induction rows) (auto simp: mset_order_insert)

lemma sorted_wrt_take: "sorted_wrt P xs \<Longrightarrow> sorted_wrt P (take n xs)"
proof (induction xs arbitrary: n)
  case Nil
  then show ?case by simp
next
  case (Cons x xs)
  then show ?case by (cases n) (auto dest: in_set_takeD)
qed

text \<open>
  C5. What Filter returns is in commit order, by the commit timestamp first and by the
  event sequence among events of one timestamp: ascending when the query does not ask
  for descending order (the direction of a replay), descending when it does. The events
  are events of the log that match the query, and all of them when no limit is set.
\<close>

theorem Filter_commit_order:
  assumes "Filter env searchQuery rows = Inr result"
  shows "map fst (orderByEventSequence (sq_Desc searchQuery))
           = [crdb_internal_mvcc_timestamp, event_sequence_column]
       \<and> (\<not> sq_Desc searchQuery \<longrightarrow>
            sorted_wrt (\<lambda>a b. commit_key a \<le> commit_key b) result)
       \<and> (sq_Desc searchQuery \<longrightarrow>
            sorted_wrt (\<lambda>a b. commit_key b \<le> commit_key a) result)
       \<and> set result \<subseteq> {r \<in> set rows. sq_matches searchQuery r}
       \<and> (sq_Limit searchQuery = 0 \<longrightarrow>
            mset result = mset (filter (sq_matches searchQuery) rows))"
proof -
  let ?ks = "orderByEventSequence (sq_Desc searchQuery)"
  let ?ordered = "sql_order_by ?ks (filter (sq_matches searchQuery) rows)"
  from assms have res: "result = (if sq_Limit searchQuery > 0 then take (sq_Limit searchQuery) ?ordered
                                  else ?ordered)"
    unfolding Filter_def query_def Let_def by (auto split: option.splits sum.splits)
  have "sorted_wrt (order_le ?ks) ?ordered" by (rule sorted_sql_order_by)
  then have "sorted_wrt (order_le ?ks) result"
    unfolding res by (auto intro: sorted_wrt_take)
  then have s: "sorted_wrt (\<lambda>a b. if sq_Desc searchQuery then commit_key b \<le> commit_key a
                                    else commit_key a \<le> commit_key b) result"
    by (simp only: order_le_orderBy_fun)
  have m: "mset ?ordered = mset (filter (sq_matches searchQuery) rows)"
    by (rule mset_sql_order_by)
  then have "set ?ordered = set (filter (sq_matches searchQuery) rows)"
    by (rule mset_eq_setD)
  then have sub: "set result \<subseteq> {r \<in> set rows. sq_matches searchQuery r}"
    unfolding res by (auto dest: in_set_takeD)
  have k: "map fst ?ks = [crdb_internal_mvcc_timestamp, event_sequence_column]"
    by (simp add: orderByEventSequence_def)
  from s have a: "\<not> sq_Desc searchQuery \<longrightarrow> sorted_wrt (\<lambda>a b. commit_key a \<le> commit_key b) result"
    by (cases "sq_Desc searchQuery") simp_all
  from s have d: "sq_Desc searchQuery \<longrightarrow> sorted_wrt (\<lambda>a b. commit_key b \<le> commit_key a) result"
    by (cases "sq_Desc searchQuery") simp_all
  from m res have l: "sq_Limit searchQuery = 0 \<longrightarrow> mset result = mset (filter (sq_matches searchQuery) rows)"
    by simp
  from k a d sub l show ?thesis by blast
qed

text \<open>
  On the example log the replay order is \<open>o3\<close>, \<open>o1\<close>, \<open>o2\<close>: the event of \<open>o2\<close> has
  sequence 1 and comes last, after the event of \<open>o1\<close> with sequence 5, because it was
  committed later.
\<close>

theorem Filter_commit_order_witness:
  "Filter no_fault \<lparr> sq_matches = (\<lambda>r. True), sq_Desc = False, sq_Limit = 0 \<rparr> example_log
     = Inr [example_event ''o3'' 1 10, example_event ''o1'' 5 10, example_event ''o2'' 1 20]
   \<and> sorted_wrt (\<lambda>a b. commit_key a \<le> commit_key b)
        [example_event ''o3'' 1 10, example_event ''o1'' 5 10, example_event ''o2'' 1 20]
   \<and> Filter no_fault \<lparr> sq_matches = (\<lambda>r. True), sq_Desc = True, sq_Limit = 2 \<rparr> example_log
     = Inr [example_event ''o2'' 1 20, example_event ''o1'' 5 10]"
proof -
  have h: "Filter no_fault \<lparr> sq_matches = (\<lambda>r. True), sq_Desc = False, sq_Limit = 0 \<rparr> example_log
     = Inr [example_event ''o3'' 1 10, example_event ''o1'' 5 10, example_event ''o2'' 1 20]"
    by (simp add: Filter_def query_def no_fault_def example_log_def sql_order_by_def
          orderByEventSequence_def example_event_def)
  have h2: "Filter no_fault \<lparr> sq_matches = (\<lambda>r. True), sq_Desc = True, sq_Limit = 2 \<rparr> example_log
     = Inr [example_event ''o2'' 1 20, example_event ''o1'' 5 10]"
    by (simp add: Filter_def query_def no_fault_def example_log_def sql_order_by_def
          orderByEventSequence_def example_event_def)
  from Filter_commit_order [OF h]
  have "sorted_wrt (\<lambda>a b. commit_key a \<le> commit_key b)
        [example_event ''o3'' 1 10, example_event ''o1'' 5 10, example_event ''o2'' 1 20]"
    by simp
  with h h2 show ?thesis by blast
qed

lemmas reducer_defs =
  reduceExecutionSet_def reduceExecutionRemoved_def reduceInstanceRemovedHelper_def
  reduceSessionAdded_def reduceUserChecked_def reducePasswordChecked_def
  reduceIntentChecked_def reduceWebAuthNChecked_def reduceTOTPChecked_def reduceTokenSet_def
  reduceMetadataSet_def reduceSessionTerminated_def reducePasswordChanged_def

lemma reduceExecutionSet_type:
  "(dynamic_type ev \<noteq> Some exec_SetEvent \<longrightarrow>
      (\<exists>ident msg. reduceExecutionSet tn ev = Inl (CaosError InvalidArgument None ident msg)))
   \<and> (dynamic_type ev = Some exec_SetEvent \<longrightarrow> (\<exists>stmt. reduceExecutionSet tn ev = Inr stmt))"
  by (cases ev) (simp_all add: reduceExecutionSet_def ThrowInvalidArgumentf_def Let_def)

lemma reduceExecutionRemoved_type:
  "(dynamic_type ev \<noteq> Some exec_RemovedEvent \<longrightarrow>
      (\<exists>ident msg. reduceExecutionRemoved tn ev = Inl (CaosError InvalidArgument None ident msg)))
   \<and> (dynamic_type ev = Some exec_RemovedEvent \<longrightarrow> (\<exists>stmt. reduceExecutionRemoved tn ev = Inr stmt))"
  by (cases ev) (simp_all add: reduceExecutionRemoved_def ThrowInvalidArgumentf_def)

lemma reduceInstanceRemovedHelper_type:
  "(dynamic_type ev \<noteq> Some instance_InstanceRemovedEvent \<longrightarrow>
      (\<exists>ident msg. reduceInstanceRemovedHelper tn col ev = Inl (CaosError InvalidArgument None ident msg)))
   \<and> (dynamic_type ev = Some instance_InstanceRemovedEvent \<longrightarrow>
        (\<exists>stmt. reduceInstanceRemovedHelper tn col ev = Inr stmt))"
  by (cases ev) (simp_all add: reduceInstanceRemovedHelper_def ThrowInvalidArgumentf_def)

lemma reduceSessionAdded_type:
  "(dynamic_type ev \<noteq> Some session_AddedEvent \<longrightarrow>
      (\<exists>ident msg. reduceSessionAdded tn ev = Inl (CaosError InvalidArgument None ident msg)))
   \<and> (dynamic_type ev = Some session_AddedEvent \<longrightarrow> (\<exists>stmt. reduceSessionAdded tn ev = Inr stmt))"
  by (cases ev) (simp_all add: reduceSessionAdded_def ThrowInvalidArgumentf_def)

lemma reduceUserChecked_type:
  "(dynamic_type ev \<noteq> Some session_UserCheckedEvent \<longrightarrow>
      (\<exists>ident msg. reduceUserChecked tn ev = Inl (CaosError InvalidArgument None ident msg)))
   \<and> (dynamic_type ev = Some session_UserCheckedEvent \<longrightarrow> (\<exists>stmt. reduceUserChecked tn ev = Inr stmt))"
  by (cases ev) (simp_all add: reduceUserChecked_def ThrowInvalidArgumentf_def)

lemma reducePasswordChecked_type:
  "(dynamic_type ev \<noteq> Some session_PasswordCheckedEvent \<longrightarrow>
      (\<exists>ident msg. reducePasswordChecked tn ev = Inl (CaosError InvalidArgument None ident msg)))
   \<and> (dynamic_type ev = Some session_PasswordCheckedEvent \<longrightarrow>
        (\<exists>stmt. reducePasswordChecked tn ev = Inr stmt))"
  by (cases ev) (simp_all add: reducePasswordChecked_def ThrowInvalidArgumentf_def)

lemma reduceIntentChecked_type:
  "(dynamic_type ev \<noteq> Some session_IntentCheckedEvent \<longrightarrow>
      (\<exists>ident msg. reduceIntentChecked tn ev = Inl (CaosError InvalidArgument None ident msg)))
   \<and> (dynamic_type ev = Some session_IntentCheckedEvent \<longrightarrow>
        (\<exists>stmt. reduceIntentChecked tn ev = Inr stmt))"
  by (cases ev) (simp_all add: reduceIntentChecked_def ThrowInvalidArgumentf_def)

lemma reduceWebAuthNChecked_type:
  "(dynamic_type ev \<noteq> Some session_WebAuthNCheckedEvent \<longrightarrow>
      (\<exists>ident msg. reduceWebAuthNChecked tn ev = Inl (CaosError InvalidArgument None ident msg)))
   \<and> (dynamic_type ev = Some session_WebAuthNCheckedEvent \<longrightarrow>
        (\<exists>stmt. reduceWebAuthNChecked tn ev = Inr stmt))"
  by (cases ev) (simp_all add: reduceWebAuthNChecked_def ThrowInvalidArgumentf_def)

lemma reduceTOTPChecked_type:
  "(dynamic_type ev \<noteq> Some session_TOTPCheckedEvent \<longrightarrow>
      (\<exists>ident msg. reduceTOTPChecked tn ev = Inl (CaosError InvalidArgument None ident msg)))
   \<and> (dynamic_type ev = Some session_TOTPCheckedEvent \<longrightarrow> (\<exists>stmt. reduceTOTPChecked tn ev = Inr stmt))"
  by (cases ev) (simp_all add: reduceTOTPChecked_def ThrowInvalidArgumentf_def)

lemma reduceTokenSet_type:
  "(dynamic_type ev \<noteq> Some session_TokenSetEvent \<longrightarrow>
      (\<exists>ident msg. reduceTokenSet tn ev = Inl (CaosError InvalidArgument None ident msg)))
   \<and> (dynamic_type ev = Some session_TokenSetEvent \<longrightarrow> (\<exists>stmt. reduceTokenSet tn ev = Inr stmt))"
  by (cases ev) (simp_all add: reduceTokenSet_def ThrowInvalidArgumentf_def)

lemma reduceMetadataSet_type:
  "(dynamic_type ev \<noteq> Some session_MetadataSetEvent \<longrightarrow>
      (\<exists>ident msg. reduceMetadataSet tn ev = Inl (CaosError InvalidArgument None ident msg)))
   \<and> (dynamic_type ev = Some session_MetadataSetEvent \<longrightarrow> (\<exists>stmt. reduceMetadataSet tn ev = Inr stmt))"
  by (cases ev) (simp_all add: reduceMetadataSet_def ThrowInvalidArgumentf_def)

lemma reduceSessionTerminated_type:
  "(dynamic_type ev \<noteq> Some session_TerminateEvent \<longrightarrow>
      (\<exists>ident msg. reduceSessionTerminated tn ev = Inl (CaosError InvalidArgument None ident msg)))
   \<and> (dynamic_type ev = Some session_TerminateEvent \<longrightarrow>
        (\<exists>stmt. reduceSessionTerminated tn ev = Inr stmt))"
  by (cases ev) (simp_all add: reduceSessionTerminated_def ThrowInvalidArgumentf_def)

lemma reducePasswordChanged_type:
  "(dynamic_type ev \<noteq> Some user_HumanPasswordChangedEvent \<longrightarrow>
      (\<exists>ident msg. reducePasswordChanged tn ev = Inl (CaosError InvalidArgument None ident msg)))
   \<and> (dynamic_type ev = Some user_HumanPasswordChangedEvent \<longrightarrow>
        (\<exists>stmt. reducePasswordChanged tn ev = Inr stmt))"
  by (cases ev) (simp_all add: reducePasswordChanged_def ThrowInvalidArgumentf_def)

lemmas reducer_types =
  reduceExecutionSet_type reduceExecutionRemoved_type reduceInstanceRemovedHelper_type
  reduceSessionAdded_type reduceUserChecked_type reducePasswordChecked_type
  reduceIntentChecked_type reduceWebAuthNChecked_type reduceTOTPChecked_type
  reduceTokenSet_type reduceMetadataSet_type reduceSessionTerminated_type
  reducePasswordChanged_type

lemma reducer_types_all:
  "\<forall>ev. (dynamic_type ev \<noteq> Some exec_SetEvent \<longrightarrow>
      (\<exists>ident msg. reduceExecutionSet tn ev = Inl (CaosError InvalidArgument None ident msg)))
   \<and> (dynamic_type ev = Some exec_SetEvent \<longrightarrow> (\<exists>stmt. reduceExecutionSet tn ev = Inr stmt))"
  "\<forall>ev. (dynamic_type ev \<noteq> Some exec_RemovedEvent \<longrightarrow>
      (\<exists>ident msg. reduceExecutionRemoved tn ev = Inl (CaosError InvalidArgument None ident msg)))
   \<and> (dynamic_type ev = Some exec_RemovedEvent \<longrightarrow> (\<exists>stmt. reduceExecutionRemoved tn ev = Inr stmt))"
  "\<forall>ev. (dynamic_type ev \<noteq> Some instance_InstanceRemovedEvent \<longrightarrow>
      (\<exists>ident msg. reduceInstanceRemovedHelper tn col ev = Inl (CaosError InvalidArgument None ident msg)))
   \<and> (dynamic_type ev = Some instance_InstanceRemovedEvent \<longrightarrow>
        (\<exists>stmt. reduceInstanceRemovedHelper tn col ev = Inr stmt))"
  "\<forall>ev. (dynamic_type ev \<noteq> Some session_AddedEvent \<longrightarrow>
      (\<exists>ident msg. reduceSessionAdded tn ev = Inl (CaosError InvalidArgument None ident msg)))
   \<and> (dynamic_type ev = Some session_AddedEvent \<longrightarrow> (\<exists>stmt. reduceSessionAdded tn ev = Inr stmt))"
  "\<forall>ev. (dynamic_type ev \<noteq> Some session_UserCheckedEvent \<longrightarrow>
      (\<exists>ident msg. reduceUserChecked tn ev = Inl (CaosError InvalidArgument None ident msg)))
   \<and> (dynamic_type ev = Some session_UserCheckedEvent \<longrightarrow> (\<exists>stmt. reduceUserChecked tn ev = Inr stmt))"
  "\<forall>ev. (dynamic_type ev \<noteq> Some session_PasswordCheckedEvent \<longrightarrow>
      (\<exists>ident msg. reducePasswordChecked tn ev = Inl (CaosError InvalidArgument None ident msg)))
   \<and> (dynamic_type ev = Some session_PasswordCheckedEvent \<longrightarrow>
        (\<exists>stmt. reducePasswordChecked tn ev = Inr stmt))"
  "\<forall>ev. (dynamic_type ev \<noteq> Some session_IntentCheckedEvent \<longrightarrow>
      (\<exists>ident msg. reduceIntentChecked tn ev = Inl (CaosError InvalidArgument None ident msg)))
   \<and> (dynamic_type ev = Some session_IntentCheckedEvent \<longrightarrow>
        (\<exists>stmt. reduceIntentChecked tn ev = Inr stmt))"
  "\<forall>ev. (dynamic_type ev \<noteq> Some session_WebAuthNCheckedEvent \<longrightarrow>
      (\<exists>ident msg. reduceWebAuthNChecked tn ev = Inl (CaosError InvalidArgument None ident msg)))
   \<and> (dynamic_type ev = Some session_WebAuthNCheckedEvent \<longrightarrow>
        (\<exists>stmt. reduceWebAuthNChecked tn ev = Inr stmt))"
  "\<forall>ev. (dynamic_type ev \<noteq> Some session_TOTPCheckedEvent \<longrightarrow>
      (\<exists>ident msg. reduceTOTPChecked tn ev = Inl (CaosError InvalidArgument None ident msg)))
   \<and> (dynamic_type ev = Some session_TOTPCheckedEvent \<longrightarrow> (\<exists>stmt. reduceTOTPChecked tn ev = Inr stmt))"
  "\<forall>ev. (dynamic_type ev \<noteq> Some session_TokenSetEvent \<longrightarrow>
      (\<exists>ident msg. reduceTokenSet tn ev = Inl (CaosError InvalidArgument None ident msg)))
   \<and> (dynamic_type ev = Some session_TokenSetEvent \<longrightarrow> (\<exists>stmt. reduceTokenSet tn ev = Inr stmt))"
  "\<forall>ev. (dynamic_type ev \<noteq> Some session_MetadataSetEvent \<longrightarrow>
      (\<exists>ident msg. reduceMetadataSet tn ev = Inl (CaosError InvalidArgument None ident msg)))
   \<and> (dynamic_type ev = Some session_MetadataSetEvent \<longrightarrow> (\<exists>stmt. reduceMetadataSet tn ev = Inr stmt))"
  "\<forall>ev. (dynamic_type ev \<noteq> Some session_TerminateEvent \<longrightarrow>
      (\<exists>ident msg. reduceSessionTerminated tn ev = Inl (CaosError InvalidArgument None ident msg)))
   \<and> (dynamic_type ev = Some session_TerminateEvent \<longrightarrow>
        (\<exists>stmt. reduceSessionTerminated tn ev = Inr stmt))"
  "\<forall>ev. (dynamic_type ev \<noteq> Some user_HumanPasswordChangedEvent \<longrightarrow>
      (\<exists>ident msg. reducePasswordChanged tn ev = Inl (CaosError InvalidArgument None ident msg)))
   \<and> (dynamic_type ev = Some user_HumanPasswordChangedEvent \<longrightarrow>
        (\<exists>stmt. reducePasswordChanged tn ev = Inr stmt))"
  by (intro allI reducer_types)+

lemma registered_reducers_eq: "map fst (asserted_types tn) = (registered_reducers tn)"
  by (simp add: asserted_types_def registered_reducers_def execution_Reducers_def
        session_Reducers_def)

text \<open>
  C7. Every reducer that the execution projection and the session projection register
  asserts one concrete event type. Given an event whose dynamic type is another one (or
  the nil event), the reducer returns no statement and an error of the kind
  InvalidArgument; it never returns a statement for it and never returns without an
  error. Given an event of the asserted type it returns a statement.
\<close>

theorem reducers_reject_wrong_event_type:
  "map fst (asserted_types tn) = (registered_reducers tn)
   \<and> (\<forall>(reduce, T) \<in> set (asserted_types tn). \<forall>ev.
         (dynamic_type ev \<noteq> Some T \<longrightarrow>
            (\<exists>ident msg. reduce ev = Inl (CaosError InvalidArgument None ident msg)))
       \<and> (dynamic_type ev = Some T \<longrightarrow> (\<exists>stmt. reduce ev = Inr stmt)))"
proof
  show "map fst (asserted_types tn) = (registered_reducers tn)" by (rule registered_reducers_eq)
  show "\<forall>(reduce, T) \<in> set (asserted_types tn). \<forall>ev.
         (dynamic_type ev \<noteq> Some T \<longrightarrow>
            (\<exists>ident msg. reduce ev = Inl (CaosError InvalidArgument None ident msg)))
       \<and> (dynamic_type ev = Some T \<longrightarrow> (\<exists>stmt. reduce ev = Inr stmt))"
    unfolding asserted_types_def
    by (simp only: list.set ball_simps prod.case) (intro conjI reducer_types_all ballI TrueI)
qed

text \<open>
  The reducer of added sessions, given the event of a changed password.
\<close>

theorem reducers_reject_wrong_event_type_witness:
  "reduceSessionAdded example_type_names (HumanPasswordChangedEvent example_base)
     = Inl (CaosError InvalidArgument None ''HANDL-Sfrgf'' ''reduce.wrong.event.type session.added'')
   \<and> (\<exists>stmt. reduceSessionAdded example_type_names (SessionAddedEvent example_base ''u1'') = Inr stmt)"
proof -
  have m: "(reduceSessionAdded example_type_names, session_AddedEvent) \<in> set (asserted_types example_type_names)"
    by (simp add: asserted_types_def)
  from reducers_reject_wrong_event_type m
  have r: "\<forall>ev. (dynamic_type ev \<noteq> Some session_AddedEvent \<longrightarrow>
            (\<exists>ident msg. reduceSessionAdded example_type_names ev = Inl (CaosError InvalidArgument None ident msg)))
       \<and> (dynamic_type ev = Some session_AddedEvent \<longrightarrow> (\<exists>stmt. reduceSessionAdded example_type_names ev = Inr stmt))"
    by blast
  have "dynamic_type (SessionAddedEvent example_base ''u1'') = Some session_AddedEvent" by simp
  with r have a: "\<exists>stmt. reduceSessionAdded example_type_names (SessionAddedEvent example_base ''u1'') = Inr stmt"
    by blast
  have "dynamic_type (HumanPasswordChangedEvent example_base) \<noteq> Some session_AddedEvent" by simp
  with r have "\<exists>ident msg. reduceSessionAdded example_type_names (HumanPasswordChangedEvent example_base)
                   = Inl (CaosError InvalidArgument None ident msg)" by blast
  then have "reduceSessionAdded example_type_names (HumanPasswordChangedEvent example_base)
     = Inl (CaosError InvalidArgument None ''HANDL-Sfrgf'' ''reduce.wrong.event.type session.added'')"
    by (simp add: reduceSessionAdded_def ThrowInvalidArgumentf_def example_type_names_def)
  with a show ?thesis by blast
qed

lemma map_add_idem: "(r ++ m) ++ m = r ++ (m :: 'a \<rightharpoonup> 'b)"
  by (rule ext) (simp add: map_add_def split: option.splits)

lemma execute_update_idem:
  "execute pk (NewUpdateStatement e columns conds)
      (execute pk (NewUpdateStatement e columns conds) rows)
     = execute pk (NewUpdateStatement e columns conds) rows"
proof -
  let ?f = "\<lambda>r. if conds_hold conds r then r ++ row_of columns else r"
  have ff: "?f (?f r) = ?f r" for r
    by (simp add: map_add_idem)
  have "(\<lambda>r. ?f (?f r)) = ?f" by (rule ext) (rule ff)
  then have "map ?f (map ?f rows) = map ?f rows"
    by (simp only: map_map comp_def)
  then show ?thesis by (simp only: execute.simps)
qed

lemma execute_delete_idem:
  "execute pk (NewDeleteStatement e conds) (execute pk (NewDeleteStatement e conds) rows)
     = execute pk (NewDeleteStatement e conds) rows"
  by simp

lemma same_key_refl: "same_key pk r r"
  by (simp add: same_key_def list_all_iff)

lemma execute_create_idem:
  "execute pk (NewCreateStatement e columns) (execute pk (NewCreateStatement e columns) rows)
     = execute pk (NewCreateStatement e columns) rows"
  by (simp add: same_key_refl)

lemma map_of_filter_le:
  assumes "distinct (map fst xs)"
  shows "map_of (filter P xs) \<subseteq>\<^sub>m map_of xs"
  unfolding map_le_def
proof
  fix k assume "k \<in> dom (map_of (filter P xs))"
  then obtain v where v: "map_of (filter P xs) k = Some v" by blast
  then have "(k, v) \<in> set xs" by (auto dest: map_of_SomeD)
  with assms have "map_of xs k = Some v" by (rule map_of_is_SomeI)
  with v show "map_of (filter P xs) k = map_of xs k" by simp
qed

lemma row_of_member:
  assumes "distinct (map fst columns)" and "(name, v) \<in> set columns"
  shows "row_of columns name = Some (value_of v)"
proof -
  have d: "distinct (map fst (map (\<lambda>(name, v). (name, value_of v)) columns))"
    using assms(1) by (simp add: comp_def case_prod_unfold)
  have "(name, value_of v) \<in> set (map (\<lambda>(name, v). (name, value_of v)) columns)"
    using assms(2) by force
  with d show ?thesis unfolding row_of_def by (rule map_of_is_SomeI)
qed

lemma row_of_updated_le:
  assumes "distinct (map fst columns)"
  shows "row_of (updated_columns columns) \<subseteq>\<^sub>m row_of columns"
proof -
  have d: "distinct (map fst (map (\<lambda>(name, v). (name, value_of v)) columns))"
    using assms by (simp add: comp_def case_prod_unfold)
  have "map (\<lambda>(name, v). (name, value_of v)) (filter (\<lambda>c. \<not> only_on_insert c) columns)
          = map (\<lambda>(name, v). (name, value_of v)) (filter (\<lambda>c. \<not> only_on_insert c) columns)"
    by simp
  have le: "map_of (map (\<lambda>(name, v). (name, value_of v)) (filter (\<lambda>c. \<not> only_on_insert c) columns))
              \<subseteq>\<^sub>m map_of (map (\<lambda>(name, v). (name, value_of v)) columns)"
    unfolding map_le_def
  proof
    fix k assume "k \<in> dom (map_of (map (\<lambda>(name, v). (name, value_of v))
                                     (filter (\<lambda>c. \<not> only_on_insert c) columns)))"
    then obtain x where x: "map_of (map (\<lambda>(name, v). (name, value_of v))
                                     (filter (\<lambda>c. \<not> only_on_insert c) columns)) k = Some x" by blast
    then have "(k, x) \<in> set (map (\<lambda>(name, v). (name, value_of v)) columns)"
      by (auto dest!: map_of_SomeD)
    with d have "map_of (map (\<lambda>(name, v). (name, value_of v)) columns) k = Some x"
      by (rule map_of_is_SomeI)
    with x show "map_of (map (\<lambda>(name, v). (name, value_of v))
                           (filter (\<lambda>c. \<not> only_on_insert c) columns)) k
                  = map_of (map (\<lambda>(name, v). (name, value_of v)) columns) k" by simp
  qed
  then show ?thesis by (simp add: row_of_def updated_columns_def)
qed

lemma conflict_hit:
  assumes "\<forall>(name, v) \<in> set conflictCols. r name = Some (value_of v) \<and> value_of v \<noteq> Null"
  shows "conds_hold (conflict_conds conflictCols) r"
  using assms unfolding conds_hold_def conflict_conds_def list_all_iff by auto

lemma upsert_hit_new:
  assumes "well_formed (NewUpsertStatement e conflictCols columns)"
  shows "conds_hold (conflict_conds conflictCols) (row_of columns)"
proof (rule conflict_hit, clarify)
  fix name v assume m: "(name, v) \<in> set conflictCols"
  from assms have d: "distinct (map fst columns)" and sub: "set conflictCols \<subseteq> set columns"
    and nn: "\<forall>c\<in>set conflictCols. value_of (snd c) \<noteq> Null \<and> \<not> only_on_insert c"
    by (simp_all add: list_all_iff)
  from m sub have "(name, v) \<in> set columns" by blast
  from row_of_member [OF d this] nn m
  show "row_of columns name = Some (value_of v) \<and> value_of v \<noteq> Null" by force
qed

lemma upsert_hit_updated:
  assumes "well_formed (NewUpsertStatement e conflictCols columns)"
  shows "conds_hold (conflict_conds conflictCols) (r ++ row_of (updated_columns columns))"
proof (rule conflict_hit, clarify)
  fix name v assume m: "(name, v) \<in> set conflictCols"
  from assms have d: "distinct (map fst columns)" and sub: "set conflictCols \<subseteq> set columns"
    and nn: "\<forall>c\<in>set conflictCols. value_of (snd c) \<noteq> Null \<and> \<not> only_on_insert c"
    by (simp_all add: list_all_iff)
  from m sub nn have mem: "(name, v) \<in> set (updated_columns columns)"
    unfolding updated_columns_def by auto
  from d have "distinct (map fst (updated_columns columns))"
    unfolding updated_columns_def by (rule distinct_map_filter)
  from row_of_member [OF this mem] nn m
  show "(r ++ row_of (updated_columns columns)) name = Some (value_of v) \<and> value_of v \<noteq> Null"
    by force
qed

lemma execute_upsert_hit:
  assumes "well_formed (NewUpsertStatement e conflictCols columns)"
  shows "list_ex (conds_hold (conflict_conds conflictCols))
           (execute pk (NewUpsertStatement e conflictCols columns) rows)"
proof (cases "list_ex (conds_hold (conflict_conds conflictCols)) rows")
  case True
  then obtain r where r: "r \<in> set rows" "conds_hold (conflict_conds conflictCols) r"
    by (auto simp: list_ex_iff)
  then have "r ++ row_of (updated_columns columns)
              \<in> set (execute pk (NewUpsertStatement e conflictCols columns) rows)"
    using True by force
  with upsert_hit_updated [OF assms] show ?thesis
    unfolding list_ex_iff by blast
next
  case False
  with upsert_hit_new [OF assms] show ?thesis by (simp add: list_ex_iff)
qed

lemma execute_upsert_idem:
  assumes "well_formed (NewUpsertStatement e conflictCols columns)"
  shows "execute pk (NewUpsertStatement e conflictCols columns)
           (execute pk (NewUpsertStatement e conflictCols columns) rows)
         = execute pk (NewUpsertStatement e conflictCols columns) rows"
proof -
  let ?H = "conds_hold (conflict_conds conflictCols)"
  let ?u = "row_of (updated_columns columns)"
  let ?f = "\<lambda>r. if ?H r then r ++ ?u else r"
  let ?s = "NewUpsertStatement e conflictCols columns"
  from assms have d: "distinct (map fst columns)" by simp
  have ff: "?f (?f r) = ?f r" for r
    by (simp add: map_add_idem upsert_hit_updated [OF assms])
  have fff: "(\<lambda>r. ?f (?f r)) = ?f" by (rule ext) (rule ff)
  have step: "execute pk ?s xs = map ?f xs" if "list_ex ?H xs" for xs
    using that by simp
  have second: "execute pk ?s (execute pk ?s rows) = map ?f (execute pk ?s rows)"
    by (rule step [OF execute_upsert_hit [OF assms, of pk rows]])
  show ?thesis
  proof (cases "list_ex ?H rows")
    case True
    then have first: "execute pk ?s rows = map ?f rows" by (rule step)
    have "map ?f (map ?f rows) = map ?f rows"
      using fff by (simp only: map_map comp_def)
    with second show ?thesis unfolding first by simp
  next
    case False
    then have first: "execute pk ?s rows = rows @ [row_of columns]" by simp
    from False have m: "map ?f rows = rows"
      by (intro map_idI) (auto simp: list_ex_iff)
    have n: "?f (row_of columns) = row_of columns"
      using map_add_subsumed2 [OF row_of_updated_le [OF d]] by simp
    have "map ?f (rows @ [row_of columns]) = rows @ [row_of columns]"
      using m n by (simp only: map_append list.map)
    with second show ?thesis unfolding first by simp
  qed
qed

lemma execute_idem:
  assumes "well_formed stmt"
  shows "execute pk stmt (execute pk stmt rows) = execute pk stmt rows"
proof (cases stmt)
  case (NewCreateStatement e columns)
  then show ?thesis by (simp only: execute_create_idem)
next
  case (NewUpsertStatement e conflictCols columns)
  with assms show ?thesis by (simp only: execute_upsert_idem)
next
  case (NewUpdateStatement e columns conds)
  then show ?thesis by (simp only: execute_update_idem)
next
  case (NewDeleteStatement e conds)
  then show ?thesis by (simp only: execute_delete_idem)
qed

lemmas column_defs =
  NewCol_def ExecutionTable_def ExecutionIDCol_def ExecutionCreationDateCol_def
  ExecutionChangeDateCol_def ExecutionResourceOwnerCol_def ExecutionInstanceIDCol_def
  ExecutionSequenceCol_def ExecutionTargetsCol_def ExecutionIncludesCol_def
  SessionColumnID_def SessionColumnCreationDate_def SessionColumnChangeDate_def
  SessionColumnSequence_def SessionColumnState_def SessionColumnResourceOwner_def
  SessionColumnInstanceID_def SessionColumnCreator_def SessionColumnUserID_def
  SessionColumnUserCheckedAt_def SessionColumnPasswordCheckedAt_def
  SessionColumnIntentCheckedAt_def SessionColumnWebAuthNCheckedAt_def
  SessionColumnWebAuthNUserVerified_def SessionColumnTOTPCheckedAt_def
  SessionColumnMetadata_def SessionColumnTokenID_def SMSColumnInstanceID_def

lemma reduceExecutionSet_Inr:
  "reduceExecutionSet tn ev = Inr stmt \<longleftrightarrow>
     (\<exists>e targets includes. ev = ExecSetEvent e targets includes
        \<and> stmt = NewUpsertStatement e (take 3 (execution_set_columns e targets includes))
                   (execution_set_columns e targets includes))"
  by (cases ev)
     (auto simp: reduceExecutionSet_def execution_set_columns_def ThrowInvalidArgumentf_def Let_def)

lemma execution_set_well_formed:
  "well_formed (NewUpsertStatement e (take 3 (execution_set_columns e targets includes))
                  (execution_set_columns e targets includes))"
  by (simp add: execution_set_columns_def column_defs)

lemma execution_set_conflict_conds:
  "conflict_conds (take 3 (execution_set_columns e targets includes))
     = [NewCond ExecutionInstanceIDCol (Text (agg_InstanceID (be_Aggregate e))),
        NewCond ExecutionResourceOwnerCol (Text (agg_ResourceOwner (be_Aggregate e))),
        NewCond ExecutionIDCol (Text (agg_ID (be_Aggregate e)))]"
  by (simp add: execution_set_columns_def conflict_conds_def NewCol_def)

lemma execution_set_keeps_creation_date:
  "(r ++ row_of (updated_columns (execution_set_columns e targets includes))) ExecutionCreationDateCol
     = r ExecutionCreationDateCol"
  by (simp add: execution_set_columns_def updated_columns_def row_of_def column_defs map_add_def)

lemma reducers_well_formed:
  "\<forall>reduce \<in> set (registered_reducers tn). \<forall>ev stmt. reduce ev = Inr stmt \<longrightarrow> well_formed stmt"
  unfolding registered_reducers_def execution_Reducers_def session_Reducers_def
proof (simp only: list.set list.map concat.simps append.simps snd_conv ball_simps,
       intro conjI allI impI TrueI)
  fix ev stmt assume "reduceExecutionSet tn ev = Inr stmt"
  then show "well_formed stmt"
    unfolding reduceExecutionSet_Inr using execution_set_well_formed by blast
next
  fix ev stmt assume "reduceExecutionRemoved tn ev = Inr stmt"
  then show "well_formed stmt"
    by (cases ev) (auto simp: reduceExecutionRemoved_def)
next
  fix ev stmt assume "reduceInstanceRemovedHelper tn ExecutionInstanceIDCol ev = Inr stmt"
  then show "well_formed stmt"
    by (cases ev) (auto simp: reduceInstanceRemovedHelper_def)
next
  fix ev stmt assume "reduceSessionAdded tn ev = Inr stmt"
  then show "well_formed stmt"
    by (cases ev) (auto simp: reduceSessionAdded_def)
next
  fix ev stmt assume "reduceUserChecked tn ev = Inr stmt"
  then show "well_formed stmt"
    by (cases ev) (auto simp: reduceUserChecked_def)
next
  fix ev stmt assume "reducePasswordChecked tn ev = Inr stmt"
  then show "well_formed stmt"
    by (cases ev) (auto simp: reducePasswordChecked_def)
next
  fix ev stmt assume "reduceIntentChecked tn ev = Inr stmt"
  then show "well_formed stmt"
    by (cases ev) (auto simp: reduceIntentChecked_def)
next
  fix ev stmt assume "reduceWebAuthNChecked tn ev = Inr stmt"
  then show "well_formed stmt"
    by (cases ev) (auto simp: reduceWebAuthNChecked_def)
next
  fix ev stmt assume "reduceTOTPChecked tn ev = Inr stmt"
  then show "well_formed stmt"
    by (cases ev) (auto simp: reduceTOTPChecked_def)
next
  fix ev stmt assume "reduceTokenSet tn ev = Inr stmt"
  then show "well_formed stmt"
    by (cases ev) (auto simp: reduceTokenSet_def)
next
  fix ev stmt assume "reduceMetadataSet tn ev = Inr stmt"
  then show "well_formed stmt"
    by (cases ev) (auto simp: reduceMetadataSet_def)
next
  fix ev stmt assume "reduceSessionTerminated tn ev = Inr stmt"
  then show "well_formed stmt"
    by (cases ev) (auto simp: reduceSessionTerminated_def)
next
  fix ev stmt assume "reduceInstanceRemovedHelper tn SMSColumnInstanceID ev = Inr stmt"
  then show "well_formed stmt"
    by (cases ev) (auto simp: reduceInstanceRemovedHelper_def)
next
  fix ev stmt assume "reducePasswordChanged tn ev = Inr stmt"
  then show "well_formed stmt"
    by (cases ev) (auto simp: reducePasswordChanged_def)
qed

lemma registered_reducers_split:
  "set (registered_reducers tn)
     = set (map snd (concat (map snd (execution_Reducers tn))))
       \<union> set (map snd (concat (map snd (session_Reducers tn))))"
  by (simp add: registered_reducers_def)

lemma upsert_keeps_creation_date:
  assumes "list_ex (conds_hold (conflict_conds (take 3 (execution_set_columns e targets includes)))) rows"
  shows "map (\<lambda>r. r ExecutionCreationDateCol)
           (execute pk (NewUpsertStatement e (take 3 (execution_set_columns e targets includes))
                          (execution_set_columns e targets includes)) rows)
         = map (\<lambda>r. r ExecutionCreationDateCol) rows"
proof -
  let ?H = "conds_hold (conflict_conds (take 3 (execution_set_columns e targets includes)))"
  let ?u = "row_of (updated_columns (execution_set_columns e targets includes))"
  have "execute pk (NewUpsertStatement e (take 3 (execution_set_columns e targets includes))
                          (execution_set_columns e targets includes)) rows
          = map (\<lambda>r. if ?H r then r ++ ?u else r) rows"
    using assms by simp
  moreover have "(if ?H r then r ++ ?u else r) ExecutionCreationDateCol = r ExecutionCreationDateCol"
    for r
    by (simp add: execution_set_keeps_creation_date)
  ultimately show ?thesis by (simp only: map_map comp_def)
qed

text \<open>
  C6. For every reducer the two projections register: applying the statement it
  produces for an event twice leaves the table of the projection as applying it once.
  The upsert of the execution projection marks creation_date as set only on insert;
  once the row of an execution exists, an upsert for the same primary key (instance,
  resource owner, id), of the same or of a later event, leaves the creation_date of
  every row as it is.
\<close>

theorem reducer_statements_idempotent:
  "(\<forall>reduce \<in> set (map snd (concat (map snd (execution_Reducers tn)))). \<forall>ev stmt rows.
       reduce ev = Inr stmt \<longrightarrow>
         execute execution_primary_key stmt (execute execution_primary_key stmt rows)
           = execute execution_primary_key stmt rows)
   \<and> (\<forall>reduce \<in> set (map snd (concat (map snd (session_Reducers tn)))). \<forall>ev stmt rows.
       reduce ev = Inr stmt \<longrightarrow>
         execute session_primary_key stmt (execute session_primary_key stmt rows)
           = execute session_primary_key stmt rows)
   \<and> (\<forall>e targets includes. \<exists>conflictCols columns.
         reduceExecutionSet tn (ExecSetEvent e targets includes)
           = Inr (NewUpsertStatement e conflictCols columns)
         \<and> (ExecutionCreationDateCol,
              OnlySetValueOnInsert ExecutionTable (Timestamp (be_CreationDate e))) \<in> set columns)
   \<and> (\<forall>e targets includes e' targets' includes' stmt stmt' rows.
         reduceExecutionSet tn (ExecSetEvent e targets includes) = Inr stmt
         \<and> reduceExecutionSet tn (ExecSetEvent e' targets' includes') = Inr stmt'
         \<and> agg_InstanceID (be_Aggregate e') = agg_InstanceID (be_Aggregate e)
         \<and> agg_ResourceOwner (be_Aggregate e') = agg_ResourceOwner (be_Aggregate e)
         \<and> agg_ID (be_Aggregate e') = agg_ID (be_Aggregate e)
         \<longrightarrow> map (\<lambda>r. r ExecutionCreationDateCol)
               (execute execution_primary_key stmt' (execute execution_primary_key stmt rows))
             = map (\<lambda>r. r ExecutionCreationDateCol) (execute execution_primary_key stmt rows))"
proof (intro conjI)
  show "\<forall>reduce \<in> set (map snd (concat (map snd (execution_Reducers tn)))). \<forall>ev stmt rows.
       reduce ev = Inr stmt \<longrightarrow>
         execute execution_primary_key stmt (execute execution_primary_key stmt rows)
           = execute execution_primary_key stmt rows"
    using reducers_well_formed execute_idem unfolding registered_reducers_split by blast
  show "\<forall>reduce \<in> set (map snd (concat (map snd (session_Reducers tn)))). \<forall>ev stmt rows.
       reduce ev = Inr stmt \<longrightarrow>
         execute session_primary_key stmt (execute session_primary_key stmt rows)
           = execute session_primary_key stmt rows"
    using reducers_well_formed execute_idem unfolding registered_reducers_split by blast
  show "\<forall>e targets includes. \<exists>conflictCols columns.
         reduceExecutionSet tn (ExecSetEvent e targets includes)
           = Inr (NewUpsertStatement e conflictCols columns)
         \<and> (ExecutionCreationDateCol,
              OnlySetValueOnInsert ExecutionTable (Timestamp (be_CreationDate e))) \<in> set columns"
    by (simp add: reduceExecutionSet_def Let_def NewCol_def)
  show "\<forall>e targets includes e' targets' includes' stmt stmt' rows.
         reduceExecutionSet tn (ExecSetEvent e targets includes) = Inr stmt
         \<and> reduceExecutionSet tn (ExecSetEvent e' targets' includes') = Inr stmt'
         \<and> agg_InstanceID (be_Aggregate e') = agg_InstanceID (be_Aggregate e)
         \<and> agg_ResourceOwner (be_Aggregate e') = agg_ResourceOwner (be_Aggregate e)
         \<and> agg_ID (be_Aggregate e') = agg_ID (be_Aggregate e)
         \<longrightarrow> map (\<lambda>r. r ExecutionCreationDateCol)
               (execute execution_primary_key stmt' (execute execution_primary_key stmt rows))
             = map (\<lambda>r. r ExecutionCreationDateCol) (execute execution_primary_key stmt rows)"
  proof (intro allI impI, elim conjE)
    fix e targets incl e' targets' incl' stmt stmt' rows
    assume s: "reduceExecutionSet tn (ExecSetEvent e targets incl) = Inr stmt"
      and s': "reduceExecutionSet tn (ExecSetEvent e' targets' incl') = Inr stmt'"
      and k: "agg_InstanceID (be_Aggregate e') = agg_InstanceID (be_Aggregate e)"
        "agg_ResourceOwner (be_Aggregate e') = agg_ResourceOwner (be_Aggregate e)"
        "agg_ID (be_Aggregate e') = agg_ID (be_Aggregate e)"
    from s have stmt: "stmt = NewUpsertStatement e (take 3 (execution_set_columns e targets incl))
                   (execution_set_columns e targets incl)"
      unfolding reduceExecutionSet_Inr by simp
    from s' have stmt': "stmt' = NewUpsertStatement e' (take 3 (execution_set_columns e' targets' incl'))
                   (execution_set_columns e' targets' incl')"
      unfolding reduceExecutionSet_Inr by simp
    have same: "conflict_conds (take 3 (execution_set_columns e' targets' incl'))
                  = conflict_conds (take 3 (execution_set_columns e targets incl))"
      by (simp only: execution_set_conflict_conds k)
    have "list_ex (conds_hold (conflict_conds (take 3 (execution_set_columns e targets incl))))
            (execute execution_primary_key stmt rows)"
      unfolding stmt by (rule execute_upsert_hit [OF execution_set_well_formed])
    then have "list_ex (conds_hold (conflict_conds (take 3 (execution_set_columns e' targets' incl'))))
            (execute execution_primary_key stmt rows)"
      by (simp only: same)
    from upsert_keeps_creation_date [OF this]
    show "map (\<lambda>r. r ExecutionCreationDateCol)
               (execute execution_primary_key stmt' (execute execution_primary_key stmt rows))
             = map (\<lambda>r. r ExecutionCreationDateCol) (execute execution_primary_key stmt rows)"
      unfolding stmt' .
  qed
qed

text \<open>
  The execution \<open>x1\<close> was created at time 10; the upsert of an event of time 50 changes
  the row and keeps the creation date, and a second application changes nothing.
\<close>

theorem reducer_statements_idempotent_witness:
  "\<exists>stmt. reduceExecutionSet example_type_names (ExecSetEvent example_base [''t1''] []) = Inr stmt
     \<and> execute execution_primary_key stmt (execute execution_primary_key stmt [example_execution_row])
         = execute execution_primary_key stmt [example_execution_row]
     \<and> map (\<lambda>r. (r ''creation_date'', r ''change_date''))
         (execute execution_primary_key stmt [example_execution_row])
         = [(Some (Timestamp 10), Some (Timestamp 50))]"
proof -
  obtain stmt where s: "reduceExecutionSet example_type_names (ExecSetEvent example_base [''t1''] []) = Inr stmt"
    by (simp add: reduceExecutionSet_def Let_def)
  have m: "reduceExecutionSet example_type_names \<in> set (map snd (concat (map snd (execution_Reducers example_type_names))))"
    by (simp add: execution_Reducers_def)
  from reducer_statements_idempotent [of example_type_names] m s
  have i: "execute execution_primary_key stmt (execute execution_primary_key stmt [example_execution_row])
         = execute execution_primary_key stmt [example_execution_row]"
    by blast
  from s have "stmt = NewUpsertStatement example_base
                        (take 3 (execution_set_columns example_base [''t1''] []))
                        (execution_set_columns example_base [''t1''] [])"
    unfolding reduceExecutionSet_Inr by simp
  then have c: "map (\<lambda>r. (r ''creation_date'', r ''change_date''))
         (execute execution_primary_key stmt [example_execution_row])
         = [(Some (Timestamp 10), Some (Timestamp 50))]"
    by (simp add: execution_set_columns_def column_defs example_base_def example_execution_row_def
          conds_hold_def conflict_conds_def updated_columns_def row_of_def map_add_def)
  show ?thesis by (rule exI [of _ stmt]) (intro conjI s i c)
qed

text \<open>
  C10. For an event of a changed password the session reducer produces an update that
  sets password_checked_at to NULL in exactly the rows whose user_id is the aggregate ID
  of the event and whose password_checked_at is a time before the creation date of the
  event. No other column of these rows changes, every other row stays as it is, and no
  row is added or removed.
\<close>

theorem reducePasswordChanged_frame:
  assumes "reducePasswordChanged tn ev = Inr stmt"
  shows "\<exists>e. ev = HumanPasswordChangedEvent e
          \<and> execute session_primary_key stmt rows
              = map (\<lambda>r. if r SessionColumnUserID = Some (Text (agg_ID (be_Aggregate e)))
                               \<and> (\<exists>t. r SessionColumnPasswordCheckedAt = Some (Timestamp t)
                                       \<and> t < be_CreationDate e)
                            then r(SessionColumnPasswordCheckedAt \<mapsto> Null) else r) rows"
proof -
  from assms obtain e where ev: "ev = HumanPasswordChangedEvent e"
    by (cases ev) (auto simp: reducePasswordChanged_def)
  with assms have stmt: "stmt = NewUpdateStatement e
                 [NewCol SessionColumnPasswordCheckedAt (Value Null)]
                 [NewCond SessionColumnUserID (Text (agg_ID (be_Aggregate e))),
                  NewLessThanCond SessionColumnPasswordCheckedAt (Timestamp (be_CreationDate e))]"
    by (auto simp: reducePasswordChanged_def)
  have less: "(case x of None \<Rightarrow> False | Some v \<Rightarrow> sql_less v (Timestamp c))
                \<longleftrightarrow> (\<exists>t. x = Some (Timestamp t) \<and> t < c)" for x c
  proof (cases x)
    case None
    then show ?thesis by simp
  next
    case (Some v)
    then show ?thesis by (cases v) auto
  qed
  have eq: "(case x of None \<Rightarrow> False | Some v \<Rightarrow> v \<noteq> Null \<and> Text a \<noteq> Null \<and> v = Text a)
                \<longleftrightarrow> x = Some (Text a)" for x a
    by (cases x) auto
  have cond: "conds_hold [NewCond SessionColumnUserID (Text (agg_ID (be_Aggregate e))),
                  NewLessThanCond SessionColumnPasswordCheckedAt (Timestamp (be_CreationDate e))] r
            \<longleftrightarrow> r SessionColumnUserID = Some (Text (agg_ID (be_Aggregate e)))
                 \<and> (\<exists>t. r SessionColumnPasswordCheckedAt = Some (Timestamp t)
                         \<and> t < be_CreationDate e)" for r
    unfolding conds_hold_def by (simp only: list.pred_inject cond_holds.simps less eq simp_thms)
  have upd: "r ++ row_of [NewCol SessionColumnPasswordCheckedAt (Value Null)]
               = r(SessionColumnPasswordCheckedAt \<mapsto> Null)" for r
    by (simp add: row_of_def NewCol_def)
  have "execute session_primary_key stmt rows
              = map (\<lambda>r. if r SessionColumnUserID = Some (Text (agg_ID (be_Aggregate e)))
                               \<and> (\<exists>t. r SessionColumnPasswordCheckedAt = Some (Timestamp t)
                                       \<and> t < be_CreationDate e)
                            then r(SessionColumnPasswordCheckedAt \<mapsto> Null) else r) rows"
    unfolding stmt by (simp only: execute.simps cond upd)
  with ev show ?thesis by blast
qed

text \<open>
  Four sessions and a password change of user \<open>x1\<close> at time 50: the session checked at
  time 40 loses its check; the session checked at 60, the session of another user and
  the session without a check stay as they are.
\<close>

theorem reducePasswordChanged_frame_witness:
  "\<exists>stmt. reducePasswordChanged example_type_names (HumanPasswordChangedEvent example_base) = Inr stmt
     \<and> execute session_primary_key stmt example_sessions
         = [example_session_row ''s1'' ''x1'' Null,
            example_session_row ''s2'' ''x1'' (Timestamp 60),
            example_session_row ''s3'' ''u9'' (Timestamp 40),
            example_session_row ''s4'' ''x1'' Null]"
proof -
  obtain stmt where s: "reducePasswordChanged example_type_names (HumanPasswordChangedEvent example_base) = Inr stmt"
    by (simp add: reducePasswordChanged_def)
  from reducePasswordChanged_frame [OF s, of example_sessions]
  have "execute session_primary_key stmt example_sessions
              = map (\<lambda>r. if r SessionColumnUserID = Some (Text (agg_ID (be_Aggregate example_base)))
                               \<and> (\<exists>t. r SessionColumnPasswordCheckedAt = Some (Timestamp t)
                                       \<and> t < be_CreationDate example_base)
                            then r(SessionColumnPasswordCheckedAt \<mapsto> Null) else r) example_sessions"
    by auto
  also have "\<dots> = [example_session_row ''s1'' ''x1'' Null,
            example_session_row ''s2'' ''x1'' (Timestamp 60),
            example_session_row ''s3'' ''u9'' (Timestamp 40),
            example_session_row ''s4'' ''x1'' Null]"
    by (simp add: example_sessions_def example_session_row_def example_base_def column_defs)
  finally have r: "execute session_primary_key stmt example_sessions
         = [example_session_row ''s1'' ''x1'' Null,
            example_session_row ''s2'' ''x1'' (Timestamp 60),
            example_session_row ''s3'' ''u9'' (Timestamp 40),
            example_session_row ''s4'' ''x1'' Null]" .
  show ?thesis by (rule exI [of _ stmt]) (intro conjI s r)
qed

lemma toQuery_subset: "set (toQuery queries rows) \<subseteq> set rows"
proof
  fix x assume "x \<in> set (toQuery queries rows)"
  then have "x \<in> set (drop (sr_Offset queries) (filter (sr_Queries queries) rows))"
    unfolding toQuery_def Let_def by (auto split: if_splits dest: in_set_takeD)
  then have "x \<in> set (filter (sr_Queries queries) rows)" by (rule in_set_dropD)
  then show "x \<in> set rows" by simp
qed

lemma SearchExecutions_scoped:
  "r \<in> set (SearchExecutions_rows ctx queries rows) \<Longrightarrow>
     r (col_identifier ExecutionColumnInstanceID) = Some (Text (ctx_InstanceID ctx))"
  unfolding SearchExecutions_rows_def Let_def
  using toQuery_subset [of queries] by (fastforce simp: eq_holds_def)

lemma SearchOrgs_scoped:
  "r \<in> set (SearchOrgs_rows inst_col ctx queries rows) \<Longrightarrow>
     r inst_col = Some (Text (ctx_InstanceID ctx))"
  unfolding SearchOrgs_rows_def Let_def
  using toQuery_subset [of queries] by (fastforce simp: eq_holds_def)

lemma GetExecutionByID_ignores_context:
  "GetExecutionByID env ctx ident resourceOwner rows = GetExecutionByID env ctx' ident resourceOwner rows"
  by (simp add: GetExecutionByID_def)

lemmas query_column_defs =
  col_identifier_def executionTable_def ExecutionColumnID_def ExecutionColumnCreationDate_def
  ExecutionColumnChangeDate_def ExecutionColumnResourceOwner_def ExecutionColumnInstanceID_def
  ExecutionColumnSequence_def ExecutionColumnTargets_def ExecutionColumnIncludes_def
  ExecutionTable_def ExecutionIDCol_def ExecutionCreationDateCol_def ExecutionChangeDateCol_def
  ExecutionResourceOwnerCol_def ExecutionInstanceIDCol_def ExecutionSequenceCol_def
  ExecutionTargetsCol_def ExecutionIncludesCol_def

text \<open>
  C4. \<open>GetExecutionByID\<close> compares the instance column with its argument
  \<open>resourceOwner\<close>, not with the instance of the calling context: called in the context
  of the instance \<open>i1\<close> with the resource owner \<open>i2\<close>, it returns the execution \<open>x1\<close> of
  the instance \<open>i2\<close>. (The searches compare the instance column with the instance of the
  context.)
\<close>

theorem GetExecutionByID_reads_other_instance:
  "ctx_InstanceID example_ctx = ''i1''
   \<and> execution_of_i2 (col_identifier ExecutionColumnInstanceID) = Some (Text ''i2'')
   \<and> GetExecutionByID no_fault example_ctx ''x1'' ''i2'' [execution_of_i2]
       = Inr \<lparr> exe_ID = ''x1'', exe_CreationDate = 10, exe_ChangeDate = 10,
               exe_ResourceOwner = ''i2'', exe_Sequence = 3, exe_Targets = [''t1''],
               exe_Includes = [] \<rparr>
   \<and> SearchExecutions_rows example_ctx \<lparr> sr_Offset = 0, sr_Limit = 0, sr_Queries = (\<lambda>r. True) \<rparr>
        [execution_of_i2] = []"
  by (simp add: GetExecutionByID_def genericGetByID_def query_row_def no_fault_def
        prepareExecutionQuery_scan_def scan_execution_def eq_holds_def execution_of_i2_def
        query_column_defs example_ctx_def SearchExecutions_rows_def toQuery_def)

end
